theory Spec2Isabelle
  imports Complex_Main "HOL-Library.Char_ord" "HOL-Library.List_Lexorder"
begin


section \<open>Python values used by the acquisition driver\<close>

text \<open>
  Exceptions are values. Only instances of Python's \<open>Exception\<close> class are modelled
  (the class that the driver's \<open>except Exception\<close> handler catches); the payload is the
  exception's class name.
\<close>

datatype exn = Exn string

definition ValueError :: exn where
  "ValueError = Exn ''ValueError''"

definition IndexError :: exn where
  "IndexError = Exn ''IndexError''"

text \<open>Decimal rendering of an integer, as \<open>str(n)\<close> and \<open>f"{n}"\<close> produce it.\<close>

definition digit_char :: "nat \<Rightarrow> char" where
  "digit_char d =
     (if d = 0 then CHR ''0'' else if d = 1 then CHR ''1'' else if d = 2 then CHR ''2''
      else if d = 3 then CHR ''3'' else if d = 4 then CHR ''4'' else if d = 5 then CHR ''5''
      else if d = 6 then CHR ''6'' else if d = 7 then CHR ''7'' else if d = 8 then CHR ''8''
      else CHR ''9'')"

function str_nat :: "nat \<Rightarrow> string" where
  "str_nat n = (if n < 10 then [digit_char n] else str_nat (n div 10) @ [digit_char (n mod 10)])"
  by pat_completeness auto
termination
  by (relation "measure (\<lambda>n. n)") auto

definition str_int :: "int \<Rightarrow> string" where
  "str_int i = (if i < 0 then CHR ''-'' # str_nat (nat (- i)) else str_nat (nat i))"

text \<open>
  \<open>datetime.date(year, month, 1).strftime('%B')\<close>: the constructor raises
  \<open>ValueError\<close> outside \<open>MINYEAR = 1 .. MAXYEAR = 9999\<close> and outside months 1 to 12;
  otherwise the full English month name is returned.
\<close>

definition month_name :: "int \<Rightarrow> int \<Rightarrow> exn + string" where
  "month_name year month =
     (if year < 1 \<or> 9999 < year \<or> month < 1 \<or> 12 < month then Inl ValueError
      else Inr (if month = 1 then ''January'' else if month = 2 then ''February''
        else if month = 3 then ''March'' else if month = 4 then ''April''
        else if month = 5 then ''May'' else if month = 6 then ''June''
        else if month = 7 then ''July'' else if month = 8 then ''August''
        else if month = 9 then ''September'' else if month = 10 then ''October''
        else if month = 11 then ''November'' else ''December''))"

text \<open>\<open>f"{month_name}_{year}.xlsx"\<close>\<close>

definition target_filename :: "string \<Rightarrow> int \<Rightarrow> string" where
  "target_filename mname year = mname @ ''_'' @ str_int year @ ''.xlsx''"

section \<open>The storage tree\<close>

text \<open>
  The file system is a partial map from path strings to nodes; \<open>os.path.exists\<close> is
  definedness. \<open>os.path.join\<close> is modelled for relative second components.
\<close>

type_synonym path = string

datatype node = Dir | File string

type_synonym tree = "path \<Rightarrow> node option"

definition path_exists :: "tree \<Rightarrow> path \<Rightarrow> bool" where
  "path_exists t p = (t p \<noteq> None)"

definition path_join :: "path \<Rightarrow> string \<Rightarrow> path" where
  "path_join d f = d @ ''/'' @ f"

text \<open>The wall clock as the code reads it: \<open>now.year\<close> and \<open>now.month\<close>.\<close>

record now_t =
  now_year :: int
  now_month :: int

section \<open>Completion oracle: \<open>is_hscode_completed\<close>\<close>

text \<open>
  The inner \<open>for month in range(1, 13)\<close> loop. \<open>Inr True\<close>: the loop ended (by
  exhaustion or by \<open>break\<close>); \<open>Inr False\<close>: \<open>return False\<close>; \<open>Inl e\<close>: the
  date constructor raised.
\<close>

fun check_months :: "tree \<Rightarrow> now_t \<Rightarrow> path \<Rightarrow> int \<Rightarrow> int list \<Rightarrow> exn + bool" where
  "check_months t now hscode_dir year [] = Inr True"
| "check_months t now hscode_dir year (month # ms) =
     (if year = now_year now \<and> month > now_month now then Inr True
      else (case month_name year month of
              Inl e \<Rightarrow> Inl e
            | Inr mname \<Rightarrow>
                if \<not> path_exists t (path_join hscode_dir (target_filename mname year))
                then Inr False
                else check_months t now hscode_dir year ms))"

fun check_years :: "tree \<Rightarrow> now_t \<Rightarrow> path \<Rightarrow> int list \<Rightarrow> exn + bool" where
  "check_years t now hscode_dir [] = Inr True"
| "check_years t now hscode_dir (year # ys) =
     (case check_months t now hscode_dir year [1..12] of
        Inr True \<Rightarrow> check_years t now hscode_dir ys
      | r \<Rightarrow> r)"

definition is_hscode_completed :: "tree \<Rightarrow> now_t \<Rightarrow> path \<Rightarrow> int \<Rightarrow> int \<Rightarrow> exn + bool" where
  "is_hscode_completed t now hscode_dir start_year end_year =
     (if \<not> path_exists t hscode_dir then Inr False
      else check_years t now hscode_dir [start_year..end_year])"

section \<open>The period grid\<close>

text \<open>
  The periods visited by the loop skeleton shared by the oracle and the driver:
  \<open>for year in range(start_year, end_year + 1): for month in range(1, 13):
  if year == now.year and month > now.month: break\<close>.
\<close>

fun visited_months :: "now_t \<Rightarrow> int \<Rightarrow> int list \<Rightarrow> int list" where
  "visited_months now year [] = []"
| "visited_months now year (month # ms) =
     (if year = now_year now \<and> month > now_month now then []
      else month # visited_months now year ms)"

definition period_grid :: "now_t \<Rightarrow> int \<Rightarrow> int \<Rightarrow> (int \<times> int) list" where
  "period_grid now start_year end_year =
     concat (map (\<lambda>year. map (\<lambda>month. (year, month)) (visited_months now year [1..12]))
       [start_year..end_year])"

text \<open>The canonical artifact path of one period below a code directory, when the date is valid.\<close>

definition artifact_present :: "tree \<Rightarrow> path \<Rightarrow> int \<times> int \<Rightarrow> bool" where
  "artifact_present t hscode_dir p =
     (case month_name (fst p) (snd p) of
        Inl e \<Rightarrow> False
      | Inr mname \<Rightarrow> path_exists t (path_join hscode_dir (target_filename mname (fst p))))"

text \<open>
  The completion condition in the words of the specification: the code directory exists
  and every period with year in the closed range and month not in the future has its
  artifact. A period is in the future when it lies strictly after the current month.
\<close>

definition in_future :: "now_t \<Rightarrow> int \<times> int \<Rightarrow> bool" where
  "in_future now p =
     (fst p > now_year now \<or> (fst p = now_year now \<and> snd p > now_month now))"

definition spec_is_complete :: "tree \<Rightarrow> now_t \<Rightarrow> path \<Rightarrow> int \<Rightarrow> int \<Rightarrow> bool" where
  "spec_is_complete t now hscode_dir start_year end_year =
     (path_exists t hscode_dir \<and>
      list_all (\<lambda>year. list_all (\<lambda>month.
          in_future now (year, month) \<or> artifact_present t hscode_dir (year, month)) [1..12])
        [start_year..end_year])"

section \<open>Staging directory: \<open>get_latest_file\<close>\<close>

text \<open>
  A file of the staging directory with the two time stamps the code reads
  (\<open>os.path.getctime\<close>, \<open>os.path.getmtime\<close>) and its content. Time is counted in
  whole seconds. The directory is a list in the order \<open>glob.glob\<close> enumerates it.
\<close>

record sfile =
  sf_name :: string
  sf_ctime :: int
  sf_mtime :: int
  sf_data :: string

definition endswith :: "'a list \<Rightarrow> 'a list \<Rightarrow> bool" where
  "endswith s suf = (length suf \<le> length s \<and> drop (length s - length suf) s = suf)"

text \<open>The pattern \<open>*\<close> of \<open>glob.glob\<close> does not match names that start with a dot.\<close>

definition glob_star :: "sfile list \<Rightarrow> sfile list" where
  "glob_star directory =
     filter (\<lambda>f. case sf_name f of [] \<Rightarrow> True | c # _ \<Rightarrow> c \<noteq> CHR ''.'') directory"

text \<open>\<open>max(files, key=os.path.getctime)\<close>: the first file with the greatest key.\<close>

fun max_ctime :: "sfile \<Rightarrow> sfile list \<Rightarrow> sfile" where
  "max_ctime best [] = best"
| "max_ctime best (f # fs) = max_ctime (if sf_ctime f > sf_ctime best then f else best) fs"

definition in_progress :: "string \<Rightarrow> bool" where
  "in_progress name = (endswith name ''.crdownload'' \<or> endswith name ''.tmp'')"

definition get_latest_file :: "sfile list \<Rightarrow> sfile option" where
  "get_latest_file directory =
     (case filter (\<lambda>f. \<not> endswith (sf_name f) ''.crdownload'' \<and> \<not> endswith (sf_name f) ''.tmp'')
             (glob_star directory) of
        [] \<Rightarrow> None
      | f # fs \<Rightarrow> Some (max_ctime f fs))"

section \<open>The crawl driver: \<open>scrape_commodity_data\<close>\<close>

text \<open>
  What the driver prints and does to the outside world, in order. \<open>Net_get\<close> is the
  navigation \<open>driver.get(url)\<close> that opens the request for one code, month and year: the
  only place where a network interaction starts.
\<close>

datatype event =
    Print_processing string
  | Print_skip_code string
  | Print_downloading string int
  | Net_get string int int
  | Print_no_data string int
  | Sleep int
  | Click_download
  | Move string path
  | Print_saved string
  | Print_timeout
  | Print_error string int exn
  | Print_closing

record state =
  tree :: tree
  staging :: "sfile list"
  clock :: int
  requests :: nat
  log :: "event list"

definition emit :: "event \<Rightarrow> state \<Rightarrow> state" where
  "emit ev st = st\<lparr>log := log st @ [ev]\<rparr>"

definition sleep :: "int \<Rightarrow> state \<Rightarrow> state" where
  "sleep n st = st\<lparr>clock := clock st + n, log := log st @ [Sleep n]\<rparr>"

text \<open>
  How the browser and the remote tool answer one request:
  \<^item> \<open>form_phase\<close>: the first exception raised between \<open>driver.get\<close> and the click on
    the submit button (lines 157 to 177), if any;
  \<^item> \<open>excel_button\<close>: whether the wait for \<open>.buttons-excel\<close> finds the element; when it
    raises (a timeout or anything else) the bare \<open>except\<close> takes over;
  \<^item> \<open>excel_click\<close>: the exception raised by the click on the export button, if any;
  \<^item> \<open>downloads t\<close>: the files the browser has put into the staging directory for this
    request, as the directory listing shows them at time \<open>t\<close>;
  \<^item> \<open>poll_error t\<close>: the exception raised by the listing or a stat call at time \<open>t\<close>;
  \<^item> \<open>move_error\<close>: the exception raised by \<open>shutil.move\<close>, if any.
\<close>

record response =
  form_phase :: "exn option"
  excel_button :: bool
  excel_click :: "exn option"
  downloads :: "int \<Rightarrow> sfile list"
  poll_error :: "int \<Rightarrow> exn option"
  move_error :: "exn option"

text \<open>
  The polling loop of lines 194 to 205, with \<open>timeout = 60\<close> and one second of sleep per
  round. It returns the qualifying file (or \<open>None\<close> at the timeout, or the exception)
  and the time at which it stopped.
\<close>

function wait_for_download ::
  "response \<Rightarrow> sfile list \<Rightarrow> int \<Rightarrow> int \<Rightarrow> (exn + sfile option) \<times> int" where
  "wait_for_download r stg start_wait t =
     (if t - start_wait < 60 then
        (case poll_error r t of
           Some e \<Rightarrow> (Inl e, t)
         | None \<Rightarrow>
            (case get_latest_file (stg @ downloads r t) of
               Some latest \<Rightarrow>
                 if sf_mtime latest > start_wait then (Inr (Some latest), t)
                 else wait_for_download r stg start_wait (t + 1)
             | None \<Rightarrow> wait_for_download r stg start_wait (t + 1)))
      else (Inr None, t))"
  by pat_completeness auto
termination
  by (relation "measure (\<lambda>(r, stg, start_wait, t). nat (start_wait + 60 - t))") auto

declare wait_for_download.simps [simp del]

text \<open>\<open>shutil.move(new_file, target_path)\<close>: the target gets the content, the source is gone.\<close>

definition move_file :: "sfile \<Rightarrow> path \<Rightarrow> sfile list \<Rightarrow> state \<Rightarrow> state" where
  "move_file f target_path directory st =
     st\<lparr>tree := (tree st)(target_path \<mapsto> File (sf_data f)),
        staging := filter (\<lambda>g. sf_name g \<noteq> sf_name f) directory,
        log := log st @ [Move (sf_name f) target_path]\<rparr>"

text \<open>The body of the \<open>try\<close> block, lines 157 to 214, and how it ended.\<close>

datatype cycle_result = Raised exn | No_data | Saved | Timed_out

definition request_cycle ::
  "response \<Rightarrow> string \<Rightarrow> int \<Rightarrow> int \<Rightarrow> string \<Rightarrow> path \<Rightarrow> state \<Rightarrow> cycle_result \<times> state" where
  "request_cycle r hscode year month mname target_path st =
     (let st1 = emit (Net_get hscode month year) (st\<lparr>requests := Suc (requests st)\<rparr>) in
      case form_phase r of
        Some e \<Rightarrow> (Raised e, st1)
      | None \<Rightarrow>
         if \<not> excel_button r then (No_data, emit (Print_no_data mname year) st1)
         else
           let st2 = emit Click_download (sleep 2 st1) in
           (case excel_click r of
              Some e \<Rightarrow> (Raised e, st2)
            | None \<Rightarrow>
               let start_wait = clock st2;
                   (found, t) = wait_for_download r (staging st2) start_wait start_wait;
                   st3 = st2\<lparr>clock := t, staging := staging st2 @ downloads r t\<rparr>
               in (case found of
                     Inl e \<Rightarrow> (Raised e, st3)
                   | Inr None \<Rightarrow> (Timed_out, emit Print_timeout st3)
                   | Inr (Some new_file) \<Rightarrow>
                       let st4 = sleep 1 st3 in
                       (case move_error r of
                          Some e \<Rightarrow> (Raised e, st4)
                        | None \<Rightarrow>
                           (Saved, emit (Print_saved (target_filename mname year))
                              (move_file new_file target_path (staging st4) st4))))))"

text \<open>
  Lines 154 to 219: the progress line, the \<open>try\<close> block and its handler
  \<open>except Exception as e: print(...); continue\<close>. The answer of the remote side to the
  \<open>n\<close>-th request of the run is \<open>env n\<close>.
\<close>

definition download_period ::
  "(nat \<Rightarrow> response) \<Rightarrow> string \<Rightarrow> int \<Rightarrow> int \<Rightarrow> string \<Rightarrow> path \<Rightarrow> state \<Rightarrow> state" where
  "download_period env hscode year month mname target_path st =
     (let st0 = emit (Print_downloading mname year) st;
          (res, st1) = request_cycle (env (requests st0)) hscode year month mname target_path st0
      in case res of
           Raised e \<Rightarrow> emit (Print_error mname year e) st1
         | _ \<Rightarrow> st1)"

text \<open>
  The loops over months, years and codes. An exception that is raised outside the
  \<open>try\<close> block (by the date constructor) leaves every loop: the first component of the
  result. The wall clock \<open>now\<close> is read once when the run starts; the oracle reads it again
  for every code, and the model gives it the same reading (a run within one month).
\<close>

fun months_loop ::
  "(nat \<Rightarrow> response) \<Rightarrow> now_t \<Rightarrow> string \<Rightarrow> path \<Rightarrow> int \<Rightarrow> int list \<Rightarrow> state \<Rightarrow> exn option \<times> state" where
  "months_loop env now hscode hscode_dir year [] st = (None, st)"
| "months_loop env now hscode hscode_dir year (month # ms) st =
     (if year = now_year now \<and> month > now_month now then (None, st)
      else (case month_name year month of
              Inl e \<Rightarrow> (Some e, st)
            | Inr mname \<Rightarrow>
                let target_path = path_join hscode_dir (target_filename mname year) in
                if path_exists (tree st) target_path
                then months_loop env now hscode hscode_dir year ms st
                else months_loop env now hscode hscode_dir year ms
                       (download_period env hscode year month mname target_path st)))"

fun years_loop ::
  "(nat \<Rightarrow> response) \<Rightarrow> now_t \<Rightarrow> string \<Rightarrow> path \<Rightarrow> int list \<Rightarrow> state \<Rightarrow> exn option \<times> state" where
  "years_loop env now hscode hscode_dir [] st = (None, st)"
| "years_loop env now hscode hscode_dir (year # ys) st =
     (case months_loop env now hscode hscode_dir year [1..12] st of
        (Some e, st') \<Rightarrow> (Some e, st')
      | (None, st') \<Rightarrow> years_loop env now hscode hscode_dir ys st')"

definition BASE_DOWNLOAD_DIR :: path where
  "BASE_DOWNLOAD_DIR = ''data/import''"

definition start_year :: int where
  "start_year = 2018"

text \<open>Lines 123 to 129: the progress line, and \<open>os.makedirs\<close> when the directory is missing.\<close>

definition enter_code :: "string \<Rightarrow> state \<Rightarrow> state" where
  "enter_code hscode st =
     (let st0 = emit (Print_processing hscode) st;
          hscode_dir = path_join BASE_DOWNLOAD_DIR hscode
      in if \<not> path_exists (tree st0) hscode_dir
         then st0\<lparr>tree := (tree st0)(hscode_dir \<mapsto> Dir)\<rparr> else st0)"

fun codes_loop :: "(nat \<Rightarrow> response) \<Rightarrow> now_t \<Rightarrow> string list \<Rightarrow> state \<Rightarrow> exn option \<times> state" where
  "codes_loop env now [] st = (None, st)"
| "codes_loop env now (hscode # hs) st =
     (let hscode_dir = path_join BASE_DOWNLOAD_DIR hscode;
          st1 = enter_code hscode st
      in case is_hscode_completed (tree st1) now hscode_dir start_year (now_year now) of
           Inl e \<Rightarrow> (Some e, st1)
         | Inr True \<Rightarrow> codes_loop env now hs (emit (Print_skip_code hscode) st1)
         | Inr False \<Rightarrow>
            (case years_loop env now hscode hscode_dir [start_year..now_year now] st1 of
               (Some e, st2) \<Rightarrow> (Some e, st2)
             | (None, st2) \<Rightarrow> codes_loop env now hs st2))"

text \<open>
  The whole run; the \<open>finally\<close> block closes the browser session in every case. The
  start of the browser before the \<open>try\<close> and the best-effort removal of the staging
  directory after it are not part of the model.
\<close>

definition scrape_commodity_data ::
  "(nat \<Rightarrow> response) \<Rightarrow> now_t \<Rightarrow> string list \<Rightarrow> state \<Rightarrow> exn option \<times> state" where
  "scrape_commodity_data env now hscodes st =
     (let (e, st') = codes_loop env now hscodes st in (e, emit Print_closing st'))"

section \<open>Python strings and spreadsheet cells\<close>

text \<open>
  The transformer applies Unicode-aware operations (\<open>str.strip\<close>, \<open>str.lower\<close>, the
  class \<open>\d\<close>, \<open>float\<close>) to the text it reads, so on its side a Python \<open>str\<close> is the
  list of its code points; \<open>ustr\<close> writes an ASCII literal. Lists of code points are
  ordered lexicographically, as Python compares strings.
\<close>

type_synonym ustring = "int list"

definition ustr :: "string \<Rightarrow> ustring" where
  "ustr s = map of_char s"

text \<open>
  \<open>str.isspace\<close> for one code point, which is what \<open>str.strip()\<close> removes at both ends:
  U+0009 to U+000D, U+001C to U+0020, U+0085, U+00A0, U+1680, U+2000 to U+200A, U+2028,
  U+2029, U+202F, U+205F and U+3000.
\<close>

definition is_space :: "int \<Rightarrow> bool" where
  "is_space c =
     ((9 \<le> c \<and> c \<le> 13) \<or> (28 \<le> c \<and> c \<le> 32) \<or> c = 133 \<or> c = 160 \<or> c = 5760 \<or>
      (8192 \<le> c \<and> c \<le> 8202) \<or> c = 8232 \<or> c = 8233 \<or> c = 8239 \<or> c = 8287 \<or> c = 12288)"

definition strip :: "ustring \<Rightarrow> ustring" where
  "strip s = rev (dropWhile is_space (rev (dropWhile is_space s)))"

definition is_upper :: "int \<Rightarrow> bool" where
  "is_upper c = (65 \<le> c \<and> c \<le> 90)"

text \<open>The class \<open>[A-Za-z]\<close> of the header pattern.\<close>

definition is_alpha :: "int \<Rightarrow> bool" where
  "is_alpha c = (is_upper c \<or> (97 \<le> c \<and> c \<le> 122))"

text \<open>
  The decimal digits of the Unicode database (version 14.0, that of Python 3.11): 66 runs
  of ten consecutive code points with the values 0 to 9, each given by its first code
  point. They are the class \<open>\d\<close> of a \<open>str\<close> pattern and the digits that \<open>float\<close> accepts.
\<close>

definition decimal_starts :: "int list" where
  "decimal_starts =
     [48, 1632, 1776, 1984, 2406, 2534, 2662, 2790, 2918, 3046, 3174, 3302, 3430, 3558, 3664,
      3792, 3872, 4160, 4240, 6112, 6160, 6470, 6608, 6784, 6800, 6992, 7088, 7232, 7248,
      42528, 43216, 43264, 43472, 43504, 43600, 44016, 65296, 66720, 68912, 69734, 69872,
      69942, 70096, 70384, 70736, 70864, 71248, 71360, 71472, 71904, 72016, 72784, 73040,
      73120, 92768, 92864, 93008, 120782, 120792, 120802, 120812, 120822, 123200, 123632,
      125264, 130032]"

definition decimal_value :: "int \<Rightarrow> int option" where
  "decimal_value c =
     (case filter (\<lambda>s. s \<le> c \<and> c < s + 10) decimal_starts of
        [] \<Rightarrow> None
      | s # _ \<Rightarrow> Some (c - s))"

definition is_digit :: "int \<Rightarrow> bool" where
  "is_digit c = (decimal_value c \<noteq> None)"

text \<open>
  \<open>str.lower()\<close>: the ASCII capitals; U+0130, which becomes \<open>i\<close> followed by U+0307; the
  Kelvin sign U+212A, which becomes \<open>k\<close>. The lower-case form of every other code point
  above 127 has no ASCII code point in it; the source only compares lower-cased text with
  ASCII literals, and the model leaves such a code point in place.
\<close>

definition lower :: "ustring \<Rightarrow> ustring" where
  "lower s =
     concat (map (\<lambda>c. if is_upper c then [c + 32]
                        else if c = 304 then [105, 775]
                        else if c = 8490 then [107]
                        else [c]) s)"

text \<open>
  A float is its exact value or one of the special values; rounding to the nearest
  double is outside the model.
\<close>

datatype pyfloat = Finite rat | Pos_inf | Neg_inf | Nan

text \<open>
  \<open>float(s)\<close> for a string. A string with a code point above 127 is first rewritten:
  code points below 127 stay, white space becomes a blank, a decimal digit becomes its
  ASCII digit, and at anything else a question mark ends the text. Then the white space
  of C (U+0009 to U+000D and the blank) is removed at both ends and the rest must be: a
  sign, then \<open>inf\<close>, \<open>infinity\<close> or \<open>nan\<close> in any case, or a decimal number with
  optional fraction and exponent, where single underscores may separate digits. Anything
  else raises \<open>ValueError\<close>.
\<close>

fun to_ascii :: "ustring \<Rightarrow> ustring" where
  "to_ascii [] = []"
| "to_ascii (c # cs) =
     (if c < 127 then c # to_ascii cs
      else if is_space c then 32 # to_ascii cs
      else (case decimal_value c of
              Some d \<Rightarrow> (48 + d) # to_ascii cs
            | None \<Rightarrow> [63]))"

definition is_c_space :: "int \<Rightarrow> bool" where
  "is_c_space c = ((9 \<le> c \<and> c \<le> 13) \<or> c = 32)"

definition is_ascii_digit :: "int \<Rightarrow> bool" where
  "is_ascii_digit c = (48 \<le> c \<and> c \<le> 57)"

fun digitpart_rest :: "ustring \<Rightarrow> ustring \<times> ustring" where
  "digitpart_rest [] = ([], [])"
| "digitpart_rest [c] = (if is_ascii_digit c then ([c], []) else ([], [c]))"
| "digitpart_rest (c # d # cs) =
     (if is_ascii_digit c then (let (ds, r) = digitpart_rest (d # cs) in (c # ds, r))
      else if c = 95 \<and> is_ascii_digit d then (let (ds, r) = digitpart_rest cs in (d # ds, r))
      else ([], c # d # cs))"

definition digitpart :: "ustring \<Rightarrow> ustring \<times> ustring" where
  "digitpart s =
     (case s of [] \<Rightarrow> ([], []) | c # cs \<Rightarrow> if is_ascii_digit c then digitpart_rest s else ([], s))"

definition nat_of_digits :: "ustring \<Rightarrow> nat" where
  "nat_of_digits ds = foldl (\<lambda>a c. 10 * a + nat (c - 48)) 0 ds"

definition split_sign :: "ustring \<Rightarrow> bool \<times> ustring" where
  "split_sign s =
     (case s of
        [] \<Rightarrow> (False, [])
      | c # cs \<Rightarrow> if c = 45 then (True, cs) else if c = 43 then (False, cs) else (False, s))"

definition parse_exponent :: "ustring \<Rightarrow> (int \<times> ustring) option" where
  "parse_exponent s =
     (case s of
        [] \<Rightarrow> Some (0, [])
      | c # cs \<Rightarrow>
          if c = 101 \<or> c = 69 then
            (let (neg, r) = split_sign cs; (ds, r') = digitpart r
             in if ds = [] then None
                else Some ((if neg then - int (nat_of_digits ds) else int (nat_of_digits ds)), r'))
          else Some (0, s))"

definition parse_decimal :: "ustring \<Rightarrow> rat option" where
  "parse_decimal s =
     (let (ip, r1) = digitpart s;
          (fp, r2) = (case r1 of [] \<Rightarrow> ([], r1)
                      | c # cs \<Rightarrow> if c = 46 then digitpart cs else ([], r1))
      in if ip = [] \<and> fp = [] then None
         else (case parse_exponent r2 of
                 None \<Rightarrow> None
               | Some (ex, r3) \<Rightarrow>
                   if r3 \<noteq> [] then None
                   else
                     (let m = of_nat (nat_of_digits (ip @ fp)) / (10 ^ length fp) :: rat
                      in Some (if ex < 0 then m / 10 ^ nat (- ex) else m * 10 ^ nat ex))))"

definition TypeError :: exn where
  "TypeError = Exn ''TypeError''"

definition float_of_string :: "ustring \<Rightarrow> exn + pyfloat" where
  "float_of_string s =
     (let a = (if list_all (\<lambda>c. c < 128) s then s else to_ascii s);
          trimmed = rev (dropWhile is_c_space (rev (dropWhile is_c_space a)));
          (neg, body) = split_sign trimmed;
          word = lower body
      in if word = ustr ''inf'' \<or> word = ustr ''infinity'' then Inr (if neg then Neg_inf else Pos_inf)
         else if word = ustr ''nan'' then Inr Nan
         else (case parse_decimal body of
                 None \<Rightarrow> Inl ValueError
               | Some v \<Rightarrow> Inr (Finite (if neg then - v else v))))"

text \<open>
  A cell of the raw grid (an object column of the data frame), by what the transformer
  can observe of it: a string; a number with its \<open>str()\<close> text and its \<open>float()\<close>
  value; a missing value (\<open>nan\<close>, \<open>None\<close>, \<open>NaT\<close>) with its \<open>str()\<close> text; any other
  object (a time stamp, say) with its \<open>str()\<close> text, on which \<open>float()\<close> raises
  \<open>TypeError\<close>.
\<close>

datatype cell = CStr ustring | CNum ustring pyfloat | CMissing ustring | CObj ustring

fun py_str :: "cell \<Rightarrow> ustring" where
  "py_str (CStr s) = s"
| "py_str (CNum s v) = s"
| "py_str (CMissing s) = s"
| "py_str (CObj s) = s"

fun isna :: "cell \<Rightarrow> bool" where
  "isna (CMissing s) = True"
| "isna (CNum s v) = (v = Nan)"
| "isna c = False"

fun is_empty_string :: "cell \<Rightarrow> bool" where
  "is_empty_string (CStr s) = (s = [])"
| "is_empty_string c = False"

fun py_float :: "cell \<Rightarrow> exn + pyfloat" where
  "py_float (CStr s) = float_of_string s"
| "py_float (CNum s v) = Inr v"
| "py_float c = Inl TypeError"

text \<open>\<open>row.iloc[i]\<close> raises \<open>IndexError\<close> out of range.\<close>

definition iloc :: "'a list \<Rightarrow> nat \<Rightarrow> exn + 'a" where
  "iloc row i = (if i < length row then Inr (row ! i) else Inl IndexError)"

section \<open>Header classification: \<open>extract_year_columns\<close>\<close>

text \<open>
  \<open>re.search(r'([A-Za-z]+)-?([A-Za-z]*)?(\d{4})', s)\<close> as the backtracking matcher
  runs it: the leftmost start; group 1 from its longest candidate down to one letter;
  the hyphen first taken, then left; group 2 from its longest candidate down to none;
  four digits. The result is (group 1, group 3).
\<close>

definition four_digits :: "ustring \<Rightarrow> ustring option" where
  "four_digits s = (if 4 \<le> length s \<and> list_all is_digit (take 4 s) then Some (take 4 s) else None)"

fun try_group2 :: "ustring \<Rightarrow> nat \<Rightarrow> ustring option" where
  "try_group2 r 0 = four_digits r"
| "try_group2 r (Suc j) =
     (case four_digits (drop (Suc j) r) of Some y \<Rightarrow> Some y | None \<Rightarrow> try_group2 r j)"

definition after_group1 :: "ustring \<Rightarrow> ustring option" where
  "after_group1 r =
     (case (case r of
              [] \<Rightarrow> None
            | c # r' \<Rightarrow> if c = 45 then try_group2 r' (length (takeWhile is_alpha r')) else None) of
        Some y \<Rightarrow> Some y
      | None \<Rightarrow> try_group2 r (length (takeWhile is_alpha r)))"

fun try_group1 :: "ustring \<Rightarrow> nat \<Rightarrow> (ustring \<times> ustring) option" where
  "try_group1 s 0 = None"
| "try_group1 s (Suc k) =
     (case after_group1 (drop (Suc k) s) of
        Some y \<Rightarrow> Some (take (Suc k) s, y)
      | None \<Rightarrow> try_group1 s k)"

definition match_at :: "ustring \<Rightarrow> (ustring \<times> ustring) option" where
  "match_at s = try_group1 s (length (takeWhile is_alpha s))"

fun re_search :: "ustring \<Rightarrow> (ustring \<times> ustring) option" where
  "re_search [] = None"
| "re_search (c # cs) =
     (case match_at (c # cs) of Some m \<Rightarrow> Some m | None \<Rightarrow> re_search cs)"

text \<open>The loop of \<open>extract_year_columns\<close>; \<open>idx\<close> is the index of the first cell of the list.\<close>

definition non_year_labels :: "ustring list" where
  "non_year_labels =
     [ustr ''S.No.'', ustr ''Country'', ustr ''(R)'', ustr ''%Growth'', ustr ''nan'', []]"

fun extract_from :: "nat \<Rightarrow> cell list \<Rightarrow> (nat \<times> ustring \<times> ustring \<times> ustring) list" where
  "extract_from idx [] = []"
| "extract_from idx (col_name # rest) =
     (let col_str = strip (py_str col_name) in
      if col_str \<in> set non_year_labels
      then extract_from (Suc idx) rest
      else (case re_search col_str of
              Some (month, year) \<Rightarrow> (idx, col_str, year, month) # extract_from (Suc idx) rest
            | None \<Rightarrow> extract_from (Suc idx) rest))"

definition extract_year_columns :: "cell list \<Rightarrow> (nat \<times> ustring \<times> ustring \<times> ustring) list" where
  "extract_year_columns df_header_row = extract_from 0 df_header_row"

section \<open>Wide to long: \<open>process_monthly_file\<close>\<close>

record long_record =
  HSCod :: ustring
  Commodity :: ustring
  Value :: pyfloat
  Country :: ustring
  Date :: ustring
  Type :: ustring

text \<open>What \<open>pd.read_excel(filepath, header=None)\<close> gives: an exception or the grid of cells.\<close>

datatype artifact = Unreadable exn | Sheet "cell list list"

text \<open>The search for the country column, lines 99 to 103.\<close>

fun find_country :: "nat \<Rightarrow> cell list \<Rightarrow> nat option" where
  "find_country idx [] = None"
| "find_country idx (col_name # rest) =
     (if lower (strip (py_str col_name)) = ustr ''country'' then Some idx
      else find_country (Suc idx) rest)"

text \<open>The inner loop over the value columns of one data row, lines 120 to 144.\<close>

fun row_records ::
  "ustring \<Rightarrow> ustring \<Rightarrow> ustring \<Rightarrow> ustring \<Rightarrow> cell list \<Rightarrow> (nat \<times> ustring \<times> ustring \<times> ustring) list
     \<Rightarrow> exn + long_record list" where
  "row_records hscode commodity_name data_type country row [] = Inr []"
| "row_records hscode commodity_name data_type country row ((col_idx, col_name, year, month) # ycs) =
     (case iloc row col_idx of
        Inl e \<Rightarrow> Inl e
      | Inr v \<Rightarrow>
          if isna v \<or> is_empty_string v
          then row_records hscode commodity_name data_type country row ycs
          else (case py_float v of
                  Inl e \<Rightarrow> row_records hscode commodity_name data_type country row ycs
                | Inr value_float \<Rightarrow>
                    (case row_records hscode commodity_name data_type country row ycs of
                       Inl e \<Rightarrow> Inl e
                     | Inr rs \<Rightarrow>
                         Inr (\<lparr>HSCod = hscode, Commodity = commodity_name, Value = value_float,
                               Country = country, Date = month @ ustr ''-'' @ year,
                               Type = data_type\<rparr> # rs))))"

text \<open>The loop over the data rows, lines 112 to 144.\<close>

definition null_countries :: "ustring list" where
  "null_countries = [[], ustr ''nan'', ustr ''None'']"

fun rows_records ::
  "ustring \<Rightarrow> ustring \<Rightarrow> ustring \<Rightarrow> nat \<Rightarrow> (nat \<times> ustring \<times> ustring \<times> ustring) list \<Rightarrow> cell list list
     \<Rightarrow> exn + long_record list" where
  "rows_records hscode commodity_name data_type country_col_idx ycs [] = Inr []"
| "rows_records hscode commodity_name data_type country_col_idx ycs (row # rows) =
     (case iloc row country_col_idx of
        Inl e \<Rightarrow> Inl e
      | Inr c \<Rightarrow>
          (let country = strip (py_str c) in
           if country \<in> set null_countries
           then rows_records hscode commodity_name data_type country_col_idx ycs rows
           else (case row_records hscode commodity_name data_type country row ycs of
                   Inl e \<Rightarrow> Inl e
                 | Inr rs \<Rightarrow>
                     (case rows_records hscode commodity_name data_type country_col_idx ycs rows of
                        Inl e \<Rightarrow> Inl e
                      | Inr rs' \<Rightarrow> Inr (rs @ rs')))))"

text \<open>
  The body of the \<open>try\<close> block of \<open>process_monthly_file\<close>: \<open>Inr None\<close> is
  \<open>return None\<close>, \<open>Inr (Some rs)\<close> the data frame of the records \<open>rs\<close>.
\<close>

definition process_body ::
  "artifact \<Rightarrow> ustring \<Rightarrow> ustring \<Rightarrow> ustring \<Rightarrow> exn + long_record list option" where
  "process_body file hscode commodity_name data_type =
     (case file of
        Unreadable e \<Rightarrow> Inl e
      | Sheet df_raw \<Rightarrow>
          if length df_raw < 3 then Inr None
          else
            (let header_row = df_raw ! 2;
                 data_rows = drop 3 df_raw;
                 year_columns = extract_year_columns header_row
             in if year_columns = [] then Inr None
                else (case find_country 0 header_row of
                        None \<Rightarrow> Inr None
                      | Some country_col_idx \<Rightarrow>
                          (case rows_records hscode commodity_name data_type country_col_idx
                                  year_columns data_rows of
                             Inl e \<Rightarrow> Inl e
                           | Inr long_data \<Rightarrow>
                               if long_data \<noteq> [] then Inr (Some long_data) else Inr None))))"

text \<open>\<open>except Exception as e: print(...); return None\<close>\<close>

definition process_monthly_file ::
  "artifact \<Rightarrow> ustring \<Rightarrow> ustring \<Rightarrow> ustring \<Rightarrow> long_record list option" where
  "process_monthly_file file hscode commodity_name data_type =
     (case process_body file hscode commodity_name data_type of
        Inl e \<Rightarrow> None
      | Inr r \<Rightarrow> r)"

section \<open>Aggregation: \<open>process_hscode_directory\<close> and \<open>merge_excel_files\<close>\<close>

text \<open>
  \<open>DataFrame.drop_duplicates(subset, keep='first')\<close>: a row is dropped when the
  columns of \<open>subset\<close> repeat those of an earlier row.
\<close>

fun drop_duplicates_from :: "('a \<Rightarrow> 'k) \<Rightarrow> 'k list \<Rightarrow> 'a list \<Rightarrow> 'a list" where
  "drop_duplicates_from key seen [] = []"
| "drop_duplicates_from key seen (x # xs) =
     (if key x \<in> set seen then drop_duplicates_from key seen xs
      else x # drop_duplicates_from key (key x # seen) xs)"

definition drop_duplicates :: "('a \<Rightarrow> 'k) \<Rightarrow> 'a list \<Rightarrow> 'a list" where
  "drop_duplicates key xs = drop_duplicates_from key [] xs"

text \<open>\<open>subset=['HSCod', 'Country', 'Date']\<close>\<close>

definition dedup_key :: "long_record \<Rightarrow> ustring \<times> ustring \<times> ustring" where
  "dedup_key r = (HSCod r, Country r, Date r)"

text \<open>
  A code directory is the list of its entries in the order of \<open>os.listdir\<close>, each with
  what reading it as a spreadsheet gives. The default \<open>data_type\<close> is \<open>"Export"\<close>.
\<close>

definition read_entry :: "(ustring \<times> artifact) list \<Rightarrow> ustring \<Rightarrow> artifact" where
  "read_entry listing filename =
     (case map_of listing filename of
        None \<Rightarrow> Unreadable (Exn ''FileNotFoundError'')
      | Some a \<Rightarrow> a)"

definition excel_files :: "(ustring \<times> artifact) list \<Rightarrow> ustring list" where
  "excel_files listing = sort (filter (\<lambda>f. endswith f (ustr ''.xlsx'')) (map fst listing))"

text \<open>The loop of lines 171 to 179: the list \<open>all_data\<close> of non-empty frames.\<close>

fun collect_frames ::
  "(ustring \<times> artifact) list \<Rightarrow> ustring \<Rightarrow> ustring \<Rightarrow> ustring list \<Rightarrow> long_record list list" where
  "collect_frames listing hscode commodity_name [] = []"
| "collect_frames listing hscode commodity_name (filename # rest) =
     (case process_monthly_file (read_entry listing filename) hscode commodity_name (ustr ''Export'') of
        None \<Rightarrow> collect_frames listing hscode commodity_name rest
      | Some df_long \<Rightarrow>
          if length df_long > 0
          then df_long # collect_frames listing hscode commodity_name rest
          else collect_frames listing hscode commodity_name rest)"

definition process_hscode_directory ::
  "(ustring \<times> artifact) list \<Rightarrow> ustring \<Rightarrow> ustring \<Rightarrow> long_record list option" where
  "process_hscode_directory listing hscode commodity_name =
     (let all_data = collect_frames listing hscode commodity_name (excel_files listing)
      in if all_data \<noteq> [] then Some (drop_duplicates dedup_key (concat all_data)) else None)"

text \<open>
  \<open>merge_excel_files\<close> up to its deduplication (line 86): the files of the transformed
  directory in the order of \<open>os.listdir\<close>, each an exception or a frame with its column
  names and rows.
\<close>

datatype frame_read = Read_error exn | Frame "ustring list" "long_record list"

fun contains :: "'a list \<Rightarrow> 'a list \<Rightarrow> bool" where
  "contains sub [] = (sub = [])"
| "contains sub (c # cs) = (take (length sub) (c # cs) = sub \<or> contains sub cs)"

definition expected_columns :: "ustring list" where
  "expected_columns =
     [ustr ''HSCod'', ustr ''Commodity'', ustr ''Value'', ustr ''Country'', ustr ''Date'', ustr ''Type'']"

fun load_frames :: "(ustring \<times> frame_read) list \<Rightarrow> long_record list list" where
  "load_frames [] = []"
| "load_frames ((filename, Read_error e) # rest) = load_frames rest"
| "load_frames ((filename, Frame columns rows) # rest) =
     (if \<not> list_all (\<lambda>col. col \<in> set columns) expected_columns then load_frames rest
      else rows # load_frames rest)"

definition mergeable_files :: "(ustring \<times> frame_read) list \<Rightarrow> (ustring \<times> frame_read) list" where
  "mergeable_files listing =
     filter (\<lambda>(f, _). endswith f (ustr ''.xlsx'') \<and> \<not> contains (ustr ''consolidated'') (lower f)) listing"

definition merge_excel_files :: "(ustring \<times> frame_read) list \<Rightarrow> long_record list option" where
  "merge_excel_files listing =
     (let excel_files = mergeable_files listing
      in if excel_files = [] then None
         else (let all_dataframes = load_frames excel_files
               in if all_dataframes = [] then None
                  else Some (drop_duplicates dedup_key (concat all_dataframes))))"

section \<open>Observing a run\<close>

text \<open>The events a run adds to the log, and the network interactions among them.\<close>

definition new_events :: "state \<Rightarrow> state \<Rightarrow> event list" where
  "new_events st st' = drop (length (log st)) (log st')"

fun is_request :: "event \<Rightarrow> bool" where
  "is_request (Net_get hscode month year) = True"
| "is_request ev = False"

definition network_requests :: "event list \<Rightarrow> event list" where
  "network_requests evs = filter is_request evs"

text \<open>A later state of a run: the log has only grown and no path has disappeared.\<close>

definition extends :: "state \<Rightarrow> state \<Rightarrow> bool" where
  "extends st st' =
     ((\<exists>evs. log st' = log st @ evs) \<and>
      (\<forall>p. path_exists (tree st) p \<longrightarrow> path_exists (tree st') p))"

text \<open>The records that one file of a code directory contributes to the aggregation.\<close>

definition file_records ::
  "(ustring \<times> artifact) list \<Rightarrow> ustring \<Rightarrow> ustring \<Rightarrow> ustring \<Rightarrow> long_record list" where
  "file_records listing hscode commodity_name filename =
     (case process_monthly_file (read_entry listing filename) hscode commodity_name (ustr ''Export'') of
        None \<Rightarrow> []
      | Some rs \<Rightarrow> rs)"

section \<open>Concrete inputs\<close>

text \<open>A wall-clock reading in March 2025 and a storage tree for one code.\<close>

definition march_2025 :: now_t where
  "march_2025 = \<lparr>now_year = 2025, now_month = 3\<rparr>"

definition tree_2025 :: tree where
  "tree_2025 = map_of
     [(''data/import/26011100'', Dir),
      (''data/import/26011100/January_2025.xlsx'', File ''jan''),
      (''data/import/26011100/February_2025.xlsx'', File ''feb''),
      (''data/import/26011100/March_2025.xlsx'', File ''mar'')]"


text \<open>A fresh run state, January and February 2018 as wall-clock readings, and four ways the
  remote side can answer a request: no export button; a failure while the form is filled;
  a download that completes in the staging directory; an export click after which only a
  stale file is listed.\<close>

definition empty_state :: state where
  "empty_state = \<lparr>tree = Map.empty, staging = [], clock = 0, requests = 0, log = []\<rparr>"

definition jan_2018 :: now_t where
  "jan_2018 = \<lparr>now_year = 2018, now_month = 1\<rparr>"

definition feb_2018 :: now_t where
  "feb_2018 = \<lparr>now_year = 2018, now_month = 2\<rparr>"

definition no_data_response :: response where
  "no_data_response =
     \<lparr>form_phase = None, excel_button = False, excel_click = None,
      downloads = (\<lambda>t. []), poll_error = (\<lambda>t. None), move_error = None\<rparr>"

definition failing_response :: response where
  "failing_response =
     \<lparr>form_phase = Some (Exn ''TimeoutException''), excel_button = False, excel_click = None,
      downloads = (\<lambda>t. []), poll_error = (\<lambda>t. None), move_error = None\<rparr>"

definition saving_response :: response where
  "saving_response =
     \<lparr>form_phase = None, excel_button = True, excel_click = None,
      downloads = (\<lambda>t. if t < 4
         then [\<lparr>sf_name = ''report.xlsx.crdownload'', sf_ctime = t, sf_mtime = t, sf_data = ''part''\<rparr>]
         else [\<lparr>sf_name = ''report.xlsx'', sf_ctime = t, sf_mtime = t, sf_data = ''sheet''\<rparr>]),
      poll_error = (\<lambda>t. None), move_error = None\<rparr>"

definition silent_response :: response where
  "silent_response =
     \<lparr>form_phase = None, excel_button = True, excel_click = None,
      downloads = (\<lambda>t. [\<lparr>sf_name = ''old.xlsx'', sf_ctime = 0, sf_mtime = 0, sf_data = ''stale''\<rparr>]),
      poll_error = (\<lambda>t. None), move_error = None\<rparr>"

text \<open>The state after a first run in January 2018 in which the download of the only period succeeds.\<close>

definition after_first_run :: state where
  "after_first_run =
     snd (scrape_commodity_data (\<lambda>n. saving_response) jan_2018 [''26011100''] empty_state)"

text \<open>
  The synthetic artifact of the round-trip test: two metadata rows, the header row and
  one data row, all cells strings; and the same sheet as a spreadsheet reader delivers it,
  with numbers for the numeric cells and a missing value for the empty cell.
\<close>

definition synthetic_header :: "cell list" where
  "synthetic_header =
     [CStr (ustr ''S.No.''), CStr (ustr ''Country''), CStr (ustr ''Apr-2020''),
      CStr (ustr ''May-2020''), CStr (ustr ''%Growth'')]"

definition synthetic_row :: "cell list" where
  "synthetic_row =
     [CStr (ustr ''1''), CStr (ustr ''Germany''), CStr (ustr ''12.5''), CStr [], CStr (ustr ''3%'')]"

definition synthetic_row_typed :: "cell list" where
  "synthetic_row_typed =
     [CNum (ustr ''1'') (Finite 1), CStr (ustr ''Germany''), CNum (ustr ''12.5'') (Finite 12.5),
      CMissing (ustr ''nan''), CStr (ustr ''3%'')]"

text \<open>
  Two monthly files of one code that both report Germany for the column \<open>Apr-2018\<close>, with
  different values, listed by the directory in chronological order.
\<close>

definition sheet_with_value :: "string \<Rightarrow> artifact" where
  "sheet_with_value v =
     Sheet [[CStr (ustr ''title'')], [CStr (ustr ''unit'')],
            [CStr (ustr ''S.No.''), CStr (ustr ''Country''), CStr (ustr ''Apr-2018'')],
            [CStr (ustr ''1''), CStr (ustr ''Germany''), CStr (ustr v)]]"

definition two_months :: "(ustring \<times> artifact) list" where
  "two_months =
     [(ustr ''August_2018.xlsx'', sheet_with_value ''1.0''),
      (ustr ''April_2019.xlsx'', sheet_with_value ''2.0'')]"

text \<open>
  Two monthly files of one code with several countries and two value columns: Germany
  for \<open>Apr-2018\<close> is in both files, every other (country, date) pair is in one of them.
\<close>

definition sheet_of_rows :: "(string \<times> string \<times> string) list \<Rightarrow> artifact" where
  "sheet_of_rows rows =
     Sheet ([[CStr (ustr ''title'')], [CStr (ustr ''unit'')],
             [CStr (ustr ''S.No.''), CStr (ustr ''Country''), CStr (ustr ''Apr-2018''),
              CStr (ustr ''May-2018'')]] @
            map (\<lambda>(country, apr, may).
                   [CStr (ustr ''1''), CStr (ustr country), CStr (ustr apr), CStr (ustr may)]) rows)"

definition several_keys :: "(ustring \<times> artifact) list" where
  "several_keys =
     [(ustr ''August_2018.xlsx'',
         sheet_of_rows [(''Germany'', ''1.0'', ''5.0''), (''France'', ''3.0'', [])]),
      (ustr ''April_2019.xlsx'',
         sheet_of_rows [(''Germany'', ''2.0'', []), (''Italy'', ''4.0'', [])])]"

definition export_record :: "string \<Rightarrow> string \<Rightarrow> string \<Rightarrow> rat \<Rightarrow> long_record" where
  "export_record hscode country date v =
     \<lparr>HSCod = ustr hscode, Commodity = ustr ''Iron ore'', Value = Finite v,
      Country = ustr country, Date = ustr date, Type = ustr ''Export''\<rparr>"

text \<open>
  Two transformed files of two codes; the second repeats a key of the first with another
  value and repeats a key of its own.
\<close>

definition transformed_files :: "(ustring \<times> frame_read) list" where
  "transformed_files =
     [(ustr ''26011100.xlsx'', Frame expected_columns
         [export_record ''26011100'' ''Germany'' ''Apr-2018'' 2,
          export_record ''26011100'' ''Italy'' ''Apr-2018'' 4]),
      (ustr ''26011200.xlsx'', Frame expected_columns
         [export_record ''26011200'' ''Germany'' ''Apr-2018'' 7,
          export_record ''26011100'' ''Germany'' ''Apr-2018'' 1,
          export_record ''26011200'' ''Germany'' ''Apr-2018'' 8,
          export_record ''26011200'' ''Germany'' ''May-2018'' 9]),
      (ustr ''consolidated_all_hscodes.xlsx'', Frame expected_columns
         [export_record ''26011300'' ''Germany'' ''Apr-2018'' 6])]"

text \<open>A directory with a file that has no country column between two well-formed files.\<close>

definition no_country_sheet :: artifact where
  "no_country_sheet =
     Sheet [[CStr (ustr ''title'')], [CStr (ustr ''unit'')],
            [CStr (ustr ''S.No.''), CStr (ustr ''Partner''), CStr (ustr ''Apr-2018'')],
            [CStr (ustr ''1''), CStr (ustr ''Germany''), CStr (ustr ''7'')]]"

definition mixed_directory :: "(ustring \<times> artifact) list" where
  "mixed_directory =
     [(ustr ''August_2018.xlsx'', sheet_with_value ''1.0''), (ustr ''July_2018.xlsx'', no_country_sheet),
      (ustr ''notes.txt'', Unreadable (Exn ''BadZipFile''))]"

text \<open>
  A sheet whose header cells carry Unicode white space (a no-break space U+00A0 after
  \<open>Country\<close>, an em space U+2003 before the value column) and whose value is written
  with Arabic-Indic digits between no-break spaces; and a header that names its year
  column with full-width digits.
\<close>

definition unicode_sheet :: artifact where
  "unicode_sheet =
     Sheet [[CStr (ustr ''title'')], [CStr (ustr ''unit'')],
            [CStr (ustr ''S.No.''), CStr (ustr ''Country'' @ [160]), CStr (8195 # ustr ''Apr-2018'')],
            [CStr (ustr ''1''), CStr (133 # ustr ''Germany'' @ [8239]), CStr [160, 1633, 1634, 46, 1637, 160]]]"

definition fullwidth_header :: "cell list" where
  "fullwidth_header =
     [CStr (ustr ''Country''), CStr (ustr ''Apr-'' @ [65298, 65296, 65297, 65304])]"

section \<open>The period grid and the completion oracle\<close>

lemma visited_months_sorted:
  "sorted ms \<Longrightarrow>
   visited_months now y ms = filter (\<lambda>m. \<not> (y = now_year now \<and> m > now_month now)) ms"
proof (induction ms)
  case Nil
  then show ?case by simp
next
  case (Cons m ms)
  show ?case
  proof (cases "y = now_year now \<and> m > now_month now")
    case True
    have "\<forall>k\<in>set ms. y = now_year now \<and> k > now_month now"
      using Cons.prems True by auto
    then have "filter (\<lambda>m. \<not> (y = now_year now \<and> m > now_month now)) ms = []"
      by (simp add: filter_empty_conv)
    with True show ?thesis by simp
  next
    case False
    with Cons show ?thesis by simp
  qed
qed

lemma set_visited_months:
  "set (visited_months now y [1..12]) =
   {m. 1 \<le> m \<and> m \<le> 12 \<and> \<not> (y = now_year now \<and> m > now_month now)}"
  by (auto simp: visited_months_sorted)

lemma set_period_grid:
  "set (period_grid now s e) =
   {(y, m). s \<le> y \<and> y \<le> e \<and> 1 \<le> m \<and> m \<le> 12 \<and> \<not> (y = now_year now \<and> m > now_month now)}"
  by (auto simp: period_grid_def set_visited_months)

lemma check_months_True:
  "check_months t now d y ms = Inr True \<longleftrightarrow>
   (\<forall>m\<in>set (visited_months now y ms). artifact_present t d (y, m))"
  by (induction ms) (auto simp: artifact_present_def split: sum.splits)

lemma check_years_True:
  "check_years t now d ys = Inr True \<longleftrightarrow>
   (\<forall>y\<in>set ys. \<forall>m\<in>set (visited_months now y [1..12]). artifact_present t d (y, m))"
proof (induction ys)
  case Nil
  then show ?case by simp
next
  case (Cons y ys)
  show ?case
  proof (cases "check_months t now d y [1..12] = Inr True")
    case True
    then show ?thesis using Cons check_months_True [of t now d y "[1..12]"] by simp
  next
    case False
    then have "check_years t now d (y # ys) \<noteq> Inr True"
      by (auto split: sum.splits bool.splits)
    then show ?thesis using False check_months_True [of t now d y "[1..12]"] by auto
  qed
qed

lemma is_hscode_completed_grid:
  "is_hscode_completed t now d s e = Inr True \<longleftrightarrow>
   path_exists t d \<and> (\<forall>p\<in>set (period_grid now s e). artifact_present t d p)"
  unfolding is_hscode_completed_def period_grid_def
  by (auto simp: check_years_True)

lemma check_months_no_raise:
  "1 \<le> y \<Longrightarrow> y \<le> 9999 \<Longrightarrow> \<forall>m\<in>set ms. 1 \<le> m \<and> m \<le> 12 \<Longrightarrow>
   check_months t now d y ms \<noteq> Inl x"
  by (induction ms) (auto simp: month_name_def)

lemma check_years_no_raise:
  "\<forall>y\<in>set ys. 1 \<le> y \<and> y \<le> 9999 \<Longrightarrow> check_years t now d ys \<noteq> Inl x"
proof (induction ys)
  case Nil
  then show ?case by simp
next
  case (Cons y ys)
  have "check_months t now d y [1..12] \<noteq> Inl x"
    using Cons.prems by (intro check_months_no_raise) auto
  then show ?case using Cons by (auto split: sum.splits bool.splits)
qed

lemma is_hscode_completed_no_raise:
  assumes "1 \<le> s" and "e \<le> 9999"
  shows "\<exists>b. is_hscode_completed t now d s e = Inr b"
proof (cases "is_hscode_completed t now d s e")
  case (Inl x)
  have "check_years t now d [s..e] \<noteq> Inl x"
    using assms by (intro check_years_no_raise) auto
  with Inl show ?thesis by (auto simp: is_hscode_completed_def split: if_splits)
next
  case (Inr b)
  then show ?thesis by blast
qed

lemma spec_is_complete_iff:
  "spec_is_complete t now d s e \<longleftrightarrow>
   path_exists t d \<and>
   (\<forall>y m. s \<le> y \<and> y \<le> e \<and> 1 \<le> m \<and> m \<le> 12 \<and> \<not> in_future now (y, m) \<longrightarrow>
      artifact_present t d (y, m))"
proof -
  have "list_all (\<lambda>year. list_all (\<lambda>month.
          in_future now (year, month) \<or> artifact_present t d (year, month)) [1..12]) [s..e] \<longleftrightarrow>
        (\<forall>y m. s \<le> y \<and> y \<le> e \<and> 1 \<le> m \<and> m \<le> 12 \<and> \<not> in_future now (y, m) \<longrightarrow>
           artifact_present t d (y, m))"
    unfolding list_all_iff by (simp add: Ball_def) metis
  then show ?thesis unfolding spec_is_complete_def by simp
qed


text \<open>
  The oracle without a code directory, and at an end year that is not after the current
  year, which is how the driver calls it (line 132, with \<open>current_year\<close>): there it
  answers true exactly when every period of the range that is not in the future has its
  artifact.
\<close>

lemma is_hscode_completed_missing_directory:
  "\<not> path_exists t d \<Longrightarrow> is_hscode_completed t now d s e = Inr False"
  by (simp add: is_hscode_completed_def)

lemma is_hscode_completed_up_to_current_year:
  assumes le: "e \<le> now_year now"
  shows "is_hscode_completed t now d s e = Inr True \<longleftrightarrow> spec_is_complete t now d s e"
proof -
  have grid: "is_hscode_completed t now d s e = Inr True \<longleftrightarrow>
      path_exists t d \<and>
      (\<forall>y m. s \<le> y \<and> y \<le> e \<and> 1 \<le> m \<and> m \<le> 12 \<and> \<not> (y = now_year now \<and> m > now_month now) \<longrightarrow>
         artifact_present t d (y, m))"
    unfolding is_hscode_completed_grid set_period_grid by auto
  have "\<And>y m. y \<le> e \<Longrightarrow> in_future now (y, m) = (y = now_year now \<and> m > now_month now)"
    using le by (auto simp: in_future_def)
  then show ?thesis
    unfolding grid spec_is_complete_iff by auto
qed


section \<open>The reconciler and one request cycle\<close>

lemma max_ctime_mem: "max_ctime b fs \<in> set (b # fs)"
  by (induction fs arbitrary: b) auto

lemma get_latest_file_Some:
  assumes "get_latest_file directory = Some f"
  shows "f \<in> set directory \<and> \<not> in_progress (sf_name f)"
proof -
  let ?files = "filter (\<lambda>f. \<not> endswith (sf_name f) ''.crdownload'' \<and> \<not> endswith (sf_name f) ''.tmp'')
             (glob_star directory)"
  from assms obtain g gs where g: "?files = g # gs" and f: "f = max_ctime g gs"
    unfolding get_latest_file_def by (auto split: list.splits)
  have "f \<in> set ?files" using max_ctime_mem [of g gs] g f by simp
  then show ?thesis by (auto simp: glob_star_def in_progress_def)
qed

lemma wait_for_download_found:
  "wait_for_download r stg s t = (Inr (Some f), t') \<Longrightarrow>
   get_latest_file (stg @ downloads r t') = Some f \<and> sf_mtime f > s \<and> t \<le> t' \<and> t' - s < 60"
proof (induction r stg s t rule: wait_for_download.induct)
  case (1 r stg s t)
  show ?case
  proof (cases "t - s < 60")
    case False
    with "1.prems" show ?thesis by (simp add: wait_for_download.simps [of r stg s t])
  next
    case True
    note window = True
    show ?thesis
    proof (cases "poll_error r t")
      case (Some e)
      with window "1.prems" show ?thesis by (simp add: wait_for_download.simps [of r stg s t])
    next
      case None
      note no_err = None
      show ?thesis
      proof (cases "get_latest_file (stg @ downloads r t)")
        case None
        with window no_err "1.prems" have "wait_for_download r stg s (t + 1) = (Inr (Some f), t')"
          by (simp add: wait_for_download.simps [of r stg s t])
        with "1.IH"(1) [OF window no_err None] show ?thesis by simp
      next
        case (Some latest)
        show ?thesis
        proof (cases "sf_mtime latest > s")
          case True
          with window no_err Some "1.prems" show ?thesis
            by (simp add: wait_for_download.simps [of r stg s t])
        next
          case False
          with window no_err Some "1.prems"
          have "wait_for_download r stg s (t + 1) = (Inr (Some f), t')"
            by (simp add: wait_for_download.simps [of r stg s t])
          with "1.IH"(2) [OF window no_err Some False] show ?thesis by simp
        qed
      qed
    qed
  qed
qed

lemma wait_for_download_timeout:
  "\<forall>u. t \<le> u \<and> u < s + 60 \<longrightarrow>
      poll_error r u = None \<and>
      (\<forall>f\<in>set (stg @ downloads r u). \<not> in_progress (sf_name f) \<longrightarrow> sf_mtime f \<le> s) \<Longrightarrow>
   t \<le> s + 60 \<Longrightarrow>
   wait_for_download r stg s t = (Inr None, s + 60)"
proof (induction r stg s t rule: wait_for_download.induct)
  case (1 r stg s t)
  show ?case
  proof (cases "t - s < 60")
    case False
    with "1.prems" have "t = s + 60" by simp
    then show ?thesis by (subst wait_for_download.simps) simp
  next
    case True
    then have here: "t \<le> t \<and> t < s + 60" by simp
    with "1.prems"(1) have no_err: "poll_error r t = None"
      and old: "\<forall>f\<in>set (stg @ downloads r t). \<not> in_progress (sf_name f) \<longrightarrow> sf_mtime f \<le> s"
      by blast+
    have later: "\<forall>u. t + 1 \<le> u \<and> u < s + 60 \<longrightarrow>
        poll_error r u = None \<and>
        (\<forall>f\<in>set (stg @ downloads r u). \<not> in_progress (sf_name f) \<longrightarrow> sf_mtime f \<le> s)"
    proof (intro allI impI)
      fix u
      assume "t + 1 \<le> u \<and> u < s + 60"
      then have "t \<le> u \<and> u < s + 60" by simp
      with "1.prems"(1) show "poll_error r u = None \<and>
        (\<forall>f\<in>set (stg @ downloads r u). \<not> in_progress (sf_name f) \<longrightarrow> sf_mtime f \<le> s)"
        by blast
    qed
    have bound: "t + 1 \<le> s + 60" using True by simp
    show ?thesis
    proof (cases "get_latest_file (stg @ downloads r t)")
      case None
      from "1.IH"(1) [OF True no_err None later bound] True no_err None show ?thesis
        by (simp add: wait_for_download.simps [of r stg s t])
    next
      case (Some latest)
      with get_latest_file_Some old have stale: "\<not> sf_mtime latest > s" by fastforce
      from "1.IH"(2) [OF True no_err Some stale later bound] True no_err Some stale show ?thesis
        by (simp add: wait_for_download.simps [of r stg s t])
    qed
  qed
qed


lemma request_cycle_form_error:
  "form_phase r = Some e \<Longrightarrow>
   request_cycle r h y m mn tp st =
     (Raised e, emit (Net_get h m y) (st\<lparr>requests := Suc (requests st)\<rparr>))"
  by (simp add: request_cycle_def)

lemma request_cycle_no_button:
  "form_phase r = None \<Longrightarrow> \<not> excel_button r \<Longrightarrow>
   request_cycle r h y m mn tp st =
     (No_data, emit (Print_no_data mn y) (emit (Net_get h m y) (st\<lparr>requests := Suc (requests st)\<rparr>)))"
  by (simp add: request_cycle_def)

lemma request_cycle_click_error:
  "form_phase r = None \<Longrightarrow> excel_button r \<Longrightarrow> excel_click r = Some e \<Longrightarrow>
   request_cycle r h y m mn tp st =
     (Raised e, emit Click_download (sleep 2 (emit (Net_get h m y) (st\<lparr>requests := Suc (requests st)\<rparr>))))"
  by (simp add: request_cycle_def)

lemma request_cycle_polled:
  assumes "form_phase r = None" and "excel_button r" and "excel_click r = None"
    and "st2 = emit Click_download (sleep 2 (emit (Net_get h m y) (st\<lparr>requests := Suc (requests st)\<rparr>)))"
    and "wait_for_download r (staging st2) (clock st2) (clock st2) = (found, t)"
    and "st3 = st2\<lparr>clock := t, staging := staging st2 @ downloads r t\<rparr>"
  shows "request_cycle r h y m mn tp st =
     (case found of
        Inl e \<Rightarrow> (Raised e, st3)
      | Inr None \<Rightarrow> (Timed_out, emit Print_timeout st3)
      | Inr (Some new_file) \<Rightarrow>
          (case move_error r of
             Some e \<Rightarrow> (Raised e, sleep 1 st3)
           | None \<Rightarrow>
              (Saved, emit (Print_saved (target_filename mn y))
                 (move_file new_file tp (staging (sleep 1 st3)) (sleep 1 st3)))))"
  using assms(1,2,3,5) unfolding assms(6) assms(4) request_cycle_def Let_def by simp

lemma request_cycle_shape:
  assumes "request_cycle r h y m mn tp st = (res, st')"
  shows "requests st' = Suc (requests st)"
    and "\<exists>evs. log st' = log st @ Net_get h m y # evs \<and> network_requests evs = []"
    and "res \<noteq> Saved \<Longrightarrow> tree st' = tree st"
    and "res = Saved \<Longrightarrow> \<exists>n. tree st' = (tree st)(tp \<mapsto> n)"
proof -
  define st2 where "st2 = emit Click_download (sleep 2 (emit (Net_get h m y) (st\<lparr>requests := Suc (requests st)\<rparr>)))"
  obtain found t where w: "wait_for_download r (staging st2) (clock st2) (clock st2) = (found, t)"
    by (cases "wait_for_download r (staging st2) (clock st2) (clock st2)")
  define st3 where "st3 = st2\<lparr>clock := t, staging := staging st2 @ downloads r t\<rparr>"
  have st2: "requests st2 = Suc (requests st)" "tree st2 = tree st"
    "log st2 = log st @ [Net_get h m y, Sleep 2, Click_download]"
    by (simp_all add: st2_def emit_def sleep_def)
  have st3: "requests st3 = Suc (requests st)" "tree st3 = tree st"
    "log st3 = log st @ [Net_get h m y, Sleep 2, Click_download]"
    using st2 by (simp_all add: st3_def)
  have all: "requests st' = Suc (requests st) \<and>
    (\<exists>evs. log st' = log st @ Net_get h m y # evs \<and> network_requests evs = []) \<and>
    (res \<noteq> Saved \<longrightarrow> tree st' = tree st) \<and>
    (res = Saved \<longrightarrow> (\<exists>n. tree st' = (tree st)(tp \<mapsto> n)))"
  proof (cases "form_phase r")
    case (Some e)
    from assms request_cycle_form_error [OF Some, of h y m mn tp st] show ?thesis
      by (auto simp: emit_def network_requests_def)
  next
    case None
    note form = None
    show ?thesis
    proof (cases "excel_button r")
      case False
      from assms request_cycle_no_button [OF form False, of h y m mn tp st] show ?thesis
        by (auto simp: emit_def network_requests_def)
    next
      case True
      note button = True
      show ?thesis
      proof (cases "excel_click r")
        case (Some e)
        from assms request_cycle_click_error [OF form button Some, of h y m mn tp st] show ?thesis
          by (auto simp: emit_def sleep_def network_requests_def)
      next
        case None
        note eq = request_cycle_polled [OF form button None st2_def w st3_def, of mn tp]
        show ?thesis
        proof (cases found)
          case (Inl e)
          with assms eq st3 show ?thesis by (auto simp: network_requests_def)
        next
          case (Inr found_file)
          show ?thesis
          proof (cases found_file)
            case None
            with Inr assms eq st3 show ?thesis by (auto simp: emit_def network_requests_def)
          next
            case (Some new_file)
            show ?thesis
            proof (cases "move_error r")
              case None
              with Some Inr assms eq st3 show ?thesis
                by (auto simp: emit_def sleep_def move_file_def network_requests_def
                    intro: exI [of _ "File (sf_data new_file)"])
            next
              case (Some e)
              with \<open>found_file = Some new_file\<close> Inr assms eq st3 show ?thesis
                by (auto simp: sleep_def network_requests_def)
            qed
          qed
        qed
      qed
    qed
  qed
  from all show "requests st' = Suc (requests st)" by blast
  from all show "\<exists>evs. log st' = log st @ Net_get h m y # evs \<and> network_requests evs = []" by blast
  from all show "res \<noteq> Saved \<Longrightarrow> tree st' = tree st" by blast
  from all show "res = Saved \<Longrightarrow> \<exists>n. tree st' = (tree st)(tp \<mapsto> n)" by blast
qed

lemma download_period_log:
  "\<exists>evs. log (download_period env h y m mn tp st) =
      log st @ Print_downloading mn y # Net_get h m y # evs \<and> network_requests evs = []"
proof -
  let ?st0 = "emit (Print_downloading mn y) st"
  obtain res st1 where c: "request_cycle (env (requests ?st0)) h y m mn tp ?st0 = (res, st1)"
    by (cases "request_cycle (env (requests ?st0)) h y m mn tp ?st0")
  from request_cycle_shape(2) [OF c] obtain evs
    where l: "log st1 = log ?st0 @ Net_get h m y # evs" and n: "network_requests evs = []"
    by blast
  show ?thesis
  proof (cases res)
    case (Raised e)
    with c l n show ?thesis
      by (intro exI [of _ "evs @ [Print_error mn y e]"])
         (simp add: download_period_def emit_def network_requests_def)
  qed (use c l n in \<open>auto simp: download_period_def emit_def\<close>)
qed

lemma download_period_tree:
  "tree (download_period env h y m mn tp st) = tree st \<or>
   (\<exists>n. tree (download_period env h y m mn tp st) = (tree st)(tp \<mapsto> n))"
proof -
  let ?st0 = "emit (Print_downloading mn y) st"
  obtain res st1 where c: "request_cycle (env (requests ?st0)) h y m mn tp ?st0 = (res, st1)"
    by (cases "request_cycle (env (requests ?st0)) h y m mn tp ?st0")
  have "tree st1 = tree st \<or> (\<exists>n. tree st1 = (tree st)(tp \<mapsto> n))"
    using request_cycle_shape(3,4) [OF c] by (cases "res = Saved") (auto simp: emit_def)
  then show ?thesis using c by (cases res) (auto simp: download_period_def emit_def)
qed

section \<open>The loops of the driver\<close>

lemma extends_refl: "extends st st"
  by (simp add: extends_def)

lemma extends_trans: "extends a b \<Longrightarrow> extends b c \<Longrightarrow> extends a c"
  by (auto simp: extends_def)

lemma extends_emit: "extends st (emit ev st)"
  by (simp add: extends_def emit_def)

lemma new_events_emit: "new_events st (emit ev st) = [ev]"
  by (simp add: new_events_def emit_def)

lemma new_events_trans:
  "extends a b \<Longrightarrow> extends b c \<Longrightarrow> new_events a c = new_events a b @ new_events b c"
  by (auto simp: extends_def new_events_def)

lemma new_events_refl: "new_events st st = []"
  by (simp add: new_events_def)

lemma artifact_present_extends:
  "extends st st' \<Longrightarrow> artifact_present (tree st) d p \<Longrightarrow> artifact_present (tree st') d p"
  by (auto simp: extends_def artifact_present_def split: sum.splits)

lemma extends_download_period: "extends st (download_period env h y m mn tp st)"
  using download_period_log [of env h y m mn tp st] download_period_tree [of env h y m mn tp st]
  by (auto simp: extends_def path_exists_def)

lemma new_events_download_period:
  "network_requests (new_events st (download_period env h y m mn tp st)) = [Net_get h m y]"
  using download_period_log [of env h y m mn tp st]
  by (auto simp: new_events_def network_requests_def)

lemma months_loop_run:
  "months_loop env now h dir y ms st = (e, st') \<Longrightarrow>
   extends st st' \<and>
   (\<forall>ev\<in>set (network_requests (new_events st st')).
      \<exists>m. ev = Net_get h m y \<and> m \<in> set (visited_months now y ms) \<and>
          \<not> artifact_present (tree st) dir (y, m)) \<and>
   (e = None \<longrightarrow>
      (\<forall>m\<in>set (visited_months now y ms).
         artifact_present (tree st') dir (y, m) \<or> Net_get h m y \<in> set (new_events st st')))"
proof (induction ms arbitrary: st)
  case Nil
  then show ?case by (simp add: extends_refl new_events_refl network_requests_def)
next
  case (Cons m ms)
  show ?case
  proof (cases "y = now_year now \<and> m > now_month now")
    case True
    with Cons.prems show ?thesis
      by (auto simp: extends_refl new_events_refl network_requests_def)
  next
    case False
    note not_future = False
    show ?thesis
    proof (cases "month_name y m")
      case (Inl x)
      with not_future Cons.prems show ?thesis
        by (auto simp: extends_refl new_events_refl network_requests_def)
    next
      case (Inr mn)
      let ?tp = "path_join dir (target_filename mn y)"
      have present: "artifact_present t dir (y, m) = path_exists t ?tp" for t
        using Inr by (simp add: artifact_present_def)
      have vis: "visited_months now y (m # ms) = m # visited_months now y ms"
        using not_future by simp
      show ?thesis
      proof (cases "path_exists (tree st) ?tp")
        case True
        with not_future Inr Cons.prems have rec: "months_loop env now h dir y ms st = (e, st')"
          by (auto simp: Let_def split: if_splits)
        note IH = Cons.IH [OF rec]
        from IH have ext: "extends st st'" by blast
        have "artifact_present (tree st') dir (y, m)"
          using artifact_present_extends [OF ext] present True by blast
        with IH show ?thesis unfolding vis by auto
      next
        case False
        let ?st1 = "download_period env h y m mn ?tp st"
        from False not_future Inr Cons.prems
        have rec: "months_loop env now h dir y ms ?st1 = (e, st')"
          by (auto simp: Let_def split: if_splits)
        note IH = Cons.IH [OF rec]
        have e1: "extends st ?st1" by (rule extends_download_period)
        from IH have e2: "extends ?st1 st'" by blast
        have ext: "extends st st'" using e1 e2 by (rule extends_trans)
        have ne: "new_events st st' = new_events st ?st1 @ new_events ?st1 st'"
          using e1 e2 by (rule new_events_trans)
        have nr: "network_requests (new_events st st') =
            Net_get h m y # network_requests (new_events ?st1 st')"
          using new_events_download_period [of st env h y m mn ?tp]
          by (simp add: ne network_requests_def)
        have absent: "\<not> artifact_present (tree st) dir (y, m)"
          using present False by simp
        have older: "\<not> artifact_present (tree ?st1) dir (y, k) \<Longrightarrow>
            \<not> artifact_present (tree st) dir (y, k)" for k
          using artifact_present_extends [OF e1] by blast
        have sound: "\<forall>ev\<in>set (network_requests (new_events st st')).
            \<exists>k. ev = Net_get h k y \<and> k \<in> set (visited_months now y (m # ms)) \<and>
                \<not> artifact_present (tree st) dir (y, k)"
          unfolding nr vis using IH absent older by auto
        have "Net_get h m y \<in> set (network_requests (new_events st st'))"
          unfolding nr by simp
        then have here: "Net_get h m y \<in> set (new_events st st')"
          by (simp add: network_requests_def)
        have rest: "set (new_events ?st1 st') \<subseteq> set (new_events st st')"
          by (simp add: ne)
        have cover: "e = None \<longrightarrow>
            (\<forall>k\<in>set (visited_months now y (m # ms)).
               artifact_present (tree st') dir (y, k) \<or> Net_get h k y \<in> set (new_events st st'))"
          unfolding vis using IH here rest by auto
        show ?thesis using ext sound cover by blast
      qed
    qed
  qed
qed

lemma years_loop_run:
  "years_loop env now h dir ys st = (e, st') \<Longrightarrow>
   extends st st' \<and>
   (\<forall>ev\<in>set (network_requests (new_events st st')).
      \<exists>y m. ev = Net_get h m y \<and> y \<in> set ys \<and> m \<in> set (visited_months now y [1..12]) \<and>
          \<not> artifact_present (tree st) dir (y, m)) \<and>
   (e = None \<longrightarrow>
      (\<forall>y\<in>set ys. \<forall>m\<in>set (visited_months now y [1..12]).
         artifact_present (tree st') dir (y, m) \<or> Net_get h m y \<in> set (new_events st st')))"
proof (induction ys arbitrary: st)
  case Nil
  then show ?case by (simp add: extends_refl new_events_refl network_requests_def)
next
  case (Cons y ys)
  obtain e1 st1 where m: "months_loop env now h dir y [1..12] st = (e1, st1)"
    by (cases "months_loop env now h dir y [1..12] st")
  note M = months_loop_run [OF m]
  from M have e1: "extends st st1" by blast
  show ?case
  proof (cases e1)
    case (Some x)
    with m Cons.prems have "e = Some x" and "st' = st1" by simp_all
    with M show ?thesis by auto
  next
    case None
    with m Cons.prems have rec: "years_loop env now h dir ys st1 = (e, st')" by simp
    note IH = Cons.IH [OF rec]
    from IH have e2: "extends st1 st'" by blast
    have ext: "extends st st'" using e1 e2 by (rule extends_trans)
    have ne: "new_events st st' = new_events st st1 @ new_events st1 st'"
      using e1 e2 by (rule new_events_trans)
    have older: "\<not> artifact_present (tree st1) dir p \<Longrightarrow> \<not> artifact_present (tree st) dir p" for p
      using artifact_present_extends [OF e1] by blast
    have newer: "artifact_present (tree st1) dir p \<Longrightarrow> artifact_present (tree st') dir p" for p
      using artifact_present_extends [OF e2] by blast
    have sound: "\<forall>ev\<in>set (network_requests (new_events st st')).
        \<exists>z m. ev = Net_get h m z \<and> z \<in> set (y # ys) \<and> m \<in> set (visited_months now z [1..12]) \<and>
            \<not> artifact_present (tree st) dir (z, m)"
    proof
      fix ev
      assume "ev \<in> set (network_requests (new_events st st'))"
      then consider "ev \<in> set (network_requests (new_events st st1))"
        | "ev \<in> set (network_requests (new_events st1 st'))"
        by (auto simp: ne network_requests_def)
      then show "\<exists>z m. ev = Net_get h m z \<and> z \<in> set (y # ys) \<and>
          m \<in> set (visited_months now z [1..12]) \<and> \<not> artifact_present (tree st) dir (z, m)"
      proof cases
        case 1
        with M show ?thesis by fastforce
      next
        case 2
        with IH obtain z k where "ev = Net_get h k z" "z \<in> set ys"
          "k \<in> set (visited_months now z [1..12])" "\<not> artifact_present (tree st1) dir (z, k)"
          by blast
        with older show ?thesis by auto
      qed
    qed
    have cover: "e = None \<longrightarrow>
        (\<forall>z\<in>set (y # ys). \<forall>m\<in>set (visited_months now z [1..12]).
           artifact_present (tree st') dir (z, m) \<or> Net_get h m z \<in> set (new_events st st'))"
    proof (intro impI ballI)
      fix z k
      assume en: "e = None" and z: "z \<in> set (y # ys)" and k: "k \<in> set (visited_months now z [1..12])"
      show "artifact_present (tree st') dir (z, k) \<or> Net_get h k z \<in> set (new_events st st')"
      proof (cases "z \<in> set ys")
        case True
        with IH en k show ?thesis by (auto simp: ne)
      next
        case False
        with z have "z = y" by simp
        with M None k have "artifact_present (tree st1) dir (z, k) \<or> Net_get h k z \<in> set (new_events st st1)"
          by blast
        with newer show ?thesis by (auto simp: ne)
      qed
    qed
    show ?thesis using ext sound cover by blast
  qed
qed

lemma period_grid_mem:
  "(y, m) \<in> set (period_grid now s e) \<longleftrightarrow>
   y \<in> set [s..e] \<and> m \<in> set (visited_months now y [1..12])"
  by (auto simp: period_grid_def)

lemma codes_loop_run:
  "codes_loop env now hs st = (e, st') \<Longrightarrow>
   extends st st' \<and>
   (\<forall>ev\<in>set (network_requests (new_events st st')).
      \<exists>h y m. ev = Net_get h m y \<and> h \<in> set hs \<and>
          (y, m) \<in> set (period_grid now start_year (now_year now)) \<and>
          \<not> artifact_present (tree st) (path_join BASE_DOWNLOAD_DIR h) (y, m)) \<and>
   (e = None \<longrightarrow>
      (\<forall>h\<in>set hs. \<forall>p\<in>set (period_grid now start_year (now_year now)).
         artifact_present (tree st') (path_join BASE_DOWNLOAD_DIR h) p \<or>
         Net_get h (snd p) (fst p) \<in> set (new_events st st')))"
proof (induction hs arbitrary: st)
  case Nil
  then show ?case by (simp add: extends_refl new_events_refl network_requests_def)
next
  case (Cons h hs)
  let ?G = "period_grid now start_year (now_year now)"
  let ?dir = "path_join BASE_DOWNLOAD_DIR h"
  let ?st1 = "enter_code h st"
  have e01: "extends st ?st1"
    by (auto simp: enter_code_def Let_def extends_def emit_def path_exists_def)
  have ne01: "network_requests (new_events st ?st1) = []"
    by (auto simp: enter_code_def Let_def new_events_def emit_def network_requests_def)
  have step: "codes_loop env now (h # hs) st =
      (case is_hscode_completed (tree ?st1) now ?dir start_year (now_year now) of
         Inl x \<Rightarrow> (Some x, ?st1)
       | Inr True \<Rightarrow> codes_loop env now hs (emit (Print_skip_code h) ?st1)
       | Inr False \<Rightarrow>
          (case years_loop env now h ?dir [start_year..now_year now] ?st1 of
             (Some x, st2) \<Rightarrow> (Some x, st2)
           | (None, st2) \<Rightarrow> codes_loop env now hs st2))"
    by (simp add: Let_def)
  have glue: "extends st st' \<and>
      (\<forall>ev\<in>set (network_requests (new_events st st')).
          \<exists>k y m. ev = Net_get k m y \<and> k \<in> set (h # hs) \<and> (y, m) \<in> set ?G \<and>
              \<not> artifact_present (tree st) (path_join BASE_DOWNLOAD_DIR k) (y, m)) \<and>
      (e = None \<longrightarrow>
        (\<forall>k\<in>set (h # hs). \<forall>p\<in>set ?G.
           artifact_present (tree st') (path_join BASE_DOWNLOAD_DIR k) p \<or>
           Net_get k (snd p) (fst p) \<in> set (new_events st st')))"
    if mid: "extends ?st1 st2"
      and mid_req: "\<forall>ev\<in>set (network_requests (new_events ?st1 st2)).
          \<exists>y m. ev = Net_get h m y \<and> (y, m) \<in> set ?G \<and> \<not> artifact_present (tree ?st1) ?dir (y, m)"
      and mid_cov: "\<forall>p\<in>set ?G. artifact_present (tree st2) ?dir p \<or>
          Net_get h (snd p) (fst p) \<in> set (new_events ?st1 st2)"
      and rec: "codes_loop env now hs st2 = (e, st')"
    for st2
  proof -
    note IH = Cons.IH [OF rec]
    from IH have e2: "extends st2 st'" by blast
    have e02: "extends st st2" using e01 mid by (rule extends_trans)
    have ext: "extends st st'" using e02 e2 by (rule extends_trans)
    have ne: "new_events st st' = new_events st ?st1 @ new_events ?st1 st2 @ new_events st2 st'"
      using new_events_trans [OF e02 e2] new_events_trans [OF e01 mid] by simp
    have older1: "\<not> artifact_present (tree ?st1) d p \<Longrightarrow> \<not> artifact_present (tree st) d p" for d p
      using artifact_present_extends [OF e01] by blast
    have older2: "\<not> artifact_present (tree st2) d p \<Longrightarrow> \<not> artifact_present (tree st) d p" for d p
      using artifact_present_extends [OF e02] by blast
    have newer: "artifact_present (tree st2) d p \<Longrightarrow> artifact_present (tree st') d p" for d p
      using artifact_present_extends [OF e2] by blast
    have sound: "\<forall>ev\<in>set (network_requests (new_events st st')).
          \<exists>k y m. ev = Net_get k m y \<and> k \<in> set (h # hs) \<and> (y, m) \<in> set ?G \<and>
              \<not> artifact_present (tree st) (path_join BASE_DOWNLOAD_DIR k) (y, m)"
    proof
      fix ev
      assume "ev \<in> set (network_requests (new_events st st'))"
      then consider "ev \<in> set (network_requests (new_events ?st1 st2))"
        | "ev \<in> set (network_requests (new_events st2 st'))"
        using ne01 by (auto simp: ne network_requests_def filter_empty_conv)
      then show "\<exists>k y m. ev = Net_get k m y \<and> k \<in> set (h # hs) \<and> (y, m) \<in> set ?G \<and>
              \<not> artifact_present (tree st) (path_join BASE_DOWNLOAD_DIR k) (y, m)"
      proof cases
        case 1
        with mid_req obtain y m where "ev = Net_get h m y" "(y, m) \<in> set ?G"
          "\<not> artifact_present (tree ?st1) ?dir (y, m)" by blast
        with older1 show ?thesis by auto
      next
        case 2
        with IH obtain k y m where "ev = Net_get k m y" "k \<in> set hs" "(y, m) \<in> set ?G"
          "\<not> artifact_present (tree st2) (path_join BASE_DOWNLOAD_DIR k) (y, m)" by blast
        with older2 show ?thesis by auto
      qed
    qed
    have cover: "e = None \<longrightarrow>
        (\<forall>k\<in>set (h # hs). \<forall>p\<in>set ?G.
           artifact_present (tree st') (path_join BASE_DOWNLOAD_DIR k) p \<or>
           Net_get k (snd p) (fst p) \<in> set (new_events st st'))"
    proof (intro impI ballI)
      fix k p
      assume en: "e = None" and k: "k \<in> set (h # hs)" and p: "p \<in> set ?G"
      show "artifact_present (tree st') (path_join BASE_DOWNLOAD_DIR k) p \<or>
           Net_get k (snd p) (fst p) \<in> set (new_events st st')"
      proof (cases "k \<in> set hs")
        case True
        with IH en p show ?thesis by (auto simp: ne)
      next
        case False
        with k have kh: "k = h" by simp
        from mid_cov p have "artifact_present (tree st2) ?dir p \<or>
            Net_get h (snd p) (fst p) \<in> set (new_events ?st1 st2)" by blast
        then show ?thesis
        proof
          assume "artifact_present (tree st2) ?dir p"
          then have "artifact_present (tree st') ?dir p" by (rule newer)
          then show ?thesis using kh by simp
        next
          assume "Net_get h (snd p) (fst p) \<in> set (new_events ?st1 st2)"
          then have "Net_get h (snd p) (fst p) \<in> set (new_events st st')" by (simp add: ne)
          then show ?thesis using kh by simp
        qed
      qed
    qed
    show ?thesis using ext sound cover by blast
  qed
  show ?case
  proof (cases "is_hscode_completed (tree ?st1) now ?dir start_year (now_year now)")
    case (Inl x)
    with step Cons.prems have "e = Some x" "st' = ?st1" by simp_all
    with e01 ne01 show ?thesis by auto
  next
    case (Inr b)
    show ?thesis
    proof (cases b)
      case True
      let ?st2 = "emit (Print_skip_code h) ?st1"
      from True Inr step Cons.prems have rec: "codes_loop env now hs ?st2 = (e, st')" by simp
      have all: "\<forall>p\<in>set ?G. artifact_present (tree ?st1) ?dir p"
        using Inr True by (simp add: is_hscode_completed_grid)
      have "extends ?st1 ?st2" by (rule extends_emit)
      moreover have "network_requests (new_events ?st1 ?st2) = []"
        by (simp add: new_events_emit network_requests_def)
      moreover have "\<forall>p\<in>set ?G. artifact_present (tree ?st2) ?dir p"
        using all by (simp add: emit_def)
      ultimately show ?thesis using glue [of ?st2] rec by simp
    next
      case False
      obtain e2 st2 where y: "years_loop env now h ?dir [start_year..now_year now] ?st1 = (e2, st2)"
        by (cases "years_loop env now h ?dir [start_year..now_year now] ?st1")
      note Y = years_loop_run [OF y]
      from Y have e12: "extends ?st1 st2" by blast
      have yreq: "\<forall>ev\<in>set (network_requests (new_events ?st1 st2)).
          \<exists>y m. ev = Net_get h m y \<and> (y, m) \<in> set ?G \<and> \<not> artifact_present (tree ?st1) ?dir (y, m)"
        using Y unfolding period_grid_mem by blast
      show ?thesis
      proof (cases e2)
        case (Some x)
        with False Inr step y Cons.prems have res: "e = Some x" "st' = st2" by simp_all
        have ext: "extends st st2" using e01 e12 by (rule extends_trans)
        have ne: "new_events st st2 = new_events st ?st1 @ new_events ?st1 st2"
          using e01 e12 by (rule new_events_trans)
        have older1: "\<not> artifact_present (tree ?st1) d p \<Longrightarrow> \<not> artifact_present (tree st) d p" for d p
          using artifact_present_extends [OF e01] by blast
        have "\<forall>ev\<in>set (network_requests (new_events st st2)).
          \<exists>k y m. ev = Net_get k m y \<and> k \<in> set (h # hs) \<and> (y, m) \<in> set ?G \<and>
              \<not> artifact_present (tree st) (path_join BASE_DOWNLOAD_DIR k) (y, m)"
        proof
          fix ev
          assume "ev \<in> set (network_requests (new_events st st2))"
          then have "ev \<in> set (network_requests (new_events ?st1 st2))"
            using ne01 by (auto simp: ne network_requests_def filter_empty_conv)
          with yreq obtain y m where "ev = Net_get h m y" "(y, m) \<in> set ?G"
            "\<not> artifact_present (tree ?st1) ?dir (y, m)" by blast
          with older1 show "\<exists>k y m. ev = Net_get k m y \<and> k \<in> set (h # hs) \<and> (y, m) \<in> set ?G \<and>
              \<not> artifact_present (tree st) (path_join BASE_DOWNLOAD_DIR k) (y, m)" by auto
        qed
        with res ext show ?thesis by simp
      next
        case None
        with False Inr step y Cons.prems have rec: "codes_loop env now hs st2 = (e, st')" by simp
        have ycov: "\<forall>p\<in>set ?G. artifact_present (tree st2) ?dir p \<or>
            Net_get h (snd p) (fst p) \<in> set (new_events ?st1 st2)"
          using Y None unfolding period_grid_def by auto
        show ?thesis using glue [OF e12 yreq ycov rec] .
      qed
    qed
  qed
qed

lemma months_loop_no_raise:
  "1 \<le> y \<Longrightarrow> y \<le> 9999 \<Longrightarrow> \<forall>m\<in>set ms. 1 \<le> m \<and> m \<le> 12 \<Longrightarrow>
   fst (months_loop env now h dir y ms st) = None"
  by (induction ms arbitrary: st) (auto simp: month_name_def Let_def)

lemma years_loop_no_raise:
  "\<forall>y\<in>set ys. 1 \<le> y \<and> y \<le> 9999 \<Longrightarrow> fst (years_loop env now h dir ys st) = None"
proof (induction ys arbitrary: st)
  case Nil
  then show ?case by simp
next
  case (Cons y ys)
  obtain e1 st1 where m: "months_loop env now h dir y [1..12] st = (e1, st1)"
    by (cases "months_loop env now h dir y [1..12] st")
  have "fst (months_loop env now h dir y [1..12] st) = None"
    using Cons.prems by (intro months_loop_no_raise) auto
  with m have "e1 = None" by simp
  with m Cons show ?case by simp
qed

lemma codes_loop_no_raise:
  "now_year now \<le> 9999 \<Longrightarrow> fst (codes_loop env now hs st) = None"
proof (induction hs arbitrary: st)
  case Nil
  then show ?case by simp
next
  case (Cons h hs)
  let ?dir = "path_join BASE_DOWNLOAD_DIR h"
  let ?st1 = "enter_code h st"
  have step: "codes_loop env now (h # hs) st =
      (case is_hscode_completed (tree ?st1) now ?dir start_year (now_year now) of
         Inl x \<Rightarrow> (Some x, ?st1)
       | Inr True \<Rightarrow> codes_loop env now hs (emit (Print_skip_code h) ?st1)
       | Inr False \<Rightarrow>
          (case years_loop env now h ?dir [start_year..now_year now] ?st1 of
             (Some x, st2) \<Rightarrow> (Some x, st2)
           | (None, st2) \<Rightarrow> codes_loop env now hs st2))"
    by (simp add: Let_def)
  have "\<exists>b. is_hscode_completed (tree ?st1) now ?dir start_year (now_year now) = Inr b"
    by (rule is_hscode_completed_no_raise) (use Cons.prems in \<open>simp_all add: start_year_def\<close>)
  then obtain b where b: "is_hscode_completed (tree ?st1) now ?dir start_year (now_year now) = Inr b"
    by blast
  obtain e2 st2 where y: "years_loop env now h ?dir [start_year..now_year now] ?st1 = (e2, st2)"
    by (cases "years_loop env now h ?dir [start_year..now_year now] ?st1")
  have "fst (years_loop env now h ?dir [start_year..now_year now] ?st1) = None"
    using Cons.prems by (intro years_loop_no_raise) (auto simp: start_year_def)
  with y have "e2 = None" by simp
  with step b y Cons show ?case by (cases b) simp_all
qed

section \<open>Outcomes of one request\<close>

lemma polling_state:
  "staging (emit Click_download (sleep 2 (emit (Net_get h m y) (st\<lparr>requests := Suc (requests st)\<rparr>)))) = staging st"
  "clock (emit Click_download (sleep 2 (emit (Net_get h m y) (st\<lparr>requests := Suc (requests st)\<rparr>)))) = clock st + 2"
  by (simp_all add: emit_def sleep_def)

lemma request_cycle_saved:
  assumes "request_cycle r h y m mn tp st = (Saved, st')"
  shows "\<exists>f t. wait_for_download r (staging st) (clock st + 2) (clock st + 2) = (Inr (Some f), t) \<and>
     st' = st\<lparr>requests := Suc (requests st), clock := t + 1,
              tree := (tree st)(tp \<mapsto> File (sf_data f)),
              staging := filter (\<lambda>g. sf_name g \<noteq> sf_name f) (staging st @ downloads r t),
              log := log st @ [Net_get h m y, Sleep 2, Click_download, Sleep 1,
                               Move (sf_name f) tp, Print_saved (target_filename mn y)]\<rparr>"
proof -
  define st2 where "st2 = emit Click_download (sleep 2 (emit (Net_get h m y) (st\<lparr>requests := Suc (requests st)\<rparr>)))"
  obtain found t where w: "wait_for_download r (staging st2) (clock st2) (clock st2) = (found, t)"
    by (cases "wait_for_download r (staging st2) (clock st2) (clock st2)")
  define st3 where "st3 = st2\<lparr>clock := t, staging := staging st2 @ downloads r t\<rparr>"
  have w': "wait_for_download r (staging st) (clock st + 2) (clock st + 2) = (found, t)"
    using w by (simp add: st2_def polling_state)
  show ?thesis
  proof (cases "form_phase r")
    case (Some e)
    with assms request_cycle_form_error [OF Some, of h y m mn tp st] show ?thesis by simp
  next
    case None
    note form = None
    show ?thesis
    proof (cases "excel_button r")
      case False
      with assms request_cycle_no_button [OF form False, of h y m mn tp st] show ?thesis by simp
    next
      case True
      note button = True
      show ?thesis
      proof (cases "excel_click r")
        case (Some e)
        with assms request_cycle_click_error [OF form button Some, of h y m mn tp st] show ?thesis
          by simp
      next
        case None
        note eq = request_cycle_polled [OF form button None st2_def w st3_def, of mn tp]
        show ?thesis
        proof (cases found)
          case (Inl e)
          with assms eq show ?thesis by simp
        next
          case (Inr found_file)
          show ?thesis
          proof (cases found_file)
            case None
            with Inr assms eq show ?thesis by simp
          next
            case (Some new_file)
            show ?thesis
            proof (cases "move_error r")
              case None
              with Some Inr assms eq
              have "st' = emit (Print_saved (target_filename mn y))
                 (move_file new_file tp (staging (sleep 1 st3)) (sleep 1 st3))" by simp
              then have "st' = st\<lparr>requests := Suc (requests st), clock := t + 1,
                  tree := (tree st)(tp \<mapsto> File (sf_data new_file)),
                  staging := filter (\<lambda>g. sf_name g \<noteq> sf_name new_file) (staging st @ downloads r t),
                  log := log st @ [Net_get h m y, Sleep 2, Click_download, Sleep 1,
                               Move (sf_name new_file) tp, Print_saved (target_filename mn y)]\<rparr>"
                by (simp add: st3_def st2_def emit_def sleep_def move_file_def)
              with w' Inr Some show ?thesis by blast
            next
              case (Some e)
              with \<open>found_file = Some new_file\<close> Inr assms eq show ?thesis by simp
            qed
          qed
        qed
      qed
    qed
  qed
qed

lemma request_cycle_found:
  assumes form: "form_phase r = None" and button: "excel_button r" and click: "excel_click r = None"
    and move: "move_error r = None"
    and w: "wait_for_download r (staging st) (clock st + 2) (clock st + 2) = (Inr (Some g), u)"
  shows "request_cycle r h y m mn tp st =
     (Saved, st\<lparr>requests := Suc (requests st), clock := u + 1,
              tree := (tree st)(tp \<mapsto> File (sf_data g)),
              staging := filter (\<lambda>x. sf_name x \<noteq> sf_name g) (staging st @ downloads r u),
              log := log st @ [Net_get h m y, Sleep 2, Click_download, Sleep 1,
                               Move (sf_name g) tp, Print_saved (target_filename mn y)]\<rparr>)"
proof -
  define st2 where "st2 = emit Click_download (sleep 2 (emit (Net_get h m y) (st\<lparr>requests := Suc (requests st)\<rparr>)))"
  have w2: "wait_for_download r (staging st2) (clock st2) (clock st2) = (Inr (Some g), u)"
    using w by (simp add: st2_def polling_state)
  define st3 where "st3 = st2\<lparr>clock := u, staging := staging st2 @ downloads r u\<rparr>"
  from request_cycle_polled [OF form button click st2_def w2 st3_def, of mn tp] move
  show ?thesis by (simp add: st3_def st2_def emit_def sleep_def move_file_def)
qed

lemma request_cycle_timeout:
  assumes form: "form_phase r = None" and button: "excel_button r" and click: "excel_click r = None"
    and quiet: "\<forall>u. clock st + 2 \<le> u \<and> u < clock st + 62 \<longrightarrow>
      poll_error r u = None \<and>
      (\<forall>f\<in>set (staging st @ downloads r u). \<not> in_progress (sf_name f) \<longrightarrow> sf_mtime f \<le> clock st + 2)"
  shows "request_cycle r h y m mn tp st =
     (Timed_out, st\<lparr>requests := Suc (requests st), clock := clock st + 62,
                    staging := staging st @ downloads r (clock st + 62),
                    log := log st @ [Net_get h m y, Sleep 2, Click_download, Print_timeout]\<rparr>)"
proof -
  define st2 where "st2 = emit Click_download (sleep 2 (emit (Net_get h m y) (st\<lparr>requests := Suc (requests st)\<rparr>)))"
  have "wait_for_download r (staging st) (clock st + 2) (clock st + 2) = (Inr None, clock st + 2 + 60)"
    using quiet by (intro wait_for_download_timeout) auto
  then have w: "wait_for_download r (staging st2) (clock st2) (clock st2) = (Inr None, clock st + 62)"
    by (simp add: st2_def polling_state)
  define st3 where "st3 = st2\<lparr>clock := clock st + 62, staging := staging st2 @ downloads r (clock st + 62)\<rparr>"
  from request_cycle_polled [OF form button click st2_def w st3_def, of mn tp]
  show ?thesis by (simp add: st3_def st2_def emit_def sleep_def)
qed

lemma download_period_of_cycle:
  "request_cycle (env (requests st)) h y m mn tp (emit (Print_downloading mn y) st) = (res, st') \<Longrightarrow>
   download_period env h y m mn tp st =
     (case res of Raised e \<Rightarrow> emit (Print_error mn y e) st' | _ \<Rightarrow> st')"
  by (simp add: download_period_def Let_def emit_def)

lemma months_loop_next:
  "\<not> (y = now_year now \<and> m > now_month now) \<Longrightarrow> month_name y m = Inr mn \<Longrightarrow>
   \<not> path_exists (tree st) (path_join dir (target_filename mn y)) \<Longrightarrow>
   months_loop env now h dir y (m # ms) st =
     months_loop env now h dir y ms
       (download_period env h y m mn (path_join dir (target_filename mn y)) st)"
  by (auto simp: Let_def)

lemma codes_loop_complete:
  "\<forall>h\<in>set hs. is_hscode_completed (tree st) now (path_join BASE_DOWNLOAD_DIR h) start_year (now_year now) = Inr True \<Longrightarrow>
   codes_loop env now hs st =
     (None, st\<lparr>log := log st @ concat (map (\<lambda>h. [Print_processing h, Print_skip_code h]) hs)\<rparr>)"
proof (induction hs arbitrary: st)
  case Nil
  then show ?case by simp
next
  case (Cons h hs)
  let ?dir = "path_join BASE_DOWNLOAD_DIR h"
  from Cons.prems have c: "is_hscode_completed (tree st) now ?dir start_year (now_year now) = Inr True"
    by simp
  then have "path_exists (tree st) ?dir" by (simp add: is_hscode_completed_grid)
  then have enter: "enter_code h st = emit (Print_processing h) st"
    by (simp add: enter_code_def Let_def emit_def)
  let ?st2 = "emit (Print_skip_code h) (emit (Print_processing h) st)"
  have t2: "tree ?st2 = tree st" by (simp add: emit_def)
  have step: "codes_loop env now (h # hs) st = codes_loop env now hs ?st2"
    using c by (simp add: Let_def enter emit_def)
  have "\<forall>k\<in>set hs. is_hscode_completed (tree ?st2) now (path_join BASE_DOWNLOAD_DIR k) start_year (now_year now) = Inr True"
    using Cons.prems unfolding t2 by simp
  from Cons.IH [OF this] step show ?case by (simp add: emit_def)
qed

section \<open>Properties of the crawl driver\<close>

lemma scrape_split:
  "codes_loop env now hs st = (e, st') \<Longrightarrow>
   scrape_commodity_data env now hs st = (e, emit Print_closing st')"
  by (simp add: scrape_commodity_data_def)

lemma scrape_run:
  assumes "codes_loop env now hs st = (e, st')"
  shows "network_requests (new_events st (snd (scrape_commodity_data env now hs st))) =
         network_requests (new_events st st')"
    and "set (new_events st st') \<subseteq> set (new_events st (snd (scrape_commodity_data env now hs st)))"
    and "tree (snd (scrape_commodity_data env now hs st)) = tree st'"
proof -
  from codes_loop_run [OF assms] have ext: "extends st st'" by blast
  have ne: "new_events st (emit Print_closing st') = new_events st st' @ [Print_closing]"
    using new_events_trans [OF ext extends_emit [of st' Print_closing]]
    by (simp add: new_events_emit)
  show "network_requests (new_events st (snd (scrape_commodity_data env now hs st))) =
         network_requests (new_events st st')"
    by (simp add: scrape_split [OF assms] ne network_requests_def)
  show "set (new_events st st') \<subseteq> set (new_events st (snd (scrape_commodity_data env now hs st)))"
    by (auto simp: scrape_split [OF assms] ne)
  show "tree (snd (scrape_commodity_data env now hs st)) = tree st'"
    by (simp add: scrape_split [OF assms] emit_def)
qed

text \<open>
  C1 (as stated): for every catalog and storage tree a second run performs zero network
  interactions. A period whose request ended without a file (here: no export button)
  leaves no trace in the storage tree, so the second run asks for it again.
\<close>

theorem second_run_counterexample:
  "network_requests
     (new_events
        (snd (scrape_commodity_data (\<lambda>n. no_data_response) jan_2018 [''26011100''] empty_state))
        (snd (scrape_commodity_data (\<lambda>n. no_data_response) jan_2018 [''26011100'']
           (snd (scrape_commodity_data (\<lambda>n. no_data_response) jan_2018 [''26011100''] empty_state)))))
   = [Net_get ''26011100'' 1 2018]"
  unfolding no_data_response_def jan_2018_def empty_state_def by code_simp

text \<open>
  C1 (amended): in any run, from any state (in particular the final state of an earlier
  run, under the same wall-clock month): a period whose canonical artifact path already
  exists is skipped, no request is made for it; when every period of the grid of every
  code of the catalog has its artifact, the run performs zero network interactions; and
  when the oracle finds every code complete, the run changes nothing but the log, to
  which it adds the progress and skip lines: the storage tree is identical.
\<close>

theorem resumable_skip:
  "(artifact_present (tree st) (path_join BASE_DOWNLOAD_DIR h) (y, m) \<longrightarrow>
      Net_get h m y \<notin> set (new_events st (snd (scrape_commodity_data env now hs st)))) \<and>
   ((\<forall>h\<in>set hs. \<forall>p\<in>set (period_grid now start_year (now_year now)).
        artifact_present (tree st) (path_join BASE_DOWNLOAD_DIR h) p) \<longrightarrow>
      network_requests (new_events st (snd (scrape_commodity_data env now hs st))) = []) \<and>
   ((\<forall>h\<in>set hs. is_hscode_completed (tree st) now (path_join BASE_DOWNLOAD_DIR h)
        start_year (now_year now) = Inr True) \<longrightarrow>
      scrape_commodity_data env now hs st =
        (None, st\<lparr>log := log st @ concat (map (\<lambda>h. [Print_processing h, Print_skip_code h]) hs)
                          @ [Print_closing]\<rparr>))"
proof -
  obtain e st' where c: "codes_loop env now hs st = (e, st')"
    by (cases "codes_loop env now hs st")
  note R = codes_loop_run [OF c]
  note S = scrape_run [OF c]
  from R have sound: "\<forall>ev\<in>set (network_requests (new_events st st')).
      \<exists>h y m. ev = Net_get h m y \<and> h \<in> set hs \<and>
          (y, m) \<in> set (period_grid now start_year (now_year now)) \<and>
          \<not> artifact_present (tree st) (path_join BASE_DOWNLOAD_DIR h) (y, m)"
    by blast
  have 1: "artifact_present (tree st) (path_join BASE_DOWNLOAD_DIR h) (y, m) \<longrightarrow>
      Net_get h m y \<notin> set (new_events st (snd (scrape_commodity_data env now hs st)))"
  proof (intro impI notI)
    assume present: "artifact_present (tree st) (path_join BASE_DOWNLOAD_DIR h) (y, m)"
      and "Net_get h m y \<in> set (new_events st (snd (scrape_commodity_data env now hs st)))"
    then have "Net_get h m y \<in> set (network_requests (new_events st (snd (scrape_commodity_data env now hs st))))"
      by (simp add: network_requests_def)
    then have "Net_get h m y \<in> set (network_requests (new_events st st'))"
      by (simp add: S(1))
    with sound present show False by auto
  qed
  have 2: "(\<forall>h\<in>set hs. \<forall>p\<in>set (period_grid now start_year (now_year now)).
        artifact_present (tree st) (path_join BASE_DOWNLOAD_DIR h) p) \<longrightarrow>
      network_requests (new_events st (snd (scrape_commodity_data env now hs st))) = []"
  proof
    assume all: "\<forall>h\<in>set hs. \<forall>p\<in>set (period_grid now start_year (now_year now)).
        artifact_present (tree st) (path_join BASE_DOWNLOAD_DIR h) p"
    have "network_requests (new_events st st') = []"
    proof (cases "network_requests (new_events st st')")
      case Nil
      then show ?thesis .
    next
      case (Cons ev evs)
      then have "ev \<in> set (network_requests (new_events st st'))" by simp
      with sound all show ?thesis by blast
    qed
    then show "network_requests (new_events st (snd (scrape_commodity_data env now hs st))) = []"
      by (simp add: S(1))
  qed
  have 3: "(\<forall>h\<in>set hs. is_hscode_completed (tree st) now (path_join BASE_DOWNLOAD_DIR h)
        start_year (now_year now) = Inr True) \<longrightarrow>
      scrape_commodity_data env now hs st =
        (None, st\<lparr>log := log st @ concat (map (\<lambda>h. [Print_processing h, Print_skip_code h]) hs)
                          @ [Print_closing]\<rparr>)"
    by (auto simp: codes_loop_complete scrape_commodity_data_def emit_def)
  show ?thesis using 1 2 3 by blast
qed

theorem resumable_skip_witness:
  "artifact_present (tree after_first_run) (path_join BASE_DOWNLOAD_DIR ''26011100'') (2018, 1) \<and>
   Net_get ''26011100'' 1 2018 \<notin> set (new_events after_first_run
      (snd (scrape_commodity_data (\<lambda>n. saving_response) jan_2018 [''26011100''] after_first_run))) \<and>
   network_requests (new_events after_first_run
      (snd (scrape_commodity_data (\<lambda>n. saving_response) jan_2018 [''26011100''] after_first_run))) = [] \<and>
   is_hscode_completed (tree after_first_run) jan_2018 (path_join BASE_DOWNLOAD_DIR ''26011100'')
      start_year (now_year jan_2018) = Inr True \<and>
   scrape_commodity_data (\<lambda>n. saving_response) jan_2018 [''26011100''] after_first_run =
      (None, after_first_run\<lparr>log := log after_first_run @
         [Print_processing ''26011100'', Print_skip_code ''26011100'', Print_closing]\<rparr>)"
proof -
  have a: "artifact_present (tree after_first_run) (path_join BASE_DOWNLOAD_DIR ''26011100'') (2018, 1)"
    unfolding after_first_run_def saving_response_def jan_2018_def empty_state_def by code_simp
  have b: "\<forall>h\<in>set [''26011100'']. \<forall>p\<in>set (period_grid jan_2018 start_year (now_year jan_2018)).
        artifact_present (tree after_first_run) (path_join BASE_DOWNLOAD_DIR h) p"
    unfolding after_first_run_def saving_response_def jan_2018_def empty_state_def by code_simp
  have c: "is_hscode_completed (tree after_first_run) jan_2018 (path_join BASE_DOWNLOAD_DIR ''26011100'')
      start_year (now_year jan_2018) = Inr True"
    unfolding after_first_run_def saving_response_def jan_2018_def empty_state_def by code_simp
  then have c': "\<forall>h\<in>set [''26011100'']. is_hscode_completed (tree after_first_run) jan_2018
      (path_join BASE_DOWNLOAD_DIR h) start_year (now_year jan_2018) = Inr True"
    by simp
  note T = resumable_skip [of after_first_run "''26011100''" 2018 1 "\<lambda>n. saving_response" jan_2018
      "[''26011100'']"]
  from T a have 1: "Net_get ''26011100'' 1 2018 \<notin> set (new_events after_first_run
      (snd (scrape_commodity_data (\<lambda>n. saving_response) jan_2018 [''26011100''] after_first_run)))"
    by blast
  from T b have 2: "network_requests (new_events after_first_run
      (snd (scrape_commodity_data (\<lambda>n. saving_response) jan_2018 [''26011100''] after_first_run))) = []"
    by blast
  from T c' have "scrape_commodity_data (\<lambda>n. saving_response) jan_2018 [''26011100''] after_first_run =
      (None, after_first_run\<lparr>log := log after_first_run @
         concat (map (\<lambda>h. [Print_processing h, Print_skip_code h]) [''26011100'']) @ [Print_closing]\<rparr>)"
    by blast
  then have 3: "scrape_commodity_data (\<lambda>n. saving_response) jan_2018 [''26011100''] after_first_run =
      (None, after_first_run\<lparr>log := log after_first_run @
         [Print_processing ''26011100'', Print_skip_code ''26011100'', Print_closing]\<rparr>)"
    by simp
  show ?thesis using a 1 2 c 3 by blast
qed

text \<open>
  C5: when the export button does not appear (the wait of line 181 raises), the period
  ends with the line "No data/button": no file is written, nothing else of the state
  changes, and no error line is printed. When the button appears and is clicked but no
  file qualifies in the staging directory during the sixty seconds of polling, the period
  ends with the different line "Download timeout." and no file is written either. In both
  cases the loop over the months goes on with the next month.
\<close>

theorem no_data_vs_timeout:
  "(form_phase (env (requests st)) = None \<and> \<not> excel_button (env (requests st)) \<longrightarrow>
      download_period env h y m mn tp st =
        st\<lparr>requests := Suc (requests st),
           log := log st @ [Print_downloading mn y, Net_get h m y, Print_no_data mn y]\<rparr>) \<and>
   (form_phase (env (requests st)) = None \<and> excel_button (env (requests st)) \<and>
    excel_click (env (requests st)) = None \<and>
    (\<forall>u. clock st + 2 \<le> u \<and> u < clock st + 62 \<longrightarrow>
       poll_error (env (requests st)) u = None \<and>
       (\<forall>f\<in>set (staging st @ downloads (env (requests st)) u).
          \<not> in_progress (sf_name f) \<longrightarrow> sf_mtime f \<le> clock st + 2)) \<longrightarrow>
      tree (download_period env h y m mn tp st) = tree st \<and>
      log (download_period env h y m mn tp st) =
        log st @ [Print_downloading mn y, Net_get h m y, Sleep 2, Click_download, Print_timeout]) \<and>
   (\<not> (y = now_year now \<and> m > now_month now) \<and> month_name y m = Inr mn \<and>
    \<not> path_exists (tree st) (path_join dir (target_filename mn y)) \<longrightarrow>
      months_loop env now h dir y (m # ms) st =
        months_loop env now h dir y ms
          (download_period env h y m mn (path_join dir (target_filename mn y)) st)) \<and>
   Print_no_data mn y \<noteq> Print_timeout"
proof -
  let ?r = "env (requests st)"
  let ?st0 = "emit (Print_downloading mn y) st"
  have 1: "form_phase ?r = None \<and> \<not> excel_button ?r \<longrightarrow>
      download_period env h y m mn tp st =
        st\<lparr>requests := Suc (requests st),
           log := log st @ [Print_downloading mn y, Net_get h m y, Print_no_data mn y]\<rparr>"
  proof
    assume a: "form_phase ?r = None \<and> \<not> excel_button ?r"
    then have "request_cycle ?r h y m mn tp ?st0 =
        (No_data, emit (Print_no_data mn y) (emit (Net_get h m y) (?st0\<lparr>requests := Suc (requests ?st0)\<rparr>)))"
      by (intro request_cycle_no_button) simp_all
    from download_period_of_cycle [of env st h y m mn tp, OF this]
    show "download_period env h y m mn tp st =
        st\<lparr>requests := Suc (requests st),
           log := log st @ [Print_downloading mn y, Net_get h m y, Print_no_data mn y]\<rparr>"
      by (simp add: emit_def)
  qed
  have 2: "form_phase ?r = None \<and> excel_button ?r \<and> excel_click ?r = None \<and>
    (\<forall>u. clock st + 2 \<le> u \<and> u < clock st + 62 \<longrightarrow>
       poll_error ?r u = None \<and>
       (\<forall>f\<in>set (staging st @ downloads ?r u).
          \<not> in_progress (sf_name f) \<longrightarrow> sf_mtime f \<le> clock st + 2)) \<longrightarrow>
      tree (download_period env h y m mn tp st) = tree st \<and>
      log (download_period env h y m mn tp st) =
        log st @ [Print_downloading mn y, Net_get h m y, Sleep 2, Click_download, Print_timeout]"
  proof
    assume a: "form_phase ?r = None \<and> excel_button ?r \<and> excel_click ?r = None \<and>
      (\<forall>u. clock st + 2 \<le> u \<and> u < clock st + 62 \<longrightarrow>
       poll_error ?r u = None \<and>
       (\<forall>f\<in>set (staging st @ downloads ?r u).
          \<not> in_progress (sf_name f) \<longrightarrow> sf_mtime f \<le> clock st + 2))"
    have s0: "clock ?st0 = clock st" "staging ?st0 = staging st" by (simp_all add: emit_def)
    have "request_cycle ?r h y m mn tp ?st0 =
       (Timed_out, ?st0\<lparr>requests := Suc (requests ?st0), clock := clock ?st0 + 62,
                    staging := staging ?st0 @ downloads ?r (clock ?st0 + 62),
                    log := log ?st0 @ [Net_get h m y, Sleep 2, Click_download, Print_timeout]\<rparr>)"
      using a by (intro request_cycle_timeout) (simp_all add: s0)
    from download_period_of_cycle [of env st h y m mn tp, OF this]
    show "tree (download_period env h y m mn tp st) = tree st \<and>
      log (download_period env h y m mn tp st) =
        log st @ [Print_downloading mn y, Net_get h m y, Sleep 2, Click_download, Print_timeout]"
      by (simp add: emit_def)
  qed
  have 3: "\<not> (y = now_year now \<and> m > now_month now) \<and> month_name y m = Inr mn \<and>
    \<not> path_exists (tree st) (path_join dir (target_filename mn y)) \<longrightarrow>
      months_loop env now h dir y (m # ms) st =
        months_loop env now h dir y ms
          (download_period env h y m mn (path_join dir (target_filename mn y)) st)"
    using months_loop_next [of y now m mn st dir env h ms] by blast
  show ?thesis using 1 2 3 by blast
qed

theorem no_data_vs_timeout_witness:
  "download_period (\<lambda>n. no_data_response) ''26011100'' 2018 1 ''January''
      ''data/import/26011100/January_2018.xlsx'' empty_state =
     empty_state\<lparr>requests := Suc (requests empty_state),
        log := log empty_state @
          [Print_downloading ''January'' 2018, Net_get ''26011100'' 1 2018, Print_no_data ''January'' 2018]\<rparr> \<and>
   tree (download_period (\<lambda>n. silent_response) ''26011100'' 2018 1 ''January''
      ''data/import/26011100/January_2018.xlsx'' empty_state) = tree empty_state \<and>
   log (download_period (\<lambda>n. silent_response) ''26011100'' 2018 1 ''January''
      ''data/import/26011100/January_2018.xlsx'' empty_state) =
     log empty_state @ [Print_downloading ''January'' 2018, Net_get ''26011100'' 1 2018, Sleep 2,
        Click_download, Print_timeout] \<and>
   months_loop (\<lambda>n. no_data_response) jan_2018 ''26011100'' ''data/import/26011100'' 2018 [1, 2] empty_state =
     months_loop (\<lambda>n. no_data_response) jan_2018 ''26011100'' ''data/import/26011100'' 2018 [2]
       (download_period (\<lambda>n. no_data_response) ''26011100'' 2018 1 ''January''
          (path_join ''data/import/26011100'' (target_filename ''January'' 2018)) empty_state)"
proof -
  have a: "form_phase ((\<lambda>n. no_data_response) (requests empty_state)) = None \<and>
      \<not> excel_button ((\<lambda>n. no_data_response) (requests empty_state))"
    by (simp add: no_data_response_def)
  have b: "form_phase ((\<lambda>n. silent_response) (requests empty_state)) = None \<and>
      excel_button ((\<lambda>n. silent_response) (requests empty_state)) \<and>
      excel_click ((\<lambda>n. silent_response) (requests empty_state)) = None \<and>
      (\<forall>u. clock empty_state + 2 \<le> u \<and> u < clock empty_state + 62 \<longrightarrow>
         poll_error ((\<lambda>n. silent_response) (requests empty_state)) u = None \<and>
         (\<forall>f\<in>set (staging empty_state @ downloads ((\<lambda>n. silent_response) (requests empty_state)) u).
            \<not> in_progress (sf_name f) \<longrightarrow> sf_mtime f \<le> clock empty_state + 2))"
    by (simp add: silent_response_def empty_state_def)
  have c: "\<not> (2018 = now_year jan_2018 \<and> 1 > now_month jan_2018) \<and>
      month_name 2018 1 = Inr ''January'' \<and>
      \<not> path_exists (tree empty_state) (path_join ''data/import/26011100'' (target_filename ''January'' 2018))"
    by (simp add: jan_2018_def month_name_def empty_state_def path_exists_def)
  note A = no_data_vs_timeout [of "\<lambda>n. no_data_response" empty_state "''26011100''" 2018 1 "''January''"
      "''data/import/26011100/January_2018.xlsx''" jan_2018 "''data/import/26011100''" "[2]"]
  note B = no_data_vs_timeout [of "\<lambda>n. silent_response" empty_state "''26011100''" 2018 1 "''January''"
      "''data/import/26011100/January_2018.xlsx''" jan_2018 "''data/import/26011100''" "[2]"]
  from A a have 1: "download_period (\<lambda>n. no_data_response) ''26011100'' 2018 1 ''January''
      ''data/import/26011100/January_2018.xlsx'' empty_state =
     empty_state\<lparr>requests := Suc (requests empty_state),
        log := log empty_state @
          [Print_downloading ''January'' 2018, Net_get ''26011100'' 1 2018, Print_no_data ''January'' 2018]\<rparr>"
    by blast
  from B b have 2: "tree (download_period (\<lambda>n. silent_response) ''26011100'' 2018 1 ''January''
      ''data/import/26011100/January_2018.xlsx'' empty_state) = tree empty_state \<and>
   log (download_period (\<lambda>n. silent_response) ''26011100'' 2018 1 ''January''
      ''data/import/26011100/January_2018.xlsx'' empty_state) =
     log empty_state @ [Print_downloading ''January'' 2018, Net_get ''26011100'' 1 2018, Sleep 2,
        Click_download, Print_timeout]"
    by blast
  from A c have 3: "months_loop (\<lambda>n. no_data_response) jan_2018 ''26011100'' ''data/import/26011100'' 2018 [1, 2] empty_state =
     months_loop (\<lambda>n. no_data_response) jan_2018 ''26011100'' ''data/import/26011100'' 2018 [2]
       (download_period (\<lambda>n. no_data_response) ''26011100'' 2018 1 ''January''
          (path_join ''data/import/26011100'' (target_filename ''January'' 2018)) empty_state)"
    by blast
  show ?thesis using 1 2 3 by blast
qed

text \<open>
  C8: an exception raised inside the request and download cycle of one period is caught
  by the handler of that period: the storage tree is as before and the error line is the
  last line of the period. Whatever the remote side answers (any exception in any period
  included), the run of the driver ends without an exception escaping the loops and has
  dealt with every period of the grid of every code of the catalog: at the end either the
  artifact of the period exists or a request for it was made during the run. (The wall
  clock is a \<open>datetime\<close>, so its year is at most 9999.)
\<close>

theorem failure_isolation:
  "(fst (request_cycle (env (requests st)) h y m mn tp (emit (Print_downloading mn y) st)) = Raised e \<longrightarrow>
      tree (download_period env h y m mn tp st) = tree st \<and>
      (\<exists>evs. log (download_period env h y m mn tp st) =
         log st @ Print_downloading mn y # Net_get h m y # evs @ [Print_error mn y e])) \<and>
   (form_phase (env (requests st)) = Some e \<longrightarrow>
      fst (request_cycle (env (requests st)) h y m mn tp (emit (Print_downloading mn y) st)) = Raised e) \<and>
   (\<not> (y = now_year now \<and> m > now_month now) \<and> month_name y m = Inr mn \<and>
    \<not> path_exists (tree st) (path_join dir (target_filename mn y)) \<longrightarrow>
      months_loop env now h dir y (m # ms) st =
        months_loop env now h dir y ms
          (download_period env h y m mn (path_join dir (target_filename mn y)) st)) \<and>
   (now_year now \<le> 9999 \<longrightarrow>
      fst (scrape_commodity_data env now hs st) = None \<and>
      (\<forall>k\<in>set hs. \<forall>p\<in>set (period_grid now start_year (now_year now)).
         artifact_present (tree (snd (scrape_commodity_data env now hs st)))
           (path_join BASE_DOWNLOAD_DIR k) p \<or>
         Net_get k (snd p) (fst p) \<in> set (new_events st (snd (scrape_commodity_data env now hs st)))))"
proof -
  let ?r = "env (requests st)"
  let ?st0 = "emit (Print_downloading mn y) st"
  obtain res st1 where c: "request_cycle ?r h y m mn tp ?st0 = (res, st1)"
    by (cases "request_cycle ?r h y m mn tp ?st0")
  have 1: "fst (request_cycle ?r h y m mn tp ?st0) = Raised e \<longrightarrow>
      tree (download_period env h y m mn tp st) = tree st \<and>
      (\<exists>evs. log (download_period env h y m mn tp st) =
         log st @ Print_downloading mn y # Net_get h m y # evs @ [Print_error mn y e])"
  proof
    assume "fst (request_cycle ?r h y m mn tp ?st0) = Raised e"
    with c have res: "res = Raised e" by simp
    from request_cycle_shape(2) [OF c] obtain evs
      where l: "log st1 = log ?st0 @ Net_get h m y # evs" by blast
    from request_cycle_shape(3) [OF c] res have t: "tree st1 = tree st" by (simp add: emit_def)
    from download_period_of_cycle [of env st h y m mn tp, OF c] res
    have d: "download_period env h y m mn tp st = emit (Print_error mn y e) st1" by simp
    have "log (download_period env h y m mn tp st) =
         log st @ Print_downloading mn y # Net_get h m y # evs @ [Print_error mn y e]"
      by (simp add: d l emit_def)
    moreover have "tree (download_period env h y m mn tp st) = tree st"
      by (simp add: d t emit_def)
    ultimately show "tree (download_period env h y m mn tp st) = tree st \<and>
      (\<exists>evs. log (download_period env h y m mn tp st) =
         log st @ Print_downloading mn y # Net_get h m y # evs @ [Print_error mn y e])"
      by blast
  qed
  have 2: "form_phase ?r = Some e \<longrightarrow> fst (request_cycle ?r h y m mn tp ?st0) = Raised e"
    by (simp add: request_cycle_form_error)
  have 3: "\<not> (y = now_year now \<and> m > now_month now) \<and> month_name y m = Inr mn \<and>
    \<not> path_exists (tree st) (path_join dir (target_filename mn y)) \<longrightarrow>
      months_loop env now h dir y (m # ms) st =
        months_loop env now h dir y ms
          (download_period env h y m mn (path_join dir (target_filename mn y)) st)"
    using months_loop_next [of y now m mn st dir env h ms] by blast
  have 4: "now_year now \<le> 9999 \<longrightarrow>
      fst (scrape_commodity_data env now hs st) = None \<and>
      (\<forall>k\<in>set hs. \<forall>p\<in>set (period_grid now start_year (now_year now)).
         artifact_present (tree (snd (scrape_commodity_data env now hs st)))
           (path_join BASE_DOWNLOAD_DIR k) p \<or>
         Net_get k (snd p) (fst p) \<in> set (new_events st (snd (scrape_commodity_data env now hs st))))"
  proof
    assume valid: "now_year now \<le> 9999"
    obtain x st' where l: "codes_loop env now hs st = (x, st')"
      by (cases "codes_loop env now hs st")
    from codes_loop_no_raise [OF valid, of env hs st] l have x: "x = None" by simp
    note R = codes_loop_run [OF l]
    note S = scrape_run [OF l]
    have "fst (scrape_commodity_data env now hs st) = None"
      by (simp add: scrape_split [OF l] x)
    moreover have "\<forall>k\<in>set hs. \<forall>p\<in>set (period_grid now start_year (now_year now)).
         artifact_present (tree (snd (scrape_commodity_data env now hs st)))
           (path_join BASE_DOWNLOAD_DIR k) p \<or>
         Net_get k (snd p) (fst p) \<in> set (new_events st (snd (scrape_commodity_data env now hs st)))"
    proof (intro ballI)
      fix k p
      assume "k \<in> set hs" and "p \<in> set (period_grid now start_year (now_year now))"
      with R x have "artifact_present (tree st') (path_join BASE_DOWNLOAD_DIR k) p \<or>
         Net_get k (snd p) (fst p) \<in> set (new_events st st')" by blast
      with S(2,3) show "artifact_present (tree (snd (scrape_commodity_data env now hs st)))
           (path_join BASE_DOWNLOAD_DIR k) p \<or>
         Net_get k (snd p) (fst p) \<in> set (new_events st (snd (scrape_commodity_data env now hs st)))"
        by auto
    qed
    ultimately show "fst (scrape_commodity_data env now hs st) = None \<and>
      (\<forall>k\<in>set hs. \<forall>p\<in>set (period_grid now start_year (now_year now)).
         artifact_present (tree (snd (scrape_commodity_data env now hs st)))
           (path_join BASE_DOWNLOAD_DIR k) p \<or>
         Net_get k (snd p) (fst p) \<in> set (new_events st (snd (scrape_commodity_data env now hs st))))"
      by blast
  qed
  show ?thesis using 1 2 3 4 by blast
qed

theorem failure_isolation_witness:
  "fst (request_cycle failing_response ''26011100'' 2018 1 ''January''
      ''data/import/26011100/January_2018.xlsx'' (emit (Print_downloading ''January'' 2018) empty_state))
     = Raised (Exn ''TimeoutException'') \<and>
   tree (download_period (\<lambda>n. failing_response) ''26011100'' 2018 1 ''January''
      ''data/import/26011100/January_2018.xlsx'' empty_state) = tree empty_state \<and>
   now_year feb_2018 \<le> 9999 \<and>
   fst (scrape_commodity_data (\<lambda>n. failing_response) feb_2018 [''26011100'', ''26012000''] empty_state) = None \<and>
   \<not> artifact_present
       (tree (snd (scrape_commodity_data (\<lambda>n. failing_response) feb_2018 [''26011100'', ''26012000''] empty_state)))
       (path_join BASE_DOWNLOAD_DIR ''26012000'') (2018, 2) \<and>
   Net_get ''26012000'' 2 2018 \<in> set (new_events empty_state
      (snd (scrape_commodity_data (\<lambda>n. failing_response) feb_2018 [''26011100'', ''26012000''] empty_state)))"
proof -
  have a: "form_phase ((\<lambda>n. failing_response) (requests empty_state)) = Some (Exn ''TimeoutException'')"
    by (simp add: failing_response_def)
  have b: "now_year feb_2018 \<le> 9999" by (simp add: feb_2018_def)
  have c: "''26012000'' \<in> set [''26011100'', ''26012000'']" by simp
  have d: "(2018, 2) \<in> set (period_grid feb_2018 start_year (now_year feb_2018))"
    by (simp add: set_period_grid feb_2018_def start_year_def)
  have n: "\<not> artifact_present
       (tree (snd (scrape_commodity_data (\<lambda>n. failing_response) feb_2018 [''26011100'', ''26012000''] empty_state)))
       (path_join BASE_DOWNLOAD_DIR ''26012000'') (2018, 2)"
    unfolding failing_response_def feb_2018_def empty_state_def by code_simp
  note A = failure_isolation [of "\<lambda>n. failing_response" empty_state "''26011100''" 2018 1 "''January''"
      "''data/import/26011100/January_2018.xlsx''" "Exn ''TimeoutException''" feb_2018
      "''data/import/26011100''" "[2]" "[''26011100'', ''26012000'']"]
  from A a have 1: "fst (request_cycle failing_response ''26011100'' 2018 1 ''January''
      ''data/import/26011100/January_2018.xlsx'' (emit (Print_downloading ''January'' 2018) empty_state))
     = Raised (Exn ''TimeoutException'')" by blast
  from A 1 have 2: "tree (download_period (\<lambda>n. failing_response) ''26011100'' 2018 1 ''January''
      ''data/import/26011100/January_2018.xlsx'' empty_state) = tree empty_state" by blast
  from A b have 3: "fst (scrape_commodity_data (\<lambda>n. failing_response) feb_2018 [''26011100'', ''26012000''] empty_state) = None"
    by blast
  from A b have "\<forall>k\<in>set [''26011100'', ''26012000'']. \<forall>p\<in>set (period_grid feb_2018 start_year (now_year feb_2018)).
         artifact_present (tree (snd (scrape_commodity_data (\<lambda>n. failing_response) feb_2018 [''26011100'', ''26012000''] empty_state)))
           (path_join BASE_DOWNLOAD_DIR k) p \<or>
         Net_get k (snd p) (fst p) \<in> set (new_events empty_state
            (snd (scrape_commodity_data (\<lambda>n. failing_response) feb_2018 [''26011100'', ''26012000''] empty_state)))"
    by blast
  from this c d n have 4: "Net_get ''26012000'' 2 2018 \<in> set (new_events empty_state
      (snd (scrape_commodity_data (\<lambda>n. failing_response) feb_2018 [''26011100'', ''26012000''] empty_state)))"
    by fastforce
  show ?thesis using 1 2 b 3 n 4 by blast
qed

text \<open>
  C9: the polling loop hands over a staging-directory file only if its name ends neither
  in \<open>.crdownload\<close> nor in \<open>.tmp\<close> and its modification time is strictly after the time
  stamp taken when the wait began; the storage tree changes only when the cycle ends
  as saved, and then that file has been moved after one second of settling: the target
  path holds its content, no file of its name is left in the staging directory, and the
  sleep and the move are the last actions before the line "Saved". Conversely the file
  that the polling loop hands over is moved to the target (unless the move itself
  raises). When no file
  qualifies during the sixty seconds of polling, the cycle ends with the line
  "Download timeout." and an unchanged storage tree, and the loop over the months goes
  on with the next month.
\<close>

theorem reconciler_relocation:
  "(wait_for_download r stg s s = (Inr (Some f), t) \<longrightarrow>
      f \<in> set (stg @ downloads r t) \<and> \<not> endswith (sf_name f) ''.crdownload'' \<and>
      \<not> endswith (sf_name f) ''.tmp'' \<and> sf_mtime f > s \<and> s \<le> t \<and> t < s + 60) \<and>
   (request_cycle r h y m mn tp st = (res, st') \<longrightarrow>
      (res \<noteq> Saved \<longrightarrow> tree st' = tree st) \<and>
      (res = Saved \<longrightarrow>
         (\<exists>g u. wait_for_download r (staging st) (clock st + 2) (clock st + 2) = (Inr (Some g), u) \<and>
            \<not> in_progress (sf_name g) \<and> sf_mtime g > clock st + 2 \<and>
            tree st' = (tree st)(tp \<mapsto> File (sf_data g)) \<and>
            (\<forall>x\<in>set (staging st'). sf_name x \<noteq> sf_name g) \<and>
            log st' = log st @ [Net_get h m y, Sleep 2, Click_download, Sleep 1,
                                Move (sf_name g) tp, Print_saved (target_filename mn y)]))) \<and>
   (form_phase r = None \<and> excel_button r \<and> excel_click r = None \<and> move_error r = None \<and>
    wait_for_download r (staging st) (clock st + 2) (clock st + 2) = (Inr (Some f), t) \<longrightarrow>
      fst (request_cycle r h y m mn tp st) = Saved \<and>
      tree (snd (request_cycle r h y m mn tp st)) = (tree st)(tp \<mapsto> File (sf_data f))) \<and>
   (form_phase r = None \<and> excel_button r \<and> excel_click r = None \<and>
    (\<forall>u. clock st + 2 \<le> u \<and> u < clock st + 62 \<longrightarrow>
       poll_error r u = None \<and>
       (\<forall>x\<in>set (staging st @ downloads r u). \<not> in_progress (sf_name x) \<longrightarrow> sf_mtime x \<le> clock st + 2)) \<longrightarrow>
      fst (request_cycle r h y m mn tp st) = Timed_out \<and>
      tree (snd (request_cycle r h y m mn tp st)) = tree st \<and>
      log (snd (request_cycle r h y m mn tp st)) =
        log st @ [Net_get h m y, Sleep 2, Click_download, Print_timeout]) \<and>
   (\<not> (y = now_year now \<and> m > now_month now) \<and> month_name y m = Inr mn \<and>
    \<not> path_exists (tree st) (path_join dir (target_filename mn y)) \<longrightarrow>
      months_loop env now h dir y (m # ms) st =
        months_loop env now h dir y ms
          (download_period env h y m mn (path_join dir (target_filename mn y)) st))"
proof -
  have found: "f \<in> set (stg @ downloads r t) \<and> \<not> in_progress (sf_name f) \<and> sf_mtime f > s \<and> s \<le> t \<and> t < s + 60"
    if "wait_for_download r stg s s = (Inr (Some f), t)" for stg s f t
    using wait_for_download_found [OF that] get_latest_file_Some [of "stg @ downloads r t" f]
    by auto
  have 1: "wait_for_download r stg s s = (Inr (Some f), t) \<longrightarrow>
      f \<in> set (stg @ downloads r t) \<and> \<not> endswith (sf_name f) ''.crdownload'' \<and>
      \<not> endswith (sf_name f) ''.tmp'' \<and> sf_mtime f > s \<and> s \<le> t \<and> t < s + 60"
    using found [of stg s f t] by (auto simp: in_progress_def)
  have 2: "request_cycle r h y m mn tp st = (res, st') \<longrightarrow>
      (res \<noteq> Saved \<longrightarrow> tree st' = tree st) \<and>
      (res = Saved \<longrightarrow>
         (\<exists>g u. wait_for_download r (staging st) (clock st + 2) (clock st + 2) = (Inr (Some g), u) \<and>
            \<not> in_progress (sf_name g) \<and> sf_mtime g > clock st + 2 \<and>
            tree st' = (tree st)(tp \<mapsto> File (sf_data g)) \<and>
            (\<forall>x\<in>set (staging st'). sf_name x \<noteq> sf_name g) \<and>
            log st' = log st @ [Net_get h m y, Sleep 2, Click_download, Sleep 1,
                                Move (sf_name g) tp, Print_saved (target_filename mn y)]))"
  proof (intro impI conjI)
    assume c: "request_cycle r h y m mn tp st = (res, st')" and "res \<noteq> Saved"
    then show "tree st' = tree st" using request_cycle_shape(3) by blast
  next
    assume c: "request_cycle r h y m mn tp st = (res, st')" and "res = Saved"
    then have "request_cycle r h y m mn tp st = (Saved, st')" by simp
    from request_cycle_saved [OF this] obtain g u
      where w: "wait_for_download r (staging st) (clock st + 2) (clock st + 2) = (Inr (Some g), u)"
        and s: "st' = st\<lparr>requests := Suc (requests st), clock := u + 1,
              tree := (tree st)(tp \<mapsto> File (sf_data g)),
              staging := filter (\<lambda>x. sf_name x \<noteq> sf_name g) (staging st @ downloads r u),
              log := log st @ [Net_get h m y, Sleep 2, Click_download, Sleep 1,
                               Move (sf_name g) tp, Print_saved (target_filename mn y)]\<rparr>"
      by blast
    from found [OF w] have q: "\<not> in_progress (sf_name g) \<and> sf_mtime g > clock st + 2" by blast
    have "tree st' = (tree st)(tp \<mapsto> File (sf_data g))" by (simp add: s)
    moreover have "\<forall>x\<in>set (staging st'). sf_name x \<noteq> sf_name g" by (auto simp: s)
    moreover have "log st' = log st @ [Net_get h m y, Sleep 2, Click_download, Sleep 1,
                                Move (sf_name g) tp, Print_saved (target_filename mn y)]"
      by (simp add: s)
    ultimately show "\<exists>g u. wait_for_download r (staging st) (clock st + 2) (clock st + 2) = (Inr (Some g), u) \<and>
            \<not> in_progress (sf_name g) \<and> sf_mtime g > clock st + 2 \<and>
            tree st' = (tree st)(tp \<mapsto> File (sf_data g)) \<and>
            (\<forall>x\<in>set (staging st'). sf_name x \<noteq> sf_name g) \<and>
            log st' = log st @ [Net_get h m y, Sleep 2, Click_download, Sleep 1,
                                Move (sf_name g) tp, Print_saved (target_filename mn y)]"
      using w q by blast
  qed
  have 3: "form_phase r = None \<and> excel_button r \<and> excel_click r = None \<and>
    (\<forall>u. clock st + 2 \<le> u \<and> u < clock st + 62 \<longrightarrow>
       poll_error r u = None \<and>
       (\<forall>x\<in>set (staging st @ downloads r u). \<not> in_progress (sf_name x) \<longrightarrow> sf_mtime x \<le> clock st + 2)) \<longrightarrow>
      fst (request_cycle r h y m mn tp st) = Timed_out \<and>
      tree (snd (request_cycle r h y m mn tp st)) = tree st \<and>
      log (snd (request_cycle r h y m mn tp st)) =
        log st @ [Net_get h m y, Sleep 2, Click_download, Print_timeout]"
  proof
    assume a: "form_phase r = None \<and> excel_button r \<and> excel_click r = None \<and>
      (\<forall>u. clock st + 2 \<le> u \<and> u < clock st + 62 \<longrightarrow>
       poll_error r u = None \<and>
       (\<forall>x\<in>set (staging st @ downloads r u). \<not> in_progress (sf_name x) \<longrightarrow> sf_mtime x \<le> clock st + 2))"
    then have "request_cycle r h y m mn tp st =
       (Timed_out, st\<lparr>requests := Suc (requests st), clock := clock st + 62,
                    staging := staging st @ downloads r (clock st + 62),
                    log := log st @ [Net_get h m y, Sleep 2, Click_download, Print_timeout]\<rparr>)"
      by (intro request_cycle_timeout) simp_all
    then show "fst (request_cycle r h y m mn tp st) = Timed_out \<and>
      tree (snd (request_cycle r h y m mn tp st)) = tree st \<and>
      log (snd (request_cycle r h y m mn tp st)) =
        log st @ [Net_get h m y, Sleep 2, Click_download, Print_timeout]"
      by simp
  qed
  have 4: "\<not> (y = now_year now \<and> m > now_month now) \<and> month_name y m = Inr mn \<and>
    \<not> path_exists (tree st) (path_join dir (target_filename mn y)) \<longrightarrow>
      months_loop env now h dir y (m # ms) st =
        months_loop env now h dir y ms
          (download_period env h y m mn (path_join dir (target_filename mn y)) st)"
    using months_loop_next [of y now m mn st dir env h ms] by blast
  have 5: "form_phase r = None \<and> excel_button r \<and> excel_click r = None \<and> move_error r = None \<and>
    wait_for_download r (staging st) (clock st + 2) (clock st + 2) = (Inr (Some f), t) \<longrightarrow>
      fst (request_cycle r h y m mn tp st) = Saved \<and>
      tree (snd (request_cycle r h y m mn tp st)) = (tree st)(tp \<mapsto> File (sf_data f))"
    by (auto simp: request_cycle_found)
  show ?thesis using 1 2 3 4 5 by blast
qed

theorem reconciler_relocation_witness:
  "wait_for_download saving_response [] 2 2 =
     (Inr (Some \<lparr>sf_name = ''report.xlsx'', sf_ctime = 4, sf_mtime = 4, sf_data = ''sheet''\<rparr>), 4) \<and>
   \<not> endswith ''report.xlsx'' ''.crdownload'' \<and> \<not> endswith ''report.xlsx'' ''.tmp'' \<and>
   fst (request_cycle saving_response ''26011100'' 2018 1 ''January''
      ''data/import/26011100/January_2018.xlsx'' empty_state) = Saved \<and>
   (\<exists>g u. wait_for_download saving_response (staging empty_state) (clock empty_state + 2)
        (clock empty_state + 2) = (Inr (Some g), u) \<and>
      tree (snd (request_cycle saving_response ''26011100'' 2018 1 ''January''
        ''data/import/26011100/January_2018.xlsx'' empty_state)) =
        (tree empty_state)(''data/import/26011100/January_2018.xlsx'' \<mapsto> File (sf_data g))) \<and>
   tree (snd (request_cycle saving_response ''26011100'' 2018 1 ''January''
      ''data/import/26011100/January_2018.xlsx'' empty_state)) =
     (tree empty_state)(''data/import/26011100/January_2018.xlsx'' \<mapsto> File ''sheet'') \<and>
   fst (request_cycle silent_response ''26011100'' 2018 1 ''January''
      ''data/import/26011100/January_2018.xlsx'' empty_state) = Timed_out \<and>
   tree (snd (request_cycle failing_response ''26011100'' 2018 1 ''January''
      ''data/import/26011100/January_2018.xlsx'' empty_state)) = tree empty_state \<and>
   months_loop (\<lambda>n. silent_response) jan_2018 ''26011100'' ''data/import/26011100'' 2018 [1, 2] empty_state =
     months_loop (\<lambda>n. silent_response) jan_2018 ''26011100'' ''data/import/26011100'' 2018 [2]
       (download_period (\<lambda>n. silent_response) ''26011100'' 2018 1 ''January''
          (path_join ''data/import/26011100'' (target_filename ''January'' 2018)) empty_state)"
proof -
  let ?f = "\<lparr>sf_name = ''report.xlsx'', sf_ctime = 4, sf_mtime = 4, sf_data = ''sheet''\<rparr>"
  let ?tp = "''data/import/26011100/January_2018.xlsx''"
  have w: "wait_for_download saving_response [] 2 2 = (Inr (Some ?f), 4)"
    unfolding saving_response_def by code_simp
  have s: "fst (request_cycle saving_response ''26011100'' 2018 1 ''January'' ?tp empty_state) = Saved"
    unfolding saving_response_def empty_state_def by code_simp
  have e: "fst (request_cycle failing_response ''26011100'' 2018 1 ''January'' ?tp empty_state) \<noteq> Saved"
    unfolding failing_response_def empty_state_def by code_simp
  have q: "form_phase silent_response = None \<and> excel_button silent_response \<and>
      excel_click silent_response = None \<and>
      (\<forall>u. clock empty_state + 2 \<le> u \<and> u < clock empty_state + 62 \<longrightarrow>
         poll_error silent_response u = None \<and>
         (\<forall>x\<in>set (staging empty_state @ downloads silent_response u).
            \<not> in_progress (sf_name x) \<longrightarrow> sf_mtime x \<le> clock empty_state + 2))"
    by (simp add: silent_response_def empty_state_def)
  have c: "\<not> (2018 = now_year jan_2018 \<and> 1 > now_month jan_2018) \<and>
      month_name 2018 1 = Inr ''January'' \<and>
      \<not> path_exists (tree empty_state) (path_join ''data/import/26011100'' (target_filename ''January'' 2018))"
    by (simp add: jan_2018_def month_name_def empty_state_def path_exists_def)
  note A = reconciler_relocation [where r = saving_response and stg = "[]" and s = 2 and f = ?f
      and t = 4 and h = "''26011100''" and y = 2018 and m = 1 and mn = "''January''" and tp = ?tp
      and st = empty_state
      and res = "fst (request_cycle saving_response ''26011100'' 2018 1 ''January'' ?tp empty_state)"
      and st' = "snd (request_cycle saving_response ''26011100'' 2018 1 ''January'' ?tp empty_state)"]
  note B = reconciler_relocation [where r = silent_response and h = "''26011100''" and y = 2018
      and m = 1 and mn = "''January''" and tp = ?tp and st = empty_state and now = jan_2018
      and dir = "''data/import/26011100''" and env = "\<lambda>n. silent_response" and ms = "[2]"]
  note C = reconciler_relocation [where r = failing_response and h = "''26011100''" and y = 2018
      and m = 1 and mn = "''January''" and tp = ?tp and st = empty_state
      and res = "fst (request_cycle failing_response ''26011100'' 2018 1 ''January'' ?tp empty_state)"
      and st' = "snd (request_cycle failing_response ''26011100'' 2018 1 ''January'' ?tp empty_state)"]
  have rs: "request_cycle saving_response ''26011100'' 2018 1 ''January'' ?tp empty_state =
      (fst (request_cycle saving_response ''26011100'' 2018 1 ''January'' ?tp empty_state),
       snd (request_cycle saving_response ''26011100'' 2018 1 ''January'' ?tp empty_state))"
    by simp
  have rf: "request_cycle failing_response ''26011100'' 2018 1 ''January'' ?tp empty_state =
      (fst (request_cycle failing_response ''26011100'' 2018 1 ''January'' ?tp empty_state),
       snd (request_cycle failing_response ''26011100'' 2018 1 ''January'' ?tp empty_state))"
    by simp
  have k: "form_phase saving_response = None \<and> excel_button saving_response \<and>
      excel_click saving_response = None \<and> move_error saving_response = None \<and>
      wait_for_download saving_response (staging empty_state) (clock empty_state + 2)
        (clock empty_state + 2) = (Inr (Some ?f), 4)"
    using w by (simp add: saving_response_def empty_state_def)
  from A k have 6: "tree (snd (request_cycle saving_response ''26011100'' 2018 1 ''January'' ?tp empty_state)) =
      (tree empty_state)(?tp \<mapsto> File (sf_data ?f))"
    by blast
  from A w have "\<not> endswith (sf_name ?f) ''.crdownload'' \<and> \<not> endswith (sf_name ?f) ''.tmp''"
    by blast
  then have 1: "\<not> endswith ''report.xlsx'' ''.crdownload'' \<and> \<not> endswith ''report.xlsx'' ''.tmp''"
    by simp
  from A rs s have 2: "\<exists>g u. wait_for_download saving_response (staging empty_state) (clock empty_state + 2)
        (clock empty_state + 2) = (Inr (Some g), u) \<and>
      tree (snd (request_cycle saving_response ''26011100'' 2018 1 ''January'' ?tp empty_state)) =
        (tree empty_state)(?tp \<mapsto> File (sf_data g))"
    by blast
  from B q have 3: "fst (request_cycle silent_response ''26011100'' 2018 1 ''January'' ?tp empty_state) = Timed_out"
    by blast
  from C rf e have 4: "tree (snd (request_cycle failing_response ''26011100'' 2018 1 ''January'' ?tp empty_state)) =
      tree empty_state"
    by blast
  from B c have 5: "months_loop (\<lambda>n. silent_response) jan_2018 ''26011100'' ''data/import/26011100'' 2018 [1, 2] empty_state =
     months_loop (\<lambda>n. silent_response) jan_2018 ''26011100'' ''data/import/26011100'' 2018 [2]
       (download_period (\<lambda>n. silent_response) ''26011100'' 2018 1 ''January''
          (path_join ''data/import/26011100'' (target_filename ''January'' 2018)) empty_state)"
    by blast
  from 6 have 7: "tree (snd (request_cycle saving_response ''26011100'' 2018 1 ''January'' ?tp empty_state)) =
      (tree empty_state)(?tp \<mapsto> File ''sheet'')"
    by simp
  show ?thesis using w 1 s 2 3 4 5 7 by blast
qed

text \<open>
  C2 (as stated): for a run at 2025-03-15 the grid of year 2025 contains only January and
  February. The code's grid for that run contains March, the current month, as well.
\<close>

theorem period_grid_march_counterexample:
  "period_grid march_2025 2025 2025 = [(2025, 1), (2025, 2), (2025, 3)]"
  unfolding march_2025_def by code_simp

text \<open>
  C2 (amended): the grid that the oracle requires and the driver iterates, for the years
  from any start year up to the current year, never contains a period strictly after the
  current month: every period of it is at most the current month of the current year,
  and the current month itself belongs to it. The oracle requires exactly the artifacts
  of the grid, and every request of a run is for a period of the grid. For a run at
  2025-03-15 the grid of 2025 is January, February and March, never April onward.
\<close>

theorem period_grid_excludes_future:
  "(\<forall>p\<in>set (period_grid now s (now_year now)). \<not> in_future now p) \<and>
   (s \<le> now_year now \<and> 1 \<le> now_month now \<and> now_month now \<le> 12 \<longrightarrow>
      (now_year now, now_month now) \<in> set (period_grid now s (now_year now))) \<and>
   (is_hscode_completed t now d s (now_year now) = Inr True \<longleftrightarrow>
      path_exists t d \<and> (\<forall>p\<in>set (period_grid now s (now_year now)). artifact_present t d p)) \<and>
   (\<forall>ev\<in>set (network_requests (new_events st (snd (scrape_commodity_data env now hs st)))).
      \<exists>h y m. ev = Net_get h m y \<and> (y, m) \<in> set (period_grid now start_year (now_year now)) \<and>
        \<not> in_future now (y, m)) \<and>
   period_grid \<lparr>now_year = 2025, now_month = 3\<rparr> 2025 2025 = [(2025, 1), (2025, 2), (2025, 3)]"
proof -
  have g: "period_grid \<lparr>now_year = 2025, now_month = 3\<rparr> 2025 2025 = [(2025, 1), (2025, 2), (2025, 3)]"
    by code_simp
  have f: "\<forall>p\<in>set (period_grid now s (now_year now)). \<not> in_future now p"
    by (auto simp: set_period_grid in_future_def)
  have c: "s \<le> now_year now \<and> 1 \<le> now_month now \<and> now_month now \<le> 12 \<longrightarrow>
      (now_year now, now_month now) \<in> set (period_grid now s (now_year now))"
    by (auto simp: set_period_grid)
  have r: "\<forall>ev\<in>set (network_requests (new_events st (snd (scrape_commodity_data env now hs st)))).
      \<exists>h y m. ev = Net_get h m y \<and> (y, m) \<in> set (period_grid now start_year (now_year now)) \<and>
        \<not> in_future now (y, m)"
  proof
    fix ev
    assume ev: "ev \<in> set (network_requests (new_events st (snd (scrape_commodity_data env now hs st))))"
    obtain e st' where l: "codes_loop env now hs st = (e, st')"
      by (cases "codes_loop env now hs st")
    from ev scrape_run(1) [OF l] have "ev \<in> set (network_requests (new_events st st'))" by simp
    with codes_loop_run [OF l] obtain h y m where "ev = Net_get h m y"
      and "(y, m) \<in> set (period_grid now start_year (now_year now))" by blast
    moreover from this have "\<not> in_future now (y, m)"
      by (auto simp: set_period_grid in_future_def)
    ultimately show "\<exists>h y m. ev = Net_get h m y \<and>
        (y, m) \<in> set (period_grid now start_year (now_year now)) \<and> \<not> in_future now (y, m)"
      by blast
  qed
  show ?thesis using g f c r is_hscode_completed_grid [of t now d s "now_year now"] by blast
qed

theorem period_grid_excludes_future_witness:
  "(2018, 1) \<in> set (period_grid march_2025 2018 (now_year march_2025)) \<and>
   \<not> in_future march_2025 (2018, 1) \<and>
   (now_year march_2025, now_month march_2025) \<in> set (period_grid march_2025 2018 (now_year march_2025)) \<and>
   is_hscode_completed tree_2025 march_2025 ''data/import/26011100'' 2025 (now_year march_2025) = Inr True \<and>
   artifact_present tree_2025 ''data/import/26011100'' (2025, 3) \<and>
   (\<exists>h y m. Net_get ''26011100'' 1 2018 = Net_get h m y \<and>
      (y, m) \<in> set (period_grid jan_2018 start_year (now_year jan_2018)) \<and> \<not> in_future jan_2018 (y, m))"
proof -
  have v: "Net_get ''26011100'' 1 2018 \<in> set (network_requests (new_events empty_state
      (snd (scrape_commodity_data (\<lambda>n. no_data_response) jan_2018 [''26011100''] empty_state))))"
    unfolding no_data_response_def jan_2018_def empty_state_def by code_simp
  note V = period_grid_excludes_future [of jan_2018 2018 Map.empty "[]" empty_state
      "\<lambda>n. no_data_response" "[''26011100'']"]
  from V v have 4: "\<exists>h y m. Net_get ''26011100'' 1 2018 = Net_get h m y \<and>
      (y, m) \<in> set (period_grid jan_2018 start_year (now_year jan_2018)) \<and> \<not> in_future jan_2018 (y, m)"
    by blast
  have m: "(2018, 1) \<in> set (period_grid march_2025 2018 (now_year march_2025))"
    by (simp add: set_period_grid march_2025_def)
  have h: "2018 \<le> now_year march_2025 \<and> 1 \<le> now_month march_2025 \<and> now_month march_2025 \<le> 12"
    by (simp add: march_2025_def)
  have c: "is_hscode_completed tree_2025 march_2025 ''data/import/26011100'' 2025 (now_year march_2025) = Inr True"
    unfolding march_2025_def tree_2025_def by code_simp
  have n: "(2025, 3) \<in> set (period_grid march_2025 2025 (now_year march_2025))"
    by (simp add: set_period_grid march_2025_def)
  note T = period_grid_excludes_future [of march_2025 2018]
  note U = period_grid_excludes_future [of march_2025 2025 tree_2025 "''data/import/26011100''"]
  from T m have 1: "\<not> in_future march_2025 (2018, 1)" by blast
  from T h have 2: "(now_year march_2025, now_month march_2025) \<in> set (period_grid march_2025 2018 (now_year march_2025))"
    by blast
  from U c n have 3: "artifact_present tree_2025 ''data/import/26011100'' (2025, 3)" by blast
  show ?thesis using m 1 2 c 3 4 by blast
qed


section \<open>Deduplication\<close>

lemma drop_duplicates_from_snoc:
  "drop_duplicates_from key seen (ys @ [x]) =
   drop_duplicates_from key seen ys @ (if key x \<in> set seen \<union> key ` set ys then [] else [x])"
  by (induction ys arbitrary: seen) auto

lemma drop_duplicates_snoc:
  "drop_duplicates key (ys @ [x]) =
   drop_duplicates key ys @ (if key x \<in> key ` set ys then [] else [x])"
  by (simp add: drop_duplicates_def drop_duplicates_from_snoc)

lemma drop_duplicates_index:
  "drop_duplicates key xs =
   map (\<lambda>i. xs ! i) (filter (\<lambda>i. key (xs ! i) \<notin> key ` set (take i xs)) [0..<length xs])"
proof (induction xs rule: rev_induct)
  case Nil
  then show ?case by (simp add: drop_duplicates_def)
next
  case (snoc x xs)
  have f: "filter (\<lambda>i. key ((xs @ [x]) ! i) \<notin> key ` set (take i (xs @ [x]))) [0..<length xs] =
           filter (\<lambda>i. key (xs ! i) \<notin> key ` set (take i xs)) [0..<length xs]"
    by (rule filter_cong) (auto simp: nth_append)
  have m: "map (\<lambda>i. (xs @ [x]) ! i) (filter (\<lambda>i. key (xs ! i) \<notin> key ` set (take i xs)) [0..<length xs]) =
           map (\<lambda>i. xs ! i) (filter (\<lambda>i. key (xs ! i) \<notin> key ` set (take i xs)) [0..<length xs])"
    by (rule map_cong) (auto simp: nth_append)
  have "map (\<lambda>i. (xs @ [x]) ! i)
          (filter (\<lambda>i. key ((xs @ [x]) ! i) \<notin> key ` set (take i (xs @ [x]))) [0..<length (xs @ [x])]) =
        map (\<lambda>i. (xs @ [x]) ! i)
          (filter (\<lambda>i. key ((xs @ [x]) ! i) \<notin> key ` set (take i (xs @ [x]))) [0..<length xs]) @
        (if key x \<in> key ` set xs then [] else [x])"
    by simp
  also have "\<dots> = map (\<lambda>i. xs ! i) (filter (\<lambda>i. key (xs ! i) \<notin> key ` set (take i xs)) [0..<length xs]) @
        (if key x \<in> key ` set xs then [] else [x])"
    by (simp only: f m)
  also have "\<dots> = drop_duplicates key (xs @ [x])"
    by (simp only: drop_duplicates_snoc snoc.IH)
  finally show ?case by simp
qed

lemma drop_duplicates_from_keys:
  "set (map key (drop_duplicates_from key seen xs)) = key ` set xs - set seen"
  by (induction xs arbitrary: seen) auto

lemma drop_duplicates_from_distinct:
  "distinct (map key (drop_duplicates_from key seen xs))"
proof (induction xs arbitrary: seen)
  case Nil
  then show ?case by simp
next
  case (Cons x xs)
  have "key x \<notin> set (map key (drop_duplicates_from key (key x # seen) xs))"
    unfolding drop_duplicates_from_keys by simp
  with Cons show ?case by simp
qed

lemma drop_duplicates_distinct: "distinct (map key (drop_duplicates key xs))"
  by (simp add: drop_duplicates_def drop_duplicates_from_distinct)

lemma drop_duplicates_from_first:
  "r \<in> set (drop_duplicates_from key seen xs) \<Longrightarrow>
   \<exists>ys zs. xs = ys @ r # zs \<and> key r \<notin> set seen \<union> key ` set ys"
proof (induction xs arbitrary: seen)
  case Nil
  then show ?case by simp
next
  case (Cons x xs)
  show ?case
  proof (cases "key x \<in> set seen")
    case True
    with Cons.prems have "r \<in> set (drop_duplicates_from key seen xs)" by simp
    from Cons.IH [OF this] obtain ys zs where "xs = ys @ r # zs"
      and k: "key r \<notin> set seen \<union> key ` set ys" by blast
    then have "x # xs = (x # ys) @ r # zs" by simp
    moreover have "key r \<notin> set seen \<union> key ` set (x # ys)" using k True by auto
    ultimately show ?thesis by blast
  next
    case False
    show ?thesis
    proof (cases "r = x")
      case True
      then have "x # xs = [] @ r # xs" by simp
      moreover have "key r \<notin> set seen \<union> key ` set []" using True False by simp
      ultimately show ?thesis by blast
    next
      case neq: False
      with False Cons.prems have "r \<in> set (drop_duplicates_from key (key x # seen) xs)" by simp
      from Cons.IH [OF this] obtain ys zs where "xs = ys @ r # zs"
        and k: "key r \<notin> set (key x # seen) \<union> key ` set ys" by blast
      then have "x # xs = (x # ys) @ r # zs" by simp
      moreover have "key r \<notin> set seen \<union> key ` set (x # ys)" using k by auto
      ultimately show ?thesis by blast
    qed
  qed
qed

lemma drop_duplicates_first:
  "r \<in> set (drop_duplicates key xs) \<Longrightarrow> \<exists>ys zs. xs = ys @ r # zs \<and> key r \<notin> key ` set ys"
  using drop_duplicates_from_first [of r key "[]" xs] by (simp add: drop_duplicates_def)

lemma concat_map_split:
  "concat (map f ns) = ys @ r # zs \<Longrightarrow>
   \<exists>ns1 n ns2 as bs. ns = ns1 @ n # ns2 \<and> f n = as @ r # bs \<and> ys = concat (map f ns1) @ as"
proof (induction ns arbitrary: ys)
  case Nil
  then show ?case by simp
next
  case (Cons n ns)
  from Cons.prems have eq: "f n @ concat (map f ns) = ys @ r # zs" by simp
  show ?case
  proof (cases "length ys < length (f n)")
    case True
    from eq True obtain bs where "f n = ys @ r # bs"
      by (auto simp: append_eq_append_conv2 append_eq_Cons_conv)
    then have "n # ns = [] @ n # ns \<and> f n = ys @ r # bs \<and> ys = concat (map f []) @ ys" by simp
    then show ?thesis by blast
  next
    case False
    from eq False obtain ys' where ys: "ys = f n @ ys'" and rest: "concat (map f ns) = ys' @ r # zs"
      by (auto simp: append_eq_append_conv2 append_eq_Cons_conv)
    from Cons.IH [OF rest] obtain ns1 k ns2 as bs
      where "ns = ns1 @ k # ns2" "f k = as @ r # bs" "ys' = concat (map f ns1) @ as" by blast
    then have "n # ns = (n # ns1) @ k # ns2 \<and> f k = as @ r # bs \<and>
        ys = concat (map f (n # ns1)) @ as" using ys by simp
    then show ?thesis by blast
  qed
qed

section \<open>Per-code aggregation\<close>

lemma collect_frames_concat:
  "concat (collect_frames listing h cn names) = concat (map (file_records listing h cn) names)"
  by (induction names) (auto simp: file_records_def split: option.splits)

lemma collect_frames_empty:
  "collect_frames listing h cn names = [] \<longleftrightarrow> concat (map (file_records listing h cn) names) = []"
  by (induction names) (auto simp: file_records_def split: option.splits)

lemma process_hscode_directory_eq:
  "process_hscode_directory listing h cn =
     (if concat (map (file_records listing h cn) (excel_files listing)) = [] then None
      else Some (drop_duplicates dedup_key
                   (concat (map (file_records listing h cn) (excel_files listing)))))"
  by (simp add: process_hscode_directory_def Let_def collect_frames_concat collect_frames_empty)

section \<open>Properties of the transformer\<close>

text \<open>
  The text operations on code points: white space other than ASCII is stripped, the
  digits of the header pattern are the decimal digits of any script, and \<open>float\<close>
  reads them.
\<close>

lemma strip_unicode_space:
  "strip ([160] @ ustr ''Country'' @ [133, 8195]) = ustr ''Country'' \<and>
   strip (ustr '' Country'' @ [9, 28, 12288]) = ustr ''Country'' \<and>
   strip (8203 # ustr ''Country'') = 8203 # ustr ''Country''"
  by code_simp

lemma is_digit_unicode:
  "map is_digit [48, 57, 1633, 65296, 130041] = [True, True, True, True, True] \<and>
   map is_digit [47, 58, 178, 8544, 130042] = [False, False, False, False, False]"
  by code_simp

lemma float_of_string_examples:
  "map float_of_string
     [ustr '' 12.5 '', ustr ''1_0'', ustr ''1e-2'', ustr ''.5'', ustr ''5.'', [49, 133],
      [160, 1633, 1634, 46, 1637, 160], [1633, 101, 1634]] =
     [Inr (Finite 12.5), Inr (Finite 10), Inr (Finite (1 / 100)), Inr (Finite (1 / 2)),
      Inr (Finite 5), Inr (Finite 1), Inr (Finite 12.5), Inr (Finite 100)] \<and>
   map float_of_string [ustr ''inf'', ustr ''-Infinity'', ustr ''+nan''] =
     [Inr Pos_inf, Inr Neg_inf, Inr Nan] \<and>
   map float_of_string
     [[], ustr '' '', ustr ''3%'', ustr ''1__0'', ustr ''_1'', ustr ''1_'', ustr ''1e'', ustr ''0x10'',
      [28, 49], [49, 28], [31, 49, 160], [49, 8192, 50], 304 # ustr ''nf''] =
     replicate 13 (Inl ValueError)"
  by code_simp

lemma extract_year_columns_fullwidth:
  "extract_year_columns fullwidth_header =
     [(1, ustr ''Apr-'' @ [65298, 65296, 65297, 65304], [65298, 65296, 65297, 65304], ustr ''Apr'')]"
  unfolding fullwidth_header_def by code_simp

lemma process_monthly_file_unicode:
  "process_monthly_file unicode_sheet (ustr ''26011100'') (ustr ''Iron ore'') (ustr ''Export'') =
     Some [export_record ''26011100'' ''Germany'' ''Apr-2018'' 12.5]"
  unfolding unicode_sheet_def export_record_def by code_simp

text \<open>
  C4: for a grid with two metadata rows (whatever they hold), the header row
  \<open>["S.No.", "Country", "Apr-2020", "May-2020", "%Growth"]\<close> at row index 2 and the data
  row \<open>["1", "Germany", "12.5", "", "3%"]\<close>, the transformer returns exactly one record,
  with country Germany, date \<open>Apr-2020\<close> and value 12.5. The value columns found in the
  header are \<open>Apr-2020\<close> and \<open>May-2020\<close>: \<open>%Growth\<close> is no value column, and the empty
  May cell gives no record. The same holds when the numeric cells arrive as numbers and
  the empty cell as a missing value.
\<close>

theorem transform_round_trip:
  "process_monthly_file (Sheet [row0, row1, synthetic_header, synthetic_row])
     hscode commodity_name data_type =
     Some [\<lparr>HSCod = hscode, Commodity = commodity_name, Value = Finite 12.5,
            Country = ustr ''Germany'', Date = ustr ''Apr-2020'', Type = data_type\<rparr>] \<and>
   extract_year_columns synthetic_header =
     [(2, ustr ''Apr-2020'', ustr ''2020'', ustr ''Apr''),
      (3, ustr ''May-2020'', ustr ''2020'', ustr ''May'')] \<and>
   process_monthly_file (Sheet [row0, row1, synthetic_header, synthetic_row_typed])
     hscode commodity_name data_type =
     Some [\<lparr>HSCod = hscode, Commodity = commodity_name, Value = Finite 12.5,
            Country = ustr ''Germany'', Date = ustr ''Apr-2020'', Type = data_type\<rparr>]"
proof -
  have cols: "extract_year_columns synthetic_header =
     [(2, ustr ''Apr-2020'', ustr ''2020'', ustr ''Apr''),
      (3, ustr ''May-2020'', ustr ''2020'', ustr ''May'')]"
    unfolding synthetic_header_def by code_simp
  have country: "find_country 0 synthetic_header = Some 1"
    unfolding synthetic_header_def by code_simp
  have name: "strip (ustr ''Germany'') = ustr ''Germany''"
    by code_simp
  have listed: "ustr ''Germany'' \<notin> set null_countries"
    by code_simp
  have date: "ustr ''Apr'' @ ustr ''-'' @ ustr ''2020'' = ustr ''Apr-2020''"
    by code_simp
  have parsed: "float_of_string (ustr ''12.5'') = Inr (Finite 12.5)"
    by code_simp
  have filled: "ustr ''12.5'' \<noteq> []"
    by code_simp
  have rows: "rows_records hscode commodity_name data_type 1
       [(2, ustr ''Apr-2020'', ustr ''2020'', ustr ''Apr''),
        (3, ustr ''May-2020'', ustr ''2020'', ustr ''May'')] [synthetic_row] =
     Inr [\<lparr>HSCod = hscode, Commodity = commodity_name, Value = Finite 12.5,
            Country = ustr ''Germany'', Date = ustr ''Apr-2020'', Type = data_type\<rparr>]"
    using name listed date parsed filled by (simp add: synthetic_row_def iloc_def Let_def)
  have rows_typed: "rows_records hscode commodity_name data_type 1
       [(2, ustr ''Apr-2020'', ustr ''2020'', ustr ''Apr''),
        (3, ustr ''May-2020'', ustr ''2020'', ustr ''May'')] [synthetic_row_typed] =
     Inr [\<lparr>HSCod = hscode, Commodity = commodity_name, Value = Finite 12.5,
            Country = ustr ''Germany'', Date = ustr ''Apr-2020'', Type = data_type\<rparr>]"
    using name listed date by (simp add: synthetic_row_typed_def iloc_def Let_def)
  show ?thesis
    using cols country rows rows_typed
    by (simp add: process_monthly_file_def process_body_def)
qed

text \<open>
  C6: after the aggregation of one code no two records agree on HSCod, Country and Date
  together. The result is the concatenation of the frames in processing order, from
  which the record at a position is kept exactly when no record at an earlier position
  has the same HSCod, the same Country and the same Date: when these three repeat,
  whatever the values, the first occurrence is kept and each later one is dropped, and
  a record that differs from every earlier one in one of the three is kept. The merge
  of the transformed files deduplicates in the same way.
\<close>

theorem dedup_first_wins:
  "(process_hscode_directory listing h cn = Some out \<longrightarrow>
      distinct (map (\<lambda>r. (HSCod r, Country r, Date r)) out) \<and>
      (let all = concat (collect_frames listing h cn (excel_files listing))
       in out = map (\<lambda>i. all ! i)
            (filter (\<lambda>i. \<forall>x\<in>set (take i all).
                       \<not> (HSCod x = HSCod (all ! i) \<and> Country x = Country (all ! i) \<and>
                          Date x = Date (all ! i)))
               [0..<length all]))) \<and>
   (merge_excel_files transformed = Some merged \<longrightarrow>
      distinct (map (\<lambda>r. (HSCod r, Country r, Date r)) merged) \<and>
      (let all = concat (load_frames (mergeable_files transformed))
       in merged = map (\<lambda>i. all ! i)
            (filter (\<lambda>i. \<forall>x\<in>set (take i all).
                       \<not> (HSCod x = HSCod (all ! i) \<and> Country x = Country (all ! i) \<and>
                          Date x = Date (all ! i)))
               [0..<length all]))) \<and>
   (HSCod r2 = HSCod r1 \<and> Country r2 = Country r1 \<and> Date r2 = Date r1 \<longrightarrow>
      drop_duplicates dedup_key (before @ r1 # between @ [r2]) =
      drop_duplicates dedup_key (before @ r1 # between)) \<and>
   drop_duplicates dedup_key (rs @ [r]) =
     drop_duplicates dedup_key rs @
     (if \<exists>x\<in>set rs. HSCod x = HSCod r \<and> Country x = Country r \<and> Date x = Date r then [] else [r])"
proof -
  let ?kept = "\<lambda>all. map (\<lambda>i. all ! i)
            (filter (\<lambda>i. \<forall>x\<in>set (take i all).
                       \<not> (HSCod x = HSCod (all ! i) \<and> Country x = Country (all ! i) \<and>
                          Date x = Date (all ! i)))
               [0..<length all])"
  have key: "(\<lambda>r. (HSCod r, Country r, Date r)) = dedup_key"
    by (rule ext) (simp add: dedup_key_def)
  have index: "drop_duplicates dedup_key all = ?kept all" for all
  proof -
    have "(\<lambda>i. dedup_key (all ! i) \<notin> dedup_key ` set (take i all)) =
          (\<lambda>i. \<forall>x\<in>set (take i all).
                       \<not> (HSCod x = HSCod (all ! i) \<and> Country x = Country (all ! i) \<and>
                          Date x = Date (all ! i)))"
      by (rule ext) (auto simp: dedup_key_def image_iff)
    then show ?thesis using drop_duplicates_index [of dedup_key all] by simp
  qed
  have snoc: "drop_duplicates dedup_key (ys @ [y]) =
     drop_duplicates dedup_key ys @
     (if \<exists>x\<in>set ys. HSCod x = HSCod y \<and> Country x = Country y \<and> Date x = Date y then [] else [y])"
    for ys y
  proof -
    have "dedup_key y \<in> dedup_key ` set ys \<longleftrightarrow>
          (\<exists>x\<in>set ys. HSCod x = HSCod y \<and> Country x = Country y \<and> Date x = Date y)"
      unfolding dedup_key_def image_iff by (metis prod.inject)
    then show ?thesis using drop_duplicates_snoc [of dedup_key ys y] by simp
  qed
  have 1: "process_hscode_directory listing h cn = Some out \<longrightarrow>
      distinct (map (\<lambda>r. (HSCod r, Country r, Date r)) out) \<and>
      (let all = concat (collect_frames listing h cn (excel_files listing)) in out = ?kept all)"
  proof
    assume "process_hscode_directory listing h cn = Some out"
    then have out: "out = drop_duplicates dedup_key (concat (collect_frames listing h cn (excel_files listing)))"
      by (simp add: process_hscode_directory_def Let_def split: if_splits)
    have d: "distinct (map (\<lambda>r. (HSCod r, Country r, Date r)) out)"
      unfolding key out by (rule drop_duplicates_distinct)
    have i: "let all = concat (collect_frames listing h cn (excel_files listing)) in out = ?kept all"
      unfolding Let_def out by (rule index)
    from d i show "distinct (map (\<lambda>r. (HSCod r, Country r, Date r)) out) \<and>
      (let all = concat (collect_frames listing h cn (excel_files listing)) in out = ?kept all)"
      by blast
  qed
  have 2: "merge_excel_files transformed = Some merged \<longrightarrow>
      distinct (map (\<lambda>r. (HSCod r, Country r, Date r)) merged) \<and>
      (let all = concat (load_frames (mergeable_files transformed)) in merged = ?kept all)"
  proof
    assume "merge_excel_files transformed = Some merged"
    then have out: "merged = drop_duplicates dedup_key (concat (load_frames (mergeable_files transformed)))"
      by (simp add: merge_excel_files_def Let_def split: if_splits)
    have d: "distinct (map (\<lambda>r. (HSCod r, Country r, Date r)) merged)"
      unfolding key out by (rule drop_duplicates_distinct)
    have i: "let all = concat (load_frames (mergeable_files transformed)) in merged = ?kept all"
      unfolding Let_def out by (rule index)
    from d i show "distinct (map (\<lambda>r. (HSCod r, Country r, Date r)) merged) \<and>
      (let all = concat (load_frames (mergeable_files transformed)) in merged = ?kept all)"
      by blast
  qed
  have 3: "HSCod r2 = HSCod r1 \<and> Country r2 = Country r1 \<and> Date r2 = Date r1 \<longrightarrow>
      drop_duplicates dedup_key (before @ r1 # between @ [r2]) =
      drop_duplicates dedup_key (before @ r1 # between)"
  proof
    assume "HSCod r2 = HSCod r1 \<and> Country r2 = Country r1 \<and> Date r2 = Date r1"
    then have "\<exists>x\<in>set (before @ r1 # between).
        HSCod x = HSCod r2 \<and> Country x = Country r2 \<and> Date x = Date r2"
      by auto
    with snoc [of "before @ r1 # between" r2]
    show "drop_duplicates dedup_key (before @ r1 # between @ [r2]) =
      drop_duplicates dedup_key (before @ r1 # between)"
      by simp
  qed
  show ?thesis using 1 2 3 snoc [of rs r] by blast
qed

theorem dedup_first_wins_witness:
  "process_hscode_directory several_keys (ustr ''26011100'') (ustr ''Iron ore'') =
     Some [export_record ''26011100'' ''Germany'' ''Apr-2018'' 2,
           export_record ''26011100'' ''Italy'' ''Apr-2018'' 4,
           export_record ''26011100'' ''Germany'' ''May-2018'' 5,
           export_record ''26011100'' ''France'' ''Apr-2018'' 3] \<and>
   concat (collect_frames several_keys (ustr ''26011100'') (ustr ''Iron ore'') (excel_files several_keys)) =
     [export_record ''26011100'' ''Germany'' ''Apr-2018'' 2,
      export_record ''26011100'' ''Italy'' ''Apr-2018'' 4,
      export_record ''26011100'' ''Germany'' ''Apr-2018'' 1,
      export_record ''26011100'' ''Germany'' ''May-2018'' 5,
      export_record ''26011100'' ''France'' ''Apr-2018'' 3] \<and>
   distinct (map (\<lambda>r. (HSCod r, Country r, Date r))
     [export_record ''26011100'' ''Germany'' ''Apr-2018'' 2,
      export_record ''26011100'' ''Italy'' ''Apr-2018'' 4,
      export_record ''26011100'' ''Germany'' ''May-2018'' 5,
      export_record ''26011100'' ''France'' ''Apr-2018'' 3]) \<and>
   merge_excel_files transformed_files =
     Some [export_record ''26011100'' ''Germany'' ''Apr-2018'' 2,
           export_record ''26011100'' ''Italy'' ''Apr-2018'' 4,
           export_record ''26011200'' ''Germany'' ''Apr-2018'' 7,
           export_record ''26011200'' ''Germany'' ''May-2018'' 9] \<and>
   distinct (map (\<lambda>r. (HSCod r, Country r, Date r))
     [export_record ''26011100'' ''Germany'' ''Apr-2018'' 2,
      export_record ''26011100'' ''Italy'' ''Apr-2018'' 4,
      export_record ''26011200'' ''Germany'' ''Apr-2018'' 7,
      export_record ''26011200'' ''Germany'' ''May-2018'' 9]) \<and>
   drop_duplicates dedup_key
     ([export_record ''26011100'' ''Italy'' ''Apr-2018'' 4] @
      export_record ''26011100'' ''Germany'' ''Apr-2018'' 2 #
      [export_record ''26011100'' ''Germany'' ''May-2018'' 5] @
      [export_record ''26011100'' ''Germany'' ''Apr-2018'' 1]) =
   drop_duplicates dedup_key
     ([export_record ''26011100'' ''Italy'' ''Apr-2018'' 4] @
      export_record ''26011100'' ''Germany'' ''Apr-2018'' 2 #
      [export_record ''26011100'' ''Germany'' ''May-2018'' 5]) \<and>
   drop_duplicates dedup_key
     ([export_record ''26011100'' ''Italy'' ''Apr-2018'' 4,
       export_record ''26011100'' ''Germany'' ''Apr-2018'' 2] @
      [export_record ''26011200'' ''Germany'' ''Apr-2018'' 7]) =
   drop_duplicates dedup_key
     [export_record ''26011100'' ''Italy'' ''Apr-2018'' 4,
      export_record ''26011100'' ''Germany'' ''Apr-2018'' 2] @
   [export_record ''26011200'' ''Germany'' ''Apr-2018'' 7]"
proof -
  let ?g2 = "export_record ''26011100'' ''Germany'' ''Apr-2018'' 2"
  let ?g1 = "export_record ''26011100'' ''Germany'' ''Apr-2018'' 1"
  let ?it = "export_record ''26011100'' ''Italy'' ''Apr-2018'' 4"
  let ?gm = "export_record ''26011100'' ''Germany'' ''May-2018'' 5"
  let ?fr = "export_record ''26011100'' ''France'' ''Apr-2018'' 3"
  let ?o7 = "export_record ''26011200'' ''Germany'' ''Apr-2018'' 7"
  let ?o9 = "export_record ''26011200'' ''Germany'' ''May-2018'' 9"
  let ?h = "ustr ''26011100''" and ?cn = "ustr ''Iron ore''"
  have a: "process_hscode_directory several_keys ?h ?cn = Some [?g2, ?it, ?gm, ?fr]"
    unfolding several_keys_def sheet_of_rows_def export_record_def by code_simp
  have all: "concat (collect_frames several_keys ?h ?cn (excel_files several_keys)) =
     [?g2, ?it, ?g1, ?gm, ?fr]"
    unfolding several_keys_def sheet_of_rows_def export_record_def by code_simp
  have b: "merge_excel_files transformed_files = Some [?g2, ?it, ?o7, ?o9]"
    unfolding transformed_files_def export_record_def expected_columns_def by code_simp
  have c: "HSCod ?g1 = HSCod ?g2 \<and> Country ?g1 = Country ?g2 \<and> Date ?g1 = Date ?g2"
    by (simp add: export_record_def)
  have d: "\<not> (\<exists>x\<in>set [?it, ?g2]. HSCod x = HSCod ?o7 \<and> Country x = Country ?o7 \<and> Date x = Date ?o7)"
    unfolding export_record_def by code_simp
  note T = dedup_first_wins [of several_keys ?h ?cn "[?g2, ?it, ?gm, ?fr]" transformed_files
      "[?g2, ?it, ?o7, ?o9]" ?g1 ?g2 "[?it]" "[?gm]" "[?it, ?g2]" ?o7]
  from T a have 1: "distinct (map (\<lambda>r. (HSCod r, Country r, Date r)) [?g2, ?it, ?gm, ?fr])"
    by blast
  from T b have 2: "distinct (map (\<lambda>r. (HSCod r, Country r, Date r)) [?g2, ?it, ?o7, ?o9])"
    by blast
  from T c have 3: "drop_duplicates dedup_key ([?it] @ ?g2 # [?gm] @ [?g1]) =
      drop_duplicates dedup_key ([?it] @ ?g2 # [?gm])"
    by blast
  from T have "drop_duplicates dedup_key ([?it, ?g2] @ [?o7]) =
     drop_duplicates dedup_key [?it, ?g2] @
     (if \<exists>x\<in>set [?it, ?g2]. HSCod x = HSCod ?o7 \<and> Country x = Country ?o7 \<and> Date x = Date ?o7
      then [] else [?o7])"
    by blast
  with d have 4: "drop_duplicates dedup_key ([?it, ?g2] @ [?o7]) =
     drop_duplicates dedup_key [?it, ?g2] @ [?o7]"
    by simp
  show ?thesis using a all 1 b 2 3 4 by blast
qed

lemma find_country_None:
  "\<forall>c\<in>set row. lower (strip (py_str c)) \<noteq> ustr ''country'' \<Longrightarrow> find_country idx row = None"
  by (induction row arbitrary: idx) auto

lemma map_of_filter_entry:
  assumes "distinct (map fst l)" and "(k, v) \<in> set l" and "P (k, v)"
  shows "map_of (filter P l) k = Some v"
proof -
  have "distinct (map fst (filter P l))" using assms(1) by (rule distinct_map_filter)
  moreover have "(k, v) \<in> set (filter P l)" using assms(2,3) by simp
  ultimately show ?thesis by (rule map_of_is_SomeI)
qed

lemma read_entry_listed:
  "distinct (map fst l) \<Longrightarrow> (k, v) \<in> set l \<Longrightarrow> read_entry l k = v"
  by (simp add: read_entry_def)

lemma concat_map_filter_nonempty:
  "\<forall>n\<in>set ns. \<not> Q n \<longrightarrow> f n = [] \<Longrightarrow> concat (map f (filter Q ns)) = concat (map f ns)"
  by (induction ns) auto

lemma rejected_files_excluded:
  assumes d: "distinct (map fst listing)"
  shows "process_hscode_directory
           (filter (\<lambda>entry. process_monthly_file (snd entry) h cn (ustr ''Export'') \<noteq> None) listing) h cn =
         process_hscode_directory listing h cn"
proof -
  let ?P = "\<lambda>entry. process_monthly_file (snd entry) h cn (ustr ''Export'') \<noteq> None"
  let ?Q = "\<lambda>name. process_monthly_file (read_entry listing name) h cn (ustr ''Export'') \<noteq> None"
  let ?kept = "filter ?P listing"
  have names: "map fst ?kept = filter ?Q (map fst listing)"
  proof -
    have "\<forall>entry\<in>set listing. ?P entry = ?Q (fst entry)"
      using read_entry_listed [OF d] by auto
    then have "filter ?P listing = filter (\<lambda>entry. ?Q (fst entry)) listing"
      by (intro filter_cong) auto
    then show ?thesis by (simp add: filter_map comp_def)
  qed
  have files: "excel_files ?kept = filter ?Q (excel_files listing)"
  proof -
    have "filter (\<lambda>f. endswith f (ustr ''.xlsx'')) (filter ?Q (map fst listing)) =
          filter ?Q (filter (\<lambda>f. endswith f (ustr ''.xlsx'')) (map fst listing))"
      by (simp add: conj_commute)
    then show ?thesis unfolding excel_files_def names by (simp add: filter_sort)
  qed
  have same: "file_records ?kept h cn name = file_records listing h cn name"
    if "name \<in> set (excel_files listing)" and "?Q name" for name
  proof -
    from that(1) obtain a where a: "(name, a) \<in> set listing"
      by (auto simp: excel_files_def)
    then have r: "read_entry listing name = a" using read_entry_listed [OF d] by blast
    with that(2) have "?P (name, a)" by simp
    from map_of_filter_entry [OF d a, of ?P, OF this] have "read_entry ?kept name = a"
      by (simp add: read_entry_def)
    with r show ?thesis by (simp add: file_records_def)
  qed
  have "map (file_records ?kept h cn) (filter ?Q (excel_files listing)) =
        map (file_records listing h cn) (filter ?Q (excel_files listing))"
  proof (rule map_cong [OF refl])
    fix name
    assume "name \<in> set (filter ?Q (excel_files listing))"
    then have "name \<in> set (excel_files listing)" and "?Q name" by simp_all
    then show "file_records ?kept h cn name = file_records listing h cn name" by (rule same)
  qed
  then have "concat (map (file_records ?kept h cn) (excel_files ?kept)) =
        concat (map (file_records listing h cn) (filter ?Q (excel_files listing)))"
    unfolding files by (rule arg_cong [where f = concat])
  also have "\<dots> = concat (map (file_records listing h cn) (excel_files listing))"
    by (intro concat_map_filter_nonempty) (auto simp: file_records_def)
  finally show ?thesis by (simp add: process_hscode_directory_eq)
qed

text \<open>
  C7: an artifact with fewer than three rows, or without a recognized value column in its
  header row, or without a header cell whose trimmed, lower-cased label is \<open>country\<close>,
  makes the body of the transformer return nothing without any exception; and whatever
  exception the body raises is caught, so the transformer itself always returns (no
  records in these cases). In the aggregation of a code directory the artifacts for which
  the transformer returns nothing are simply left out: the result is that of the
  directory without them.
\<close>

theorem malformed_artifact_rejected:
  "(length df < 3 \<longrightarrow> process_body (Sheet df) h cn ty = Inr None) \<and>
   ((3 \<le> length df \<longrightarrow> (\<forall>c\<in>set (df ! 2). lower (strip (py_str c)) \<noteq> ustr ''country'')) \<longrightarrow>
      process_body (Sheet df) h cn ty = Inr None) \<and>
   ((3 \<le> length df \<longrightarrow> extract_year_columns (df ! 2) = []) \<longrightarrow>
      process_body (Sheet df) h cn ty = Inr None) \<and>
   (process_body file h cn ty = Inr None \<or> (\<exists>e. process_body file h cn ty = Inl e) \<longrightarrow>
      process_monthly_file file h cn ty = None) \<and>
   (distinct (map fst listing) \<longrightarrow>
      process_hscode_directory listing h cn =
      process_hscode_directory
        (filter (\<lambda>entry. process_monthly_file (snd entry) h cn (ustr ''Export'') \<noteq> None) listing) h cn)"
proof -
  have 1: "length df < 3 \<longrightarrow> process_body (Sheet df) h cn ty = Inr None"
    by (simp add: process_body_def)
  have 2: "(3 \<le> length df \<longrightarrow> (\<forall>c\<in>set (df ! 2). lower (strip (py_str c)) \<noteq> ustr ''country'')) \<longrightarrow>
      process_body (Sheet df) h cn ty = Inr None"
  proof
    assume a: "3 \<le> length df \<longrightarrow> (\<forall>c\<in>set (df ! 2). lower (strip (py_str c)) \<noteq> ustr ''country'')"
    show "process_body (Sheet df) h cn ty = Inr None"
    proof (cases "length df < 3")
      case True
      with 1 show ?thesis by blast
    next
      case False
      with a have "find_country 0 (df ! 2) = None" by (intro find_country_None) simp
      with False show ?thesis by (simp add: process_body_def Let_def)
    qed
  qed
  have 3: "(3 \<le> length df \<longrightarrow> extract_year_columns (df ! 2) = []) \<longrightarrow>
      process_body (Sheet df) h cn ty = Inr None"
    by (simp add: process_body_def Let_def)
  have 4: "process_body file h cn ty = Inr None \<or> (\<exists>e. process_body file h cn ty = Inl e) \<longrightarrow>
      process_monthly_file file h cn ty = None"
    by (auto simp: process_monthly_file_def)
  have 5: "distinct (map fst listing) \<longrightarrow>
      process_hscode_directory listing h cn =
      process_hscode_directory
        (filter (\<lambda>entry. process_monthly_file (snd entry) h cn (ustr ''Export'') \<noteq> None) listing) h cn"
    using rejected_files_excluded [of listing h cn] by simp
  show ?thesis using 1 2 3 4 5 by blast
qed

theorem malformed_artifact_rejected_witness:
  "process_body (Sheet [[CStr (ustr ''title'')], [CStr (ustr ''unit'')]]) (ustr ''26011100'') (ustr ''Iron ore'') (ustr ''Export'') = Inr None \<and>
   process_body no_country_sheet (ustr ''26011100'') (ustr ''Iron ore'') (ustr ''Export'') = Inr None \<and>
   process_monthly_file no_country_sheet (ustr ''26011100'') (ustr ''Iron ore'') (ustr ''Export'') = None \<and>
   process_body (Sheet [[CStr (ustr ''title'')], [CStr (ustr ''unit'')], [CStr (ustr ''S.No.''), CStr (ustr ''Country''), CStr (ustr ''%Growth'')]])
     (ustr ''26011100'') (ustr ''Iron ore'') (ustr ''Export'') = Inr None \<and>
   process_monthly_file (Unreadable (Exn ''BadZipFile'')) (ustr ''26011100'') (ustr ''Iron ore'') (ustr ''Export'') = None \<and>
   lower (strip (py_str (CStr (ustr ''Country'' @ [160])))) = ustr ''country'' \<and>
   process_hscode_directory mixed_directory (ustr ''26011100'') (ustr ''Iron ore'') =
     process_hscode_directory [(ustr ''August_2018.xlsx'', sheet_with_value ''1.0'')] (ustr ''26011100'') (ustr ''Iron ore'') \<and>
   process_hscode_directory mixed_directory (ustr ''26011100'') (ustr ''Iron ore'') =
     Some [\<lparr>HSCod = ustr ''26011100'', Commodity = ustr ''Iron ore'', Value = Finite 1,
            Country = ustr ''Germany'', Date = ustr ''Apr-2018'', Type = ustr ''Export''\<rparr>]"
proof -
  let ?short = "[[CStr (ustr ''title'')], [CStr (ustr ''unit'')]]"
  let ?rows = "[[CStr (ustr ''title'')], [CStr (ustr ''unit'')], [CStr (ustr ''S.No.''), CStr (ustr ''Partner''), CStr (ustr ''Apr-2018'')],
       [CStr (ustr ''1''), CStr (ustr ''Germany''), CStr (ustr ''7'')]]"
  let ?novalue = "[[CStr (ustr ''title'')], [CStr (ustr ''unit'')], [CStr (ustr ''S.No.''), CStr (ustr ''Country''), CStr (ustr ''%Growth'')]]"
  have a: "length ?short < 3" by simp
  have b: "3 \<le> length ?rows \<longrightarrow> (\<forall>c\<in>set (?rows ! 2). lower (strip (py_str c)) \<noteq> ustr ''country'')"
    by code_simp
  have c: "3 \<le> length ?novalue \<longrightarrow> extract_year_columns (?novalue ! 2) = []"
    by code_simp
  have d: "\<exists>e. process_body (Unreadable (Exn ''BadZipFile'')) (ustr ''26011100'') (ustr ''Iron ore'') (ustr ''Export'') = Inl e"
    by (simp add: process_body_def)
  have nbsp: "lower (strip (py_str (CStr (ustr ''Country'' @ [160])))) = ustr ''country''"
    by code_simp
  have e: "distinct (map fst mixed_directory)"
    unfolding mixed_directory_def by code_simp
  have f: "filter (\<lambda>entry. process_monthly_file (snd entry) (ustr ''26011100'') (ustr ''Iron ore'') (ustr ''Export'') \<noteq> None)
      mixed_directory = [(ustr ''August_2018.xlsx'', sheet_with_value ''1.0'')]"
    unfolding mixed_directory_def sheet_with_value_def no_country_sheet_def by code_simp
  have g: "process_hscode_directory [(ustr ''August_2018.xlsx'', sheet_with_value ''1.0'')] (ustr ''26011100'') (ustr ''Iron ore'') =
     Some [\<lparr>HSCod = ustr ''26011100'', Commodity = ustr ''Iron ore'', Value = Finite 1,
            Country = ustr ''Germany'', Date = ustr ''Apr-2018'', Type = ustr ''Export''\<rparr>]"
    unfolding sheet_with_value_def by code_simp
  note A = malformed_artifact_rejected [of ?short "ustr ''26011100''" "ustr ''Iron ore''" "ustr ''Export''"]
  note B = malformed_artifact_rejected [of ?rows "ustr ''26011100''" "ustr ''Iron ore''" "ustr ''Export''" no_country_sheet]
  note C = malformed_artifact_rejected [of ?novalue "ustr ''26011100''" "ustr ''Iron ore''" "ustr ''Export''"
      "Unreadable (Exn ''BadZipFile'')" mixed_directory]
  from A a have 1: "process_body (Sheet ?short) (ustr ''26011100'') (ustr ''Iron ore'') (ustr ''Export'') = Inr None" by blast
  from B b have 2: "process_body no_country_sheet (ustr ''26011100'') (ustr ''Iron ore'') (ustr ''Export'') = Inr None"
    unfolding no_country_sheet_def by blast
  from B 2 have 3: "process_monthly_file no_country_sheet (ustr ''26011100'') (ustr ''Iron ore'') (ustr ''Export'') = None"
    by blast
  from C c have 4: "process_body (Sheet ?novalue) (ustr ''26011100'') (ustr ''Iron ore'') (ustr ''Export'') = Inr None" by blast
  from C d have 5: "process_monthly_file (Unreadable (Exn ''BadZipFile'')) (ustr ''26011100'') (ustr ''Iron ore'') (ustr ''Export'') = None"
    by blast
  from C e have "process_hscode_directory mixed_directory (ustr ''26011100'') (ustr ''Iron ore'') =
      process_hscode_directory
        (filter (\<lambda>entry. process_monthly_file (snd entry) (ustr ''26011100'') (ustr ''Iron ore'') (ustr ''Export'') \<noteq> None)
           mixed_directory) (ustr ''26011100'') (ustr ''Iron ore'')"
    by blast
  then have 6: "process_hscode_directory mixed_directory (ustr ''26011100'') (ustr ''Iron ore'') =
     process_hscode_directory [(ustr ''August_2018.xlsx'', sheet_with_value ''1.0'')] (ustr ''26011100'') (ustr ''Iron ore'')"
    unfolding f .
  from 6 g have 7: "process_hscode_directory mixed_directory (ustr ''26011100'') (ustr ''Iron ore'') =
     Some [\<lparr>HSCod = ustr ''26011100'', Commodity = ustr ''Iron ore'', Value = Finite 1,
            Country = ustr ''Germany'', Date = ustr ''Apr-2018'', Type = ustr ''Export''\<rparr>]"
    by simp
  show ?thesis using 1 2 3 4 5 nbsp 6 7 by blast
qed

text \<open>
  C10: the monthly files of a code are processed in the lexicographic order of their
  names, whatever the order of the directory listing: \<open>April_2019.xlsx\<close> comes before
  \<open>August_2018.xlsx\<close>. Every record that survives the deduplication comes from a file
  such that no file with a lexicographically smaller name holds a record of the same key:
  the first occurrence is the one of the alphabetically earliest file name, not of the
  earliest period.
\<close>

theorem aggregation_order_lexicographic:
  "excel_files listing = sort (filter (\<lambda>f. endswith f (ustr ''.xlsx'')) (map fst listing)) \<and>
   sorted (excel_files listing) \<and>
   ustr ''April_2019.xlsx'' < ustr ''August_2018.xlsx'' \<and>
   process_hscode_directory listing h cn =
     (if concat (map (file_records listing h cn) (excel_files listing)) = [] then None
      else Some (drop_duplicates dedup_key
                   (concat (map (file_records listing h cn) (excel_files listing))))) \<and>
   (process_hscode_directory listing h cn = Some out \<longrightarrow>
      (\<forall>r\<in>set out. \<exists>name\<in>set (excel_files listing).
         r \<in> set (file_records listing h cn name) \<and>
         (\<forall>other\<in>set (excel_files listing).
            other < name \<longrightarrow> dedup_key r \<notin> dedup_key ` set (file_records listing h cn other))))"
proof -
  let ?ns = "excel_files listing"
  let ?f = "file_records listing h cn"
  have s: "sorted ?ns" by (simp add: excel_files_def)
  have lt: "ustr ''April_2019.xlsx'' < ustr ''August_2018.xlsx''" by code_simp
  have first: "process_hscode_directory listing h cn = Some out \<longrightarrow>
      (\<forall>r\<in>set out. \<exists>name\<in>set ?ns. r \<in> set (?f name) \<and>
         (\<forall>other\<in>set ?ns. other < name \<longrightarrow> dedup_key r \<notin> dedup_key ` set (?f other)))"
  proof (intro impI ballI)
    fix r
    assume "process_hscode_directory listing h cn = Some out" and "r \<in> set out"
    then have "r \<in> set (drop_duplicates dedup_key (concat (map ?f ?ns)))"
      by (simp add: process_hscode_directory_eq split: if_splits)
    from drop_duplicates_first [OF this] obtain ys zs
      where c: "concat (map ?f ?ns) = ys @ r # zs" and k: "dedup_key r \<notin> dedup_key ` set ys"
      by blast
    from concat_map_split [OF c] obtain ns1 n ns2 as bs
      where ns: "?ns = ns1 @ n # ns2" and fn: "?f n = as @ r # bs" and ys: "ys = concat (map ?f ns1) @ as"
      by blast
    have later: "\<forall>x\<in>set ns2. n \<le> x"
      using s unfolding ns by (auto simp: sorted_append)
    have "\<forall>other\<in>set ?ns. other < n \<longrightarrow> dedup_key r \<notin> dedup_key ` set (?f other)"
    proof (intro ballI impI)
      fix other
      assume o: "other \<in> set ?ns" and less: "other < n"
      with later have "other \<in> set ns1" unfolding ns by auto
      then have "set (?f other) \<subseteq> set ys" unfolding ys by auto
      with k show "dedup_key r \<notin> dedup_key ` set (?f other)" by blast
    qed
    moreover have "n \<in> set ?ns" unfolding ns by simp
    moreover have "r \<in> set (?f n)" unfolding fn by simp
    ultimately show "\<exists>name\<in>set ?ns. r \<in> set (?f name) \<and>
         (\<forall>other\<in>set ?ns. other < name \<longrightarrow> dedup_key r \<notin> dedup_key ` set (?f other))"
      by blast
  qed
  show ?thesis using s lt first process_hscode_directory_eq [of listing h cn]
    by (simp add: excel_files_def)
qed

theorem aggregation_order_lexicographic_witness:
  "excel_files two_months = [ustr ''April_2019.xlsx'', ustr ''August_2018.xlsx''] \<and>
   process_hscode_directory two_months (ustr ''26011100'') (ustr ''Iron ore'') =
     Some [\<lparr>HSCod = ustr ''26011100'', Commodity = ustr ''Iron ore'', Value = Finite 2,
            Country = ustr ''Germany'', Date = ustr ''Apr-2018'', Type = ustr ''Export''\<rparr>] \<and>
   file_records two_months (ustr ''26011100'') (ustr ''Iron ore'') (ustr ''April_2019.xlsx'') =
     [\<lparr>HSCod = ustr ''26011100'', Commodity = ustr ''Iron ore'', Value = Finite 2,
       Country = ustr ''Germany'', Date = ustr ''Apr-2018'', Type = ustr ''Export''\<rparr>] \<and>
   file_records two_months (ustr ''26011100'') (ustr ''Iron ore'') (ustr ''August_2018.xlsx'') =
     [\<lparr>HSCod = ustr ''26011100'', Commodity = ustr ''Iron ore'', Value = Finite 1,
       Country = ustr ''Germany'', Date = ustr ''Apr-2018'', Type = ustr ''Export''\<rparr>] \<and>
   (\<exists>name\<in>set (excel_files two_months).
      \<lparr>HSCod = ustr ''26011100'', Commodity = ustr ''Iron ore'', Value = Finite 2,
       Country = ustr ''Germany'', Date = ustr ''Apr-2018'', Type = ustr ''Export''\<rparr>
        \<in> set (file_records two_months (ustr ''26011100'') (ustr ''Iron ore'') name) \<and>
      (\<forall>other\<in>set (excel_files two_months).
         other < name \<longrightarrow>
         dedup_key \<lparr>HSCod = ustr ''26011100'', Commodity = ustr ''Iron ore'', Value = Finite 2,
             Country = ustr ''Germany'', Date = ustr ''Apr-2018'', Type = ustr ''Export''\<rparr>
           \<notin> dedup_key ` set (file_records two_months (ustr ''26011100'') (ustr ''Iron ore'') other)))"
proof -
  let ?r = "\<lparr>HSCod = ustr ''26011100'', Commodity = ustr ''Iron ore'', Value = Finite 2,
       Country = ustr ''Germany'', Date = ustr ''Apr-2018'', Type = ustr ''Export''\<rparr>"
  have a: "excel_files two_months = [ustr ''April_2019.xlsx'', ustr ''August_2018.xlsx'']"
    unfolding two_months_def by code_simp
  have b: "process_hscode_directory two_months (ustr ''26011100'') (ustr ''Iron ore'') = Some [?r]"
    unfolding two_months_def sheet_with_value_def by code_simp
  have c: "file_records two_months (ustr ''26011100'') (ustr ''Iron ore'') (ustr ''April_2019.xlsx'') = [?r]"
    unfolding two_months_def sheet_with_value_def by code_simp
  have d: "file_records two_months (ustr ''26011100'') (ustr ''Iron ore'') (ustr ''August_2018.xlsx'') =
     [\<lparr>HSCod = ustr ''26011100'', Commodity = ustr ''Iron ore'', Value = Finite 1,
       Country = ustr ''Germany'', Date = ustr ''Apr-2018'', Type = ustr ''Export''\<rparr>]"
    unfolding two_months_def sheet_with_value_def by code_simp
  have m: "?r \<in> set [?r]" by simp
  note T = aggregation_order_lexicographic [of two_months "ustr ''26011100''" "ustr ''Iron ore''" "[?r]"]
  from T b m have "\<exists>name\<in>set (excel_files two_months).
      ?r \<in> set (file_records two_months (ustr ''26011100'') (ustr ''Iron ore'') name) \<and>
      (\<forall>other\<in>set (excel_files two_months).
         other < name \<longrightarrow>
         dedup_key ?r \<notin> dedup_key ` set (file_records two_months (ustr ''26011100'') (ustr ''Iron ore'') other))"
    by blast
  with a b c d show ?thesis by blast
qed

end
